(* ===== verification/Prelude.thy ===== *)
theory Prelude
  imports Main "HOL-Library.Word" "HOL-Library.AList" "HOL-Library.Sublist"
begin

text \<open>
  Shared vocabulary of the development: the machine and text types, the Rust
  standard-library operations on strings and slices that the program uses, the
  three-way outcome of a fallible computation, and the list and map lemmas the
  components share.

  A Rust \<open>str\<close> or \<open>String\<close> is its UTF-8 byte sequence, so it is a HOL
  \<^typ>\<open>string\<close> (a list of 8-bit characters) and \<open>length\<close> is \<open>str::len\<close>. Lower casing,
  white space and \<open>parse\<close> are modelled for ASCII bytes; a byte above 127 is left as it is.
  A \<open>Duration\<close> or an \<open>Instant\<close> is a number of nanoseconds, a \<open>HashMap\<close> or a
  \<open>DashMap\<close> an association list without duplicate keys in its iteration order.
\<close>

section \<open>Types and fact collections\<close>

type_synonym byte = "8 word"
type_synonym ('k, 'v) assoc = "('k \<times> 'v) list"

named_theorems text_simps \<open>evaluation rules for the string operations\<close>
named_theorems assoc_simps \<open>rewriting of lookups, keys and sizes of association lists\<close>

text \<open>
  A computation returns, returns an error (\<open>Err\<close>, \<open>bail!\<close>, the \<open>?\<close> operator), or
  panics (an index out of bounds, an arithmetic overflow, \<open>unwrap\<close> of nothing). The release
  profile of the program is built with \<open>panic = "abort"\<close>: a panic ends the process.
\<close>

datatype ('e, 'a) outcome = Ok 'a | Err 'e | Panic

fun bind_outcome :: "('e, 'a) outcome \<Rightarrow> ('a \<Rightarrow> ('e, 'b) outcome) \<Rightarrow> ('e, 'b) outcome" where
  "bind_outcome (Ok a) f = f a"
| "bind_outcome (Err e) f = Err e"
| "bind_outcome Panic f = Panic"

fun is_ok :: "('e, 'a) outcome \<Rightarrow> bool" where
  "is_ok (Ok a) = True"
| "is_ok _ = False"

lemma bind_outcome_eq_Ok:
  "bind_outcome r f = Ok b \<longleftrightarrow> (\<exists>a. r = Ok a \<and> f a = Ok b)"
  by (cases r) auto

lemma bind_outcome_eq_Panic:
  "bind_outcome r f = Panic \<longleftrightarrow> r = Panic \<or> (\<exists>a. r = Ok a \<and> f a = Panic)"
  by (cases r) auto

text \<open>The \<open>?\<close> operator between two calls that change a state.\<close>

definition and_then ::
    "('e, unit) outcome \<times> 'w \<Rightarrow> ('w \<Rightarrow> ('e, unit) outcome \<times> 'w) \<Rightarrow> ('e, unit) outcome \<times> 'w" where
  "and_then r f = (case r of (Ok _, w) \<Rightarrow> f w | (Err e, w) \<Rightarrow> (Err e, w) | (Panic, w) \<Rightarrow> (Panic, w))"

lemma and_then_Ok: "and_then r f = (Ok (), w') \<longleftrightarrow> (\<exists>w. r = (Ok (), w) \<and> f w = (Ok (), w'))"
  by (cases r) (auto simp: and_then_def split: outcome.splits)

text \<open>Nanoseconds in a second and in a millisecond, and the size of a 64-bit word.\<close>

abbreviation secs :: "nat \<Rightarrow> nat" where
  "secs n \<equiv> n * 1000000000"

abbreviation millis :: "nat \<Rightarrow> nat" where
  "millis n \<equiv> n * 1000000"

abbreviation u64_size :: nat where
  "u64_size \<equiv> 18446744073709551616"

section \<open>Slices and substrings\<close>

fun starts_with :: "'a list \<Rightarrow> 'a list \<Rightarrow> bool" where
  "starts_with xs [] = True"
| "starts_with [] (p # ps) = False"
| "starts_with (x # xs) (p # ps) = (x = p \<and> starts_with xs ps)"

definition ends_with :: "'a list \<Rightarrow> 'a list \<Rightarrow> bool" where
  "ends_with xs ps = starts_with (rev xs) (rev ps)"

fun find_sub :: "'a list \<Rightarrow> 'a list \<Rightarrow> nat option" where
  "find_sub [] ps = (if ps = [] then Some 0 else None)"
| "find_sub (x # xs) ps =
     (if starts_with (x # xs) ps then Some 0 else map_option Suc (find_sub xs ps))"

definition contains_sub :: "'a list \<Rightarrow> 'a list \<Rightarrow> bool" where
  "contains_sub xs ps = (find_sub xs ps \<noteq> None)"

definition strip_prefix :: "'a list \<Rightarrow> 'a list \<Rightarrow> 'a list option" where
  "strip_prefix xs ps = (if starts_with xs ps then Some (drop (length ps) xs) else None)"

definition strip_suffix :: "'a list \<Rightarrow> 'a list \<Rightarrow> 'a list option" where
  "strip_suffix xs ps =
     (if ends_with xs ps then Some (take (length xs - length ps) xs) else None)"

lemma starts_with_iff_prefix: "starts_with xs ps \<longleftrightarrow> prefix ps xs"
  by (induction xs ps rule: starts_with.induct) auto

lemma starts_with_iff: "starts_with xs ps \<longleftrightarrow> (\<exists>zs. xs = ps @ zs)"
  by (simp add: starts_with_iff_prefix prefix_def)

lemma starts_with_append [simp]: "starts_with (ps @ zs) ps"
  by (auto simp: starts_with_iff)

lemma starts_with_self [simp]: "starts_with ps ps"
  using starts_with_append [of ps "[]"] by simp

lemma ends_with_iff: "ends_with xs ps \<longleftrightarrow> (\<exists>zs. xs = zs @ ps)"
proof -
  have "starts_with (rev xs) (rev ps) \<longleftrightarrow> suffix ps xs"
    by (simp add: starts_with_iff_prefix suffix_to_prefix)
  then show ?thesis
    by (auto simp: ends_with_def suffix_def)
qed

lemma ends_with_append [simp]: "ends_with (zs @ ps) ps"
  by (auto simp: ends_with_iff)

lemma find_sub_Some_append:
  "find_sub xs ps = Some i \<Longrightarrow> \<exists>zs. xs = take i xs @ ps @ zs"
proof (induction xs arbitrary: i)
  case Nil
  then show ?case by (simp split: if_splits)
next
  case (Cons x xs)
  then show ?case
    by (auto split: if_splits simp: starts_with_iff)
qed

lemma find_sub_bound: "find_sub xs ps = Some i \<Longrightarrow> i + length ps \<le> length xs"
proof (induction xs arbitrary: i)
  case (Cons x xs)
  then show ?case
    by (cases "starts_with (x # xs) ps")
      (auto simp: starts_with_iff_prefix dest: prefix_length_le)
qed (simp split: if_splits)

lemma find_sub_first:
  "find_sub xs ps = Some i \<Longrightarrow> j < i \<Longrightarrow> \<not> starts_with (drop j xs) ps"
proof (induction xs arbitrary: i j)
  case (Cons x xs)
  then show ?case by (cases j) (auto split: if_splits)
qed (simp split: if_splits)

lemma find_sub_None:
  "find_sub xs ps = None \<Longrightarrow> \<not> (\<exists>us vs. xs = us @ ps @ vs)"
proof (induction xs)
  case Nil
  then show ?case by (simp split: if_splits)
next
  case (Cons x xs)
  from Cons.prems have no: "\<not> starts_with (x # xs) ps" and none: "find_sub xs ps = None"
    by (auto split: if_splits)
  show ?case
  proof
    assume "\<exists>us vs. x # xs = us @ ps @ vs"
    then obtain us vs where eq: "x # xs = us @ ps @ vs" by blast
    show False
    proof (cases us)
      case Nil
      with eq no show ?thesis by (metis append_Nil starts_with_append)
    next
      case (Cons u us')
      with eq have "xs = us' @ ps @ vs" by simp
      with Cons.IH [OF none] show ?thesis by blast
    qed
  qed
qed

lemma contains_sub_iff: "contains_sub xs ps \<longleftrightarrow> (\<exists>us vs. xs = us @ ps @ vs)"
  unfolding contains_sub_def
  by (metis find_sub_None find_sub_Some_append not_Some_eq)

text \<open>The first occurrence is found where no earlier one is possible.\<close>

lemma find_sub_append:
  assumes "\<And>j. j < length us \<Longrightarrow> \<not> starts_with (drop j (us @ ps @ vs)) ps"
  shows "find_sub (us @ ps @ vs) ps = Some (length us)"
  using assms
proof (induction us)
  case Nil
  have "starts_with (ps @ vs) ps" by simp
  then show ?case by (cases "ps @ vs") auto
next
  case (Cons u us)
  from Cons.prems [of 0] have "\<not> starts_with ((u # us) @ ps @ vs) ps" by simp
  moreover have "find_sub (us @ ps @ vs) ps = Some (length us)"
  proof (rule Cons.IH)
    fix j assume "j < length us"
    with Cons.prems [of "Suc j"] show "\<not> starts_with (drop j (us @ ps @ vs)) ps" by simp
  qed
  ultimately show ?case by simp
qed

lemma find_sub_singleton_append:
  "c \<notin> set us \<Longrightarrow> find_sub (us @ c # vs) [c] = Some (length us)"
proof (induction us)
  case Nil
  then show ?case by simp
next
  case (Cons u us)
  then show ?case by auto
qed

lemma starts_with_extend: "starts_with xs ps \<Longrightarrow> starts_with (xs @ ys) ps"
  by (metis append_assoc starts_with_iff)

lemma starts_with_shorten:
  "starts_with (xs @ ys) ps \<Longrightarrow> length ps \<le> length xs \<Longrightarrow> starts_with xs ps"
  unfolding starts_with_iff_prefix by (rule prefix_length_prefix [of _ "xs @ ys"]) auto

lemma find_sub_prefix: "find_sub xs ps = Some i \<Longrightarrow> find_sub (xs @ ys) ps = Some i"
proof (induction xs arbitrary: i)
  case Nil
  then show ?case by (cases ys) (auto split: if_splits)
next
  case (Cons x xs)
  show ?case
  proof (cases "starts_with (x # xs) ps")
    case True
    then have "starts_with (x # xs @ ys) ps" using starts_with_extend by fastforce
    with True Cons.prems show ?thesis by simp
  next
    case False
    with Cons.prems obtain j where j: "find_sub xs ps = Some j" "i = Suc j" by auto
    have "\<not> starts_with ((x # xs) @ ys) ps"
      using False starts_with_shorten [of "x # xs" ys ps] find_sub_bound [OF j(1)] by auto
    with j Cons.IH [OF j(1)] show ?thesis by simp
  qed
qed

section \<open>Bytes\<close>

lemma unat_byte_lt: "unat (b :: byte) < 256"
  by (rule order_less_le_trans [OF unsigned_less]) simp

lemma unat_byte_le: "unat (b :: byte) \<le> 255"
  using unat_byte_lt [of b] by linarith

text \<open>\<open>str::as_bytes\<close>, and the text that a byte string is.\<close>

definition str_bytes :: "string \<Rightarrow> byte list" where
  "str_bytes s = map (\<lambda>c. of_nat (of_char c)) s"

definition bytes_str :: "byte list \<Rightarrow> string" where
  "bytes_str bs = map (\<lambda>b. char_of (unat b)) bs"

end
