(* ===== verification/Evictable_Cache.thy ===== *)
theory Evictable_Cache
  imports Prelude
begin

text \<open>
  The evictable cache (\<open>src/utils/evictable_cache.rs\<close>): a map of entries with their
  creation and access times beside an index of the keys in order of use. \<open>get\<close> drops an
  expired entry, \<open>insert\<close> evicts from the old end of the index when the map is over its
  capacity, at most once in a millisecond.

  The index is the \<open>LruCache\<close> of the crate \<open>lru\<close>, which is not part of the program: its
  operations are the parameter \<open>ops\<close> of the definitions, and the locale \<open>lru_index\<close> states
  what its documentation promises. A lock of the cache is never poisoned, because a panic
  ends the process, so the \<open>Ok\<close> branch of every \<open>write()\<close> is the one modelled. Logging is
  left out here and everywhere else.
\<close>

section \<open>The index of use, a library of the program\<close>

record ('k, 'l) lru_ops =
  lru_unbounded :: 'l
  lru_put :: "'k \<Rightarrow> 'l \<Rightarrow> 'l"
  lru_pop :: "'k \<Rightarrow> 'l \<Rightarrow> 'l"
  lru_pop_lru :: "'l \<Rightarrow> ('k \<times> 'l) option"
  lru_clear :: "'l \<Rightarrow> 'l"

text \<open>\<open>order l\<close> lists the keys of \<open>l\<close>, the least recently used first.\<close>

locale lru_index =
  fixes ops :: "('k, 'l) lru_ops"
    and order :: "'l \<Rightarrow> 'k list"
  assumes order_unbounded: "order (lru_unbounded ops) = []"
    and order_put: "order (lru_put ops k l) = removeAll k (order l) @ [k]"
    and order_pop: "order (lru_pop ops k l) = removeAll k (order l)"
    and pop_lru_None: "lru_pop_lru ops l = None \<longleftrightarrow> order l = []"
    and pop_lru_Some: "lru_pop_lru ops l = Some (k, l') \<Longrightarrow> order l = k # order l'"
    and order_clear: "order (lru_clear ops l) = []"

text \<open>The list itself, used where a concrete index is needed.\<close>

definition list_lru_ops :: "('k, 'k list) lru_ops" where
  "list_lru_ops =
     \<lparr>lru_unbounded = [],
      lru_put = (\<lambda>k l. removeAll k l @ [k]),
      lru_pop = removeAll,
      lru_pop_lru = (\<lambda>l. case l of [] \<Rightarrow> None | k # l' \<Rightarrow> Some (k, l')),
      lru_clear = (\<lambda>l. [])\<rparr>"

interpretation list_lru: lru_index list_lru_ops "\<lambda>l. l"
  by unfold_locales (auto simp: list_lru_ops_def split: list.splits)

section \<open>State\<close>

record 'v entry =
  e_value :: 'v
  e_last_accessed :: nat
  e_created_at :: nat

record ('k, 'v, 'l) ecache =
  ec_inner :: "('k, 'v entry) assoc"
  ec_lru_index :: 'l
  ec_max_entries :: nat
  ec_name :: string
  ec_ttl :: "nat option"
  ec_last_evict_ns :: nat

definition ecache_new :: "('k, 'l) lru_ops \<Rightarrow> nat \<Rightarrow> string \<Rightarrow> ('k, 'v, 'l) ecache" where
  "ecache_new ops max_entries name =
     \<lparr>ec_inner = [], ec_lru_index = lru_unbounded ops, ec_max_entries = max_entries,
      ec_name = name, ec_ttl = None, ec_last_evict_ns = 0\<rparr>"

definition ecache_with_ttl ::
    "('k, 'l) lru_ops \<Rightarrow> nat \<Rightarrow> string \<Rightarrow> nat \<Rightarrow> ('k, 'v, 'l) ecache" where
  "ecache_with_ttl ops max_entries name ttl =
     \<lparr>ec_inner = [], ec_lru_index = lru_unbounded ops, ec_max_entries = max_entries,
      ec_name = name, ec_ttl = Some ttl, ec_last_evict_ns = 0\<rparr>"

section \<open>Operations\<close>

text \<open>
  \<open>expired\<close> is the lazy test of \<open>get\<close> and \<open>get_entry\<close>: \<open>now\<close> is the clock at the time of
  \<open>elapsed()\<close>, which saturates at 0.
\<close>

definition expired :: "nat option \<Rightarrow> nat \<Rightarrow> 'v entry \<Rightarrow> bool" where
  "expired ttl now e =
     (case ttl of None \<Rightarrow> False | Some t \<Rightarrow> t < now - e_created_at e)"

definition ecache_drop :: "('k, 'l) lru_ops \<Rightarrow> 'k \<Rightarrow> ('k, 'v, 'l) ecache \<Rightarrow> ('k, 'v, 'l) ecache" where
  "ecache_drop ops key c =
     c\<lparr>ec_inner := AList.delete key (ec_inner c),
       ec_lru_index := lru_pop ops key (ec_lru_index c)\<rparr>"

text \<open>
  \<open>now\<close> is the clock read at the start of the call and stored as the access time, \<open>now'\<close>
  the clock of the expiry test.
\<close>

definition ecache_get ::
    "('k, 'l) lru_ops \<Rightarrow> nat \<Rightarrow> nat \<Rightarrow> 'k \<Rightarrow> ('k, 'v, 'l) ecache \<Rightarrow> 'v option \<times> ('k, 'v, 'l) ecache" where
  "ecache_get ops now now' key c =
     (case map_of (ec_inner c) key of
        None \<Rightarrow> (None, c)
      | Some e \<Rightarrow>
          if expired (ec_ttl c) now' e then (None, ecache_drop ops key c)
          else (Some (e_value e),
                c\<lparr>ec_inner := AList.update key (e\<lparr>e_last_accessed := now\<rparr>) (ec_inner c),
                  ec_lru_index := lru_put ops key (ec_lru_index c)\<rparr>))"

definition ecache_get_entry ::
    "('k, 'l) lru_ops \<Rightarrow> nat \<Rightarrow> nat \<Rightarrow> 'k \<Rightarrow> ('k, 'v, 'l) ecache
      \<Rightarrow> 'v entry option \<times> ('k, 'v, 'l) ecache" where
  "ecache_get_entry ops now now' key c =
     (case map_of (ec_inner c) key of
        None \<Rightarrow> (None, c)
      | Some e \<Rightarrow>
          if expired (ec_ttl c) now' e then (None, ecache_drop ops key c)
          else (Some (e\<lparr>e_last_accessed := now\<rparr>),
                c\<lparr>ec_inner := AList.update key (e\<lparr>e_last_accessed := now\<rparr>) (ec_inner c),
                  ec_lru_index := lru_put ops key (ec_lru_index c)\<rparr>))"

definition ecache_peek :: "('k, 'v, 'l) ecache \<Rightarrow> 'k \<Rightarrow> 'v option" where
  "ecache_peek c key = map_option e_value (map_of (ec_inner c) key)"

text \<open>
  Nanoseconds since a base instant that the process fixes at its first call, cut to 64 bits;
  \<open>duration_since\<close> saturates at 0.
\<close>

definition instant_to_nanos :: "nat \<Rightarrow> nat \<Rightarrow> nat" where
  "instant_to_nanos base t = (t - base) mod u64_size"

fun evict_loop :: "('k, 'l) lru_ops \<Rightarrow> nat \<Rightarrow> ('k, 'v, 'l) ecache \<Rightarrow> ('k, 'v, 'l) ecache" where
  "evict_loop ops 0 c = c"
| "evict_loop ops (Suc n) c =
     (case lru_pop_lru ops (ec_lru_index c) of
        None \<Rightarrow> c
      | Some (old_key, l) \<Rightarrow>
          evict_loop ops n
            (c\<lparr>ec_lru_index := l, ec_inner := AList.delete old_key (ec_inner c)\<rparr>))"

definition evict_lru_if_needed ::
    "('k, 'l) lru_ops \<Rightarrow> nat \<Rightarrow> nat \<Rightarrow> ('k, 'v, 'l) ecache \<Rightarrow> ('k, 'v, 'l) ecache" where
  "evict_lru_if_needed ops base now c =
     (let excess = length (ec_inner c) - ec_max_entries c
      in if excess = 0 then c
         else
           let now_ns = instant_to_nanos base now; last = ec_last_evict_ns c
           in if now_ns - last < 1000000 then c
              else evict_loop ops excess (c\<lparr>ec_last_evict_ns := now_ns\<rparr>))"

definition ecache_insert ::
    "('k, 'l) lru_ops \<Rightarrow> nat \<Rightarrow> nat \<Rightarrow> nat \<Rightarrow> 'k \<Rightarrow> 'v \<Rightarrow> ('k, 'v, 'l) ecache \<Rightarrow> ('k, 'v, 'l) ecache" where
  "ecache_insert ops base now now' key v c =
     evict_lru_if_needed ops base now'
       (c\<lparr>ec_inner :=
            AList.update key \<lparr>e_value = v, e_last_accessed = now, e_created_at = now\<rparr> (ec_inner c),
          ec_lru_index := lru_put ops key (ec_lru_index c)\<rparr>)"

definition ecache_remove ::
    "('k, 'l) lru_ops \<Rightarrow> 'k \<Rightarrow> ('k, 'v, 'l) ecache \<Rightarrow> 'v option \<times> ('k, 'v, 'l) ecache" where
  "ecache_remove ops key c = (ecache_peek c key, ecache_drop ops key c)"

definition ecache_contains_key :: "('k, 'v, 'l) ecache \<Rightarrow> 'k \<Rightarrow> bool" where
  "ecache_contains_key c key = (map_of (ec_inner c) key \<noteq> None)"

definition ecache_len :: "('k, 'v, 'l) ecache \<Rightarrow> nat" where
  "ecache_len c = length (ec_inner c)"

definition ecache_is_empty :: "('k, 'v, 'l) ecache \<Rightarrow> bool" where
  "ecache_is_empty c = (ec_inner c = [])"

definition ecache_clear :: "('k, 'l) lru_ops \<Rightarrow> ('k, 'v, 'l) ecache \<Rightarrow> ('k, 'v, 'l) ecache" where
  "ecache_clear ops c = c\<lparr>ec_inner := [], ec_lru_index := lru_clear ops (ec_lru_index c)\<rparr>"

text \<open>
  \<open>evict\<close> collects the expired keys at one clock reading and removes them one by one, then
  runs the capacity eviction at a later one.
\<close>

definition ecache_evict ::
    "('k, 'l) lru_ops \<Rightarrow> nat \<Rightarrow> nat \<Rightarrow> nat \<Rightarrow> nat option \<Rightarrow> ('k, 'v, 'l) ecache \<Rightarrow> ('k, 'v, 'l) ecache" where
  "ecache_evict ops base now now' ttl c =
     (let c' = (case ttl of
                  None \<Rightarrow> c
                | Some t \<Rightarrow>
                    foldl (\<lambda>c key. ecache_drop ops key c) c
                      (map fst (filter (\<lambda>(k, e). t < now - e_created_at e) (ec_inner c))))
      in evict_lru_if_needed ops base now' c')"

definition ecache_dashmap :: "('k, 'v, 'l) ecache \<Rightarrow> ('k, 'v entry) assoc" where
  "ecache_dashmap c = ec_inner c"

section \<open>The invariant: index and map hold the same keys\<close>

definition keys_of :: "('k, 'v) assoc \<Rightarrow> 'k list" where
  "keys_of m = map fst m"

definition cache_inv :: "('l \<Rightarrow> 'k list) \<Rightarrow> ('k, 'v, 'l) ecache \<Rightarrow> bool" where
  "cache_inv order c \<longleftrightarrow>
     distinct (keys_of (ec_inner c)) \<and> distinct (order (ec_lru_index c)) \<and>
     set (order (ec_lru_index c)) = set (keys_of (ec_inner c))"

lemma keys_of_delete [assoc_simps]: "keys_of (AList.delete k m) = removeAll k (keys_of m)"
  by (simp add: keys_of_def AList.delete_keys)

lemma set_keys_of_update [assoc_simps]:
  "set (keys_of (AList.update k v m)) = insert k (set (keys_of m))"
  using AList.dom_update [of k v m] by (simp add: keys_of_def)

lemma distinct_keys_of_update [assoc_simps]:
  "distinct (keys_of m) \<Longrightarrow> distinct (keys_of (AList.update k v m))"
  by (simp add: keys_of_def AList.distinct_update)

lemma map_of_AList_update [assoc_simps]:
  "map_of (AList.update k v m) j = (if j = k then Some v else map_of m j)"
  by (simp add: AList.update_conv')

lemma map_of_AList_delete [assoc_simps]:
  "map_of (AList.delete k m) j = (if j = k then None else map_of m j)"
  by (simp add: AList.delete_conv')

lemma keys_of_Nil [assoc_simps]: "keys_of [] = []"
  by (simp add: keys_of_def)

lemma length_keys_of [simp]: "length (keys_of m) = length m"
  by (simp add: keys_of_def)

lemma map_of_None_iff [assoc_simps]: "map_of m k = None \<longleftrightarrow> k \<notin> set (keys_of m)"
  by (simp add: keys_of_def map_of_eq_None_iff)

lemma map_of_Some_key: "map_of m k = Some v \<Longrightarrow> k \<in> set (keys_of m)"
  by (metis map_of_None_iff option.distinct(1))

lemma cache_inv_length:
  assumes "cache_inv order c"
  shows "length (order (ec_lru_index c)) = length (ec_inner c)"
  using assms distinct_card [of "order (ec_lru_index c)"] distinct_card [of "keys_of (ec_inner c)"]
  by (simp add: cache_inv_def)

lemma AList_delete_filter: "AList.delete k m = filter (\<lambda>p. fst p \<noteq> k) m"
  by (induction m) auto

lemma keys_of_filter: "keys_of (filter (\<lambda>p. Q (fst p)) m) = filter Q (keys_of m)"
  by (simp add: keys_of_def filter_map o_def)

lemma cache_inv_last_evict [simp]:
  "cache_inv order (c\<lparr>ec_last_evict_ns := t\<rparr>) = cache_inv order c"
  by (simp add: cache_inv_def)

context lru_index
begin

lemmas index_laws = order_unbounded order_put order_pop order_clear

lemma inv_new: "cache_inv order (ecache_new ops n name)"
  by (simp add: cache_inv_def ecache_new_def index_laws assoc_simps)

lemma inv_with_ttl: "cache_inv order (ecache_with_ttl ops n name ttl)"
  by (simp add: cache_inv_def ecache_with_ttl_def index_laws assoc_simps)

lemma inv_drop: "cache_inv order c \<Longrightarrow> cache_inv order (ecache_drop ops key c)"
  by (auto simp: cache_inv_def ecache_drop_def index_laws assoc_simps distinct_removeAll)

lemma inv_touch:
  "cache_inv order c \<Longrightarrow>
   cache_inv order (c\<lparr>ec_inner := AList.update key e (ec_inner c),
                     ec_lru_index := lru_put ops key (ec_lru_index c)\<rparr>)"
  by (auto simp: cache_inv_def index_laws assoc_simps distinct_removeAll)

lemma inv_get: "cache_inv order c \<Longrightarrow> cache_inv order (snd (ecache_get ops now now' key c))"
  by (auto simp: ecache_get_def inv_drop inv_touch split: option.splits)

lemma inv_get_entry:
  "cache_inv order c \<Longrightarrow> cache_inv order (snd (ecache_get_entry ops now now' key c))"
  by (auto simp: ecache_get_entry_def inv_drop inv_touch split: option.splits)

text \<open>\<open>n\<close> rounds of eviction take the \<open>n\<close> oldest keys out of the index and of the map.\<close>

lemma evict_loop_effect:
  "order (ec_lru_index (evict_loop ops n c)) = drop n (order (ec_lru_index c)) \<and>
   ec_inner (evict_loop ops n c) =
     filter (\<lambda>p. fst p \<notin> set (take n (order (ec_lru_index c)))) (ec_inner c)"
proof (induction n arbitrary: c)
  case 0
  then show ?case by simp
next
  case (Suc n)
  show ?case
  proof (cases "lru_pop_lru ops (ec_lru_index c)")
    case None
    then have "order (ec_lru_index c) = []" using pop_lru_None by blast
    with None show ?thesis by simp
  next
    case (Some kl)
    obtain k l where kl: "kl = (k, l)" by fastforce
    with Some have "order (ec_lru_index c) = k # order l" by (simp add: pop_lru_Some)
    with Some kl Suc.IH show ?thesis
      by (auto simp: AList_delete_filter intro: filter_cong)
  qed
qed

lemma keys_of_evict_loop:
  "keys_of (ec_inner (evict_loop ops n c)) =
     filter (\<lambda>k. k \<notin> set (take n (order (ec_lru_index c)))) (keys_of (ec_inner c))"
  using keys_of_filter [of "\<lambda>k. k \<notin> set (take n (order (ec_lru_index c)))"]
  by (simp add: evict_loop_effect)

lemma inv_evict_loop:
  assumes "cache_inv order c"
  shows "cache_inv order (evict_loop ops n c)"
proof -
  let ?o = "order (ec_lru_index c)"
  have d: "distinct (take n ?o @ drop n ?o)" and s: "set ?o = set (keys_of (ec_inner c))"
    using assms by (auto simp: cache_inv_def)
  have "set (drop n ?o) = set ?o - set (take n ?o)"
    using d by (metis Diff_cancel Un_Diff Diff_triv Int_commute append_take_drop_id
        distinct_append set_append sup_bot_left)
  then show ?thesis
    using assms s
    by (auto simp: cache_inv_def evict_loop_effect [THEN conjunct1] keys_of_evict_loop)
qed

lemma inv_evict_lru_if_needed:
  "cache_inv order c \<Longrightarrow> cache_inv order (evict_lru_if_needed ops base now c)"
  by (simp add: evict_lru_if_needed_def Let_def inv_evict_loop)

lemma inv_insert:
  "cache_inv order c \<Longrightarrow> cache_inv order (ecache_insert ops base now now' key v c)"
  unfolding ecache_insert_def by (intro inv_evict_lru_if_needed inv_touch)

lemma inv_remove: "cache_inv order c \<Longrightarrow> cache_inv order (snd (ecache_remove ops key c))"
  by (simp add: ecache_remove_def inv_drop)

lemma inv_clear: "cache_inv order (ecache_clear ops c)"
  by (simp add: cache_inv_def ecache_clear_def index_laws assoc_simps)

lemma inv_fold_drop:
  "cache_inv order c \<Longrightarrow> cache_inv order (foldl (\<lambda>c key. ecache_drop ops key c) c ks)"
  by (induction ks arbitrary: c) (auto simp: inv_drop)

lemma inv_evict: "cache_inv order c \<Longrightarrow> cache_inv order (ecache_evict ops base now now' ttl c)"
  unfolding ecache_evict_def Let_def
  by (auto intro!: inv_evict_lru_if_needed inv_fold_drop split: option.splits)

lemmas cache_invs = inv_new inv_with_ttl inv_get inv_get_entry inv_insert inv_remove inv_clear inv_evict

end

section \<open>What a client of the cache may rely on\<close>

definition all_values :: "('k \<Rightarrow> 'v option) \<Rightarrow> ('k \<Rightarrow> 'v \<Rightarrow> bool) \<Rightarrow> bool" where
  "all_values m P \<longleftrightarrow> (\<forall>k v. m k = Some v \<longrightarrow> P k v)"

text \<open>
  A lookup after a \<open>get\<close>, an \<open>insert\<close>, a \<open>remove\<close> or a \<open>clear\<close> finds a value that was there
  before or, at the inserted key, the inserted one; \<open>get\<close> answers with the value that is
  there. So a property of all values that every insertion respects is kept for good.
\<close>

locale cache_contract =
  fixes inv :: "'c \<Rightarrow> bool"
    and lookup :: "'c \<Rightarrow> 'k \<Rightarrow> 'v option"
    and get :: "nat \<Rightarrow> nat \<Rightarrow> 'k \<Rightarrow> 'c \<Rightarrow> 'v option \<times> 'c"
    and ins :: "nat \<Rightarrow> nat \<Rightarrow> nat \<Rightarrow> 'k \<Rightarrow> 'v \<Rightarrow> 'c \<Rightarrow> 'c"
    and rem :: "'k \<Rightarrow> 'c \<Rightarrow> 'v option \<times> 'c"
    and clr :: "'c \<Rightarrow> 'c"
  assumes get_inv: "inv c \<Longrightarrow> inv (snd (get n n' k c))"
    and ins_inv: "inv c \<Longrightarrow> inv (ins b n n' k v c)"
    and rem_inv: "inv c \<Longrightarrow> inv (snd (rem k c))"
    and clr_inv: "inv c \<Longrightarrow> inv (clr c)"
    and get_value: "inv c \<Longrightarrow> fst (get n n' k c) = Some v \<Longrightarrow> lookup c k = Some v"
    and get_keeps: "inv c \<Longrightarrow> lookup (snd (get n n' k c)) j = Some w \<Longrightarrow> lookup c j = Some w"
    and ins_keeps: "inv c \<Longrightarrow> lookup (ins b n n' k v c) j = Some w \<Longrightarrow>
      (if j = k then w = v else lookup c j = Some w)"
    and rem_lookup: "inv c \<Longrightarrow> lookup (snd (rem k c)) j = (if j = k then None else lookup c j)"
    and clr_lookup: "lookup (clr c) j = None"
begin

lemma all_get: "inv c \<Longrightarrow> all_values (lookup c) P \<Longrightarrow> all_values (lookup (snd (get n n' k c))) P"
  using get_keeps unfolding all_values_def by blast

lemma all_get_value:
  "inv c \<Longrightarrow> all_values (lookup c) P \<Longrightarrow> fst (get n n' k c) = Some v \<Longrightarrow> P k v"
  using get_value unfolding all_values_def by blast

lemma all_ins:
  "inv c \<Longrightarrow> all_values (lookup c) P \<Longrightarrow> P k v \<Longrightarrow> all_values (lookup (ins b n n' k v c)) P"
  using ins_keeps unfolding all_values_def by (metis (full_types))

lemma all_rem: "inv c \<Longrightarrow> all_values (lookup c) P \<Longrightarrow> all_values (lookup (snd (rem k c))) P"
  unfolding all_values_def by (auto simp: rem_lookup split: if_splits)

lemma all_clr: "all_values (lookup (clr c)) P"
  by (simp add: all_values_def clr_lookup)

end

lemma ecache_peek_drop:
  "ecache_peek (ecache_drop ops key c) j = (if j = key then None else ecache_peek c j)"
  by (simp add: ecache_peek_def ecache_drop_def assoc_simps)

lemma ecache_get_value: "fst (ecache_get ops n n' k c) = Some v \<Longrightarrow> ecache_peek c k = Some v"
  by (auto simp: ecache_get_def ecache_peek_def split: option.splits if_splits)

lemma ecache_get_keeps:
  "ecache_peek (snd (ecache_get ops n n' k c)) j = Some w \<Longrightarrow> ecache_peek c j = Some w"
  by (auto simp: ecache_get_def ecache_peek_drop split: option.splits if_splits)
    (auto simp: ecache_peek_def assoc_simps split: if_splits)

lemma ecache_peek_clear [simp]: "ecache_peek (ecache_clear ops c) j = None"
  by (simp add: ecache_peek_def ecache_clear_def)

lemma map_of_filter_fst: "map_of (filter (\<lambda>p. Q (fst p)) m) j = (if Q j then map_of m j else None)"
  by (induction m) auto

context lru_index
begin

lemma map_of_evict_loop:
  "map_of (ec_inner (evict_loop ops n c)) j =
     (if j \<in> set (take n (order (ec_lru_index c))) then None else map_of (ec_inner c) j)"
  using map_of_filter_fst [of "\<lambda>k. k \<notin> set (take n (order (ec_lru_index c)))" "ec_inner c" j]
  by (simp add: evict_loop_effect)

lemma peek_evict:
  "ecache_peek (evict_lru_if_needed ops base now c) j = Some w \<Longrightarrow> ecache_peek c j = Some w"
  by (auto simp: evict_lru_if_needed_def ecache_peek_def Let_def map_of_evict_loop split: if_splits)

lemma peek_insert:
  "ecache_peek (ecache_insert ops base now now' k v c) j = Some w \<Longrightarrow>
   (if j = k then w = v else ecache_peek c j = Some w)"
  unfolding ecache_insert_def
  by (drule peek_evict) (simp add: ecache_peek_def assoc_simps split: if_splits)

lemma cache_is_contract:
  "cache_contract (cache_inv order) ecache_peek (ecache_get ops) (ecache_insert ops)
     (ecache_remove ops) (ecache_clear ops)"
proof unfold_locales
  fix c :: "('k, 'v, 'l) ecache" and b n n' k v j w
  assume "ecache_peek (ecache_insert ops b n n' k v c) j = Some w"
  then show "if j = k then w = v else ecache_peek c j = Some w" by (rule peek_insert)
qed (auto simp: inv_get inv_insert inv_clear inv_drop ecache_get_value ecache_remove_def
       ecache_peek_drop ecache_peek_clear
     dest: ecache_get_keeps)

end

sublocale lru_index \<subseteq> ec: cache_contract "cache_inv order" ecache_peek "ecache_get ops"
  "ecache_insert ops" "ecache_remove ops" "ecache_clear ops"
  by (rule cache_is_contract)

interpretation list_cache: cache_contract "cache_inv (\<lambda>l. l)" ecache_peek
  "ecache_get list_lru_ops" "ecache_insert list_lru_ops" "ecache_remove list_lru_ops"
  "ecache_clear list_lru_ops"
  by (rule list_lru.cache_is_contract)

section \<open>The two restricted caches\<close>

text \<open>\<open>SimpleEvictableCache\<close> (no expiry) and \<open>TtlEvictableCache\<close> wrap the cache.\<close>

record ('k, 'v, 'l) simple_cache =
  sc_inner :: "('k, 'v, 'l) ecache"

definition simple_new :: "('k, 'l) lru_ops \<Rightarrow> nat \<Rightarrow> string \<Rightarrow> ('k, 'v, 'l) simple_cache" where
  "simple_new ops max_entries name = \<lparr>sc_inner = ecache_new ops max_entries name\<rparr>"

definition simple_get ::
    "('k, 'l) lru_ops \<Rightarrow> nat \<Rightarrow> nat \<Rightarrow> 'k \<Rightarrow> ('k, 'v, 'l) simple_cache
      \<Rightarrow> 'v option \<times> ('k, 'v, 'l) simple_cache" where
  "simple_get ops now now' key s =
     (let (r, c) = ecache_get ops now now' key (sc_inner s) in (r, s\<lparr>sc_inner := c\<rparr>))"

definition simple_insert ::
    "('k, 'l) lru_ops \<Rightarrow> nat \<Rightarrow> nat \<Rightarrow> nat \<Rightarrow> 'k \<Rightarrow> 'v \<Rightarrow> ('k, 'v, 'l) simple_cache
      \<Rightarrow> ('k, 'v, 'l) simple_cache" where
  "simple_insert ops base now now' key v s =
     s\<lparr>sc_inner := ecache_insert ops base now now' key v (sc_inner s)\<rparr>"

definition simple_remove ::
    "('k, 'l) lru_ops \<Rightarrow> 'k \<Rightarrow> ('k, 'v, 'l) simple_cache \<Rightarrow> 'v option \<times> ('k, 'v, 'l) simple_cache" where
  "simple_remove ops key s =
     (let (r, c) = ecache_remove ops key (sc_inner s) in (r, s\<lparr>sc_inner := c\<rparr>))"

definition simple_len :: "('k, 'v, 'l) simple_cache \<Rightarrow> nat" where
  "simple_len s = ecache_len (sc_inner s)"

definition simple_is_empty :: "('k, 'v, 'l) simple_cache \<Rightarrow> bool" where
  "simple_is_empty s = ecache_is_empty (sc_inner s)"

definition simple_clear :: "('k, 'l) lru_ops \<Rightarrow> ('k, 'v, 'l) simple_cache \<Rightarrow> ('k, 'v, 'l) simple_cache" where
  "simple_clear ops s = s\<lparr>sc_inner := ecache_clear ops (sc_inner s)\<rparr>"

definition simple_dashmap :: "('k, 'v, 'l) simple_cache \<Rightarrow> ('k, 'v entry) assoc" where
  "simple_dashmap s = ecache_dashmap (sc_inner s)"

record ('k, 'v, 'l) ttl_cache =
  tc_inner :: "('k, 'v, 'l) ecache"

definition ttl_new :: "('k, 'l) lru_ops \<Rightarrow> nat \<Rightarrow> string \<Rightarrow> nat \<Rightarrow> ('k, 'v, 'l) ttl_cache" where
  "ttl_new ops max_entries name ttl = \<lparr>tc_inner = ecache_with_ttl ops max_entries name ttl\<rparr>"

definition ttl_get ::
    "('k, 'l) lru_ops \<Rightarrow> nat \<Rightarrow> nat \<Rightarrow> 'k \<Rightarrow> ('k, 'v, 'l) ttl_cache
      \<Rightarrow> 'v option \<times> ('k, 'v, 'l) ttl_cache" where
  "ttl_get ops now now' key s =
     (let (r, c) = ecache_get ops now now' key (tc_inner s) in (r, s\<lparr>tc_inner := c\<rparr>))"

definition ttl_insert ::
    "('k, 'l) lru_ops \<Rightarrow> nat \<Rightarrow> nat \<Rightarrow> nat \<Rightarrow> 'k \<Rightarrow> 'v \<Rightarrow> ('k, 'v, 'l) ttl_cache
      \<Rightarrow> ('k, 'v, 'l) ttl_cache" where
  "ttl_insert ops base now now' key v s =
     s\<lparr>tc_inner := ecache_insert ops base now now' key v (tc_inner s)\<rparr>"

definition ttl_remove ::
    "('k, 'l) lru_ops \<Rightarrow> 'k \<Rightarrow> ('k, 'v, 'l) ttl_cache \<Rightarrow> 'v option \<times> ('k, 'v, 'l) ttl_cache" where
  "ttl_remove ops key s =
     (let (r, c) = ecache_remove ops key (tc_inner s) in (r, s\<lparr>tc_inner := c\<rparr>))"

definition ttl_len :: "('k, 'v, 'l) ttl_cache \<Rightarrow> nat" where
  "ttl_len s = ecache_len (tc_inner s)"

definition ttl_is_empty :: "('k, 'v, 'l) ttl_cache \<Rightarrow> bool" where
  "ttl_is_empty s = ecache_is_empty (tc_inner s)"

definition ttl_clear :: "('k, 'l) lru_ops \<Rightarrow> ('k, 'v, 'l) ttl_cache \<Rightarrow> ('k, 'v, 'l) ttl_cache" where
  "ttl_clear ops s = s\<lparr>tc_inner := ecache_clear ops (tc_inner s)\<rparr>"

definition ttl_dashmap :: "('k, 'v, 'l) ttl_cache \<Rightarrow> ('k, 'v entry) assoc" where
  "ttl_dashmap s = ecache_dashmap (tc_inner s)"

section \<open>Runs of the cache\<close>

datatype ('k, 'v) cache_op =
    CGet nat nat 'k
  | CGetEntry nat nat 'k
  | CInsert nat nat 'k 'v
  | CRemove 'k
  | CClear
  | CEvict nat nat "nat option"

fun cache_step ::
    "('k, 'l) lru_ops \<Rightarrow> nat \<Rightarrow> ('k, 'v) cache_op \<Rightarrow> ('k, 'v, 'l) ecache \<Rightarrow> ('k, 'v, 'l) ecache" where
  "cache_step ops base (CGet n n' k) c = snd (ecache_get ops n n' k c)"
| "cache_step ops base (CGetEntry n n' k) c = snd (ecache_get_entry ops n n' k c)"
| "cache_step ops base (CInsert n n' k v) c = ecache_insert ops base n n' k v c"
| "cache_step ops base (CRemove k) c = snd (ecache_remove ops k c)"
| "cache_step ops base CClear c = ecache_clear ops c"
| "cache_step ops base (CEvict n n' ttl) c = ecache_evict ops base n n' ttl c"

fun cache_run ::
    "('k, 'l) lru_ops \<Rightarrow> nat \<Rightarrow> ('k, 'v) cache_op list \<Rightarrow> ('k, 'v, 'l) ecache \<Rightarrow> ('k, 'v, 'l) ecache" where
  "cache_run ops base [] c = c"
| "cache_run ops base (a # as) c = cache_run ops base as (cache_step ops base a c)"

context lru_index
begin

lemma inv_step: "cache_inv order c \<Longrightarrow> cache_inv order (cache_step ops base a c)"
  by (cases a) (simp_all add: cache_invs)

lemma inv_run: "cache_inv order c \<Longrightarrow> cache_inv order (cache_run ops base as c)"
  by (induction as arbitrary: c) (simp_all add: inv_step)

text \<open>The index and the map after an insertion that is not held back by the throttle.\<close>

lemma insert_unthrottled:
  fixes c :: "('k, 'v, 'l) ecache" and key :: 'k and v :: 'v and now :: nat
  assumes inv: "cache_inv order c"
    and free: "1000000 \<le> instant_to_nanos base now' - ec_last_evict_ns c"
  defines "o' \<equiv> removeAll key (order (ec_lru_index c)) @ [key]"
    and "c' \<equiv> c\<lparr>ec_inner :=
            AList.update key \<lparr>e_value = v, e_last_accessed = now, e_created_at = now\<rparr> (ec_inner c),
          ec_lru_index := lru_put ops key (ec_lru_index c)\<rparr>"
  shows "order (ec_lru_index (ecache_insert ops base now now' key v c)) =
           drop (length o' - ec_max_entries c) o'"
    and "map_of (ec_inner (ecache_insert ops base now now' key v c)) j =
           (if j \<in> set (take (length o' - ec_max_entries c) o') then None
            else map_of (ec_inner c') j)"
proof -
  have o': "order (ec_lru_index c') = o'"
    by (simp add: c'_def o'_def order_put)
  have "cache_inv order c'"
    unfolding c'_def by (rule inv_touch [OF inv])
  then have len: "length (ec_inner c') = length o'"
    by (simp add: cache_inv_length [symmetric] o')
  have ins: "ecache_insert ops base now now' key v c = evict_lru_if_needed ops base now' c'"
    by (simp add: ecache_insert_def c'_def)
  have m: "ec_max_entries c' = ec_max_entries c" "ec_last_evict_ns c' = ec_last_evict_ns c"
    by (simp_all add: c'_def)
  show "order (ec_lru_index (ecache_insert ops base now now' key v c)) =
      drop (length o' - ec_max_entries c) o'"
    using free unfolding ins evict_lru_if_needed_def Let_def len m
    by (simp add: evict_loop_effect [THEN conjunct1] o')
  show "map_of (ec_inner (ecache_insert ops base now now' key v c)) j =
      (if j \<in> set (take (length o' - ec_max_entries c) o') then None else map_of (ec_inner c') j)"
    using free unfolding ins evict_lru_if_needed_def Let_def len m
    by (simp add: map_of_evict_loop o')
qed

end

section \<open>Properties\<close>

text \<open>
  After any sequence of operations on a new cache the index of use and the map
  hold exactly the same keys, each once: no entry is out of reach of the eviction, and the
  eviction never pops a key that is not there.
\<close>

theorem cache_run_in_sync:
  assumes "lru_index ops order"
  shows "cache_inv order (cache_run ops base as (ecache_with_ttl ops max_entries name ttl))"
  by (intro lru_index.inv_run lru_index.inv_with_ttl assms)

theorem cache_run_in_sync_witness:
  "cache_inv (\<lambda>l. l)
     (cache_run list_lru_ops 0 [CInsert 5 6 ''a'' (1::nat), CInsert 7 2000000 ''b'' 2, CGet 8 9 ''a'']
        (ecache_with_ttl list_lru_ops 1 ''dns_cache'' 100))"
  by (rule cache_run_in_sync) (rule list_lru.lru_index_axioms)

text \<open>
  Property C14. An insertion that is not held back by the throttle (a millisecond or more
  since the last eviction) leaves the most recently used keys and nothing else: the index
  becomes the last \<open>max_entries\<close> keys of the order of use with the new key as the most
  recent, and exactly those keys stay in the map.
\<close>

theorem insert_keeps_most_recent:
  assumes "lru_index ops order" and "cache_inv order c"
    and "1000000 \<le> instant_to_nanos base now' - ec_last_evict_ns c"
  shows "order (ec_lru_index (ecache_insert ops base now now' key v c)) =
           (let o' = removeAll key (order (ec_lru_index c)) @ [key]
            in drop (length o' - ec_max_entries c) o') \<and>
         set (keys_of (ec_inner (ecache_insert ops base now now' key v c))) =
           set (order (ec_lru_index (ecache_insert ops base now now' key v c))) \<and>
         ecache_len (ecache_insert ops base now now' key v c) \<le> ec_max_entries c"
proof -
  let ?c' = "ecache_insert ops base now now' key v c"
  have inv': "cache_inv order ?c'"
    by (rule lru_index.inv_insert [OF assms(1,2)])
  have o': "order (ec_lru_index ?c') =
      (let o' = removeAll key (order (ec_lru_index c)) @ [key]
       in drop (length o' - ec_max_entries c) o')"
    unfolding Let_def by (rule lru_index.insert_unthrottled(1) [OF assms])
  moreover have "ecache_len ?c' = length (order (ec_lru_index ?c'))"
    using cache_inv_length [OF inv'] by (simp add: ecache_len_def)
  ultimately show ?thesis
    using inv' by (simp add: cache_inv_def Let_def)
qed

theorem insert_keeps_most_recent_witness:
  "ecache_len (ecache_insert list_lru_ops 0 7 2000000 ''b'' (2::nat)
     (ecache_insert list_lru_ops 0 5 6 ''a'' 1 (ecache_with_ttl list_lru_ops 1 ''dns_cache'' 100))) \<le> 1"
proof -
  have inv: "cache_inv (\<lambda>l. l)
      (ecache_insert list_lru_ops 0 5 6 ''a'' (1::nat) (ecache_with_ttl list_lru_ops 1 ''dns_cache'' 100))"
    by (intro list_lru.inv_insert list_lru.inv_with_ttl)
  have last: "ec_last_evict_ns
      (ecache_insert list_lru_ops 0 5 6 ''a'' (1::nat) (ecache_with_ttl list_lru_ops 1 ''dns_cache'' 100)) = 0"
    by (simp add: ecache_insert_def ecache_with_ttl_def evict_lru_if_needed_def)
  have max: "ec_max_entries
      (ecache_insert list_lru_ops 0 5 6 ''a'' (1::nat) (ecache_with_ttl list_lru_ops 1 ''dns_cache'' 100)) = 1"
    by (simp add: ecache_insert_def ecache_with_ttl_def evict_lru_if_needed_def)
  have "1000000 \<le> instant_to_nanos 0 2000000 - ec_last_evict_ns
      (ecache_insert list_lru_ops 0 5 6 ''a'' (1::nat) (ecache_with_ttl list_lru_ops 1 ''dns_cache'' 100))"
    unfolding last by (simp add: instant_to_nanos_def)
  from insert_keeps_most_recent [OF list_lru.lru_index_axioms inv this, of 7 "''b''" 2]
  show ?thesis unfolding max by blast
qed

text \<open>
  \<open>get\<close> answers exactly with the stored value of an entry that has not
  outlived the time to live; an entry that has is removed by the call.
\<close>

theorem get_iff_fresh:
  "(fst (ecache_get ops now now' key c) = Some v \<longleftrightarrow>
      (\<exists>e. map_of (ec_inner c) key = Some e \<and> e_value e = v \<and>
           (ec_ttl c = None \<or> now' - e_created_at e \<le> the (ec_ttl c)))) \<and>
   (fst (ecache_get ops now now' key c) = None \<longleftrightarrow>
      ecache_peek (snd (ecache_get ops now now' key c)) key = None)"
proof (cases "map_of (ec_inner c) key")
  case None
  then show ?thesis by (simp add: ecache_get_def ecache_peek_def)
next
  case (Some e)
  then show ?thesis
    by (cases "ec_ttl c")
      (auto simp: ecache_get_def expired_def ecache_peek_drop,
       auto simp: ecache_peek_def assoc_simps)
qed

lemma insert_then_get:
  assumes "lru_index ops order" and "cache_inv order c" and "1 \<le> ec_max_entries c"
    and "ec_ttl c = None \<or> later' - now \<le> the (ec_ttl c)"
  shows "fst (ecache_get ops later later' key (ecache_insert ops base now now' key v c)) = Some v"
proof -
  let ?e = "\<lparr>e_value = v, e_last_accessed = now, e_created_at = now\<rparr>"
  let ?c' = "ecache_insert ops base now now' key v c"
  let ?o' = "removeAll key (order (ec_lru_index c)) @ [key]"
  have m: "map_of (ec_inner ?c') key = Some ?e"
  proof (cases "1000000 \<le> instant_to_nanos base now' - ec_last_evict_ns c")
    case True
    have "key \<notin> set (take (length ?o' - ec_max_entries c) ?o')"
      using assms(3) set_take_subset [of _ "removeAll key (order (ec_lru_index c))"] by auto
    then show ?thesis
      unfolding lru_index.insert_unthrottled(2) [OF assms(1,2) True]
      by (simp add: assoc_simps)
  next
    case False
    then show ?thesis
      by (simp add: ecache_insert_def evict_lru_if_needed_def Let_def assoc_simps)
  qed
  have t: "ec_ttl (evict_loop ops n c) = ec_ttl c" for n and c :: "('a, 'c, 'b) ecache"
    by (induction n arbitrary: c) (auto split: option.splits)
  have "ec_ttl ?c' = ec_ttl c"
    by (simp add: ecache_insert_def evict_lru_if_needed_def Let_def t)
  then show ?thesis
    using m assms(4) by (cases "ec_ttl c") (auto simp: ecache_get_def expired_def)
qed

text \<open>
  With room for at least one entry, a \<open>get\<close> after an \<open>insert\<close> that comes
  before the time to live is over answers with the inserted value, whatever the insertion
  evicted.
\<close>

theorem get_after_insert:
  assumes "lru_index ops order" and "cache_inv order c" and "1 \<le> ec_max_entries c"
    and "ec_ttl c = None \<or> later' - now \<le> the (ec_ttl c)"
  shows "fst (ecache_get ops later later' key (ecache_insert ops base now now' key v c)) = Some v"
  using assms by (rule insert_then_get)

theorem get_after_insert_witness:
  "fst (ecache_get list_lru_ops 50 60 ''a''
     (ecache_insert list_lru_ops 0 5 6 ''a'' (1::nat) (ecache_with_ttl list_lru_ops 1 ''dns_cache'' 100))) = Some 1"
  by (rule get_after_insert [OF list_lru.lru_index_axioms list_lru.inv_with_ttl])
    (simp_all add: ecache_with_ttl_def)

definition burst :: "('k, 'l) lru_ops \<Rightarrow> nat \<Rightarrow> (nat \<times> nat \<times> 'k \<times> 'v) list
    \<Rightarrow> ('k, 'v, 'l) ecache \<Rightarrow> ('k, 'v, 'l) ecache" where
  "burst ops base xs c = foldl (\<lambda>c (n, n', k, v). ecache_insert ops base n n' k v c) c xs"

lemma throttled_insert:
  assumes "instant_to_nanos base n' < 1000000" and "ec_last_evict_ns c = 0"
  shows "keys_of (ec_inner (ecache_insert ops base n n' k v c)) =
           (if k \<in> set (keys_of (ec_inner c)) then keys_of (ec_inner c)
            else keys_of (ec_inner c) @ [k]) \<and>
         ec_last_evict_ns (ecache_insert ops base n n' k v c) = 0"
  using assms
  by (simp add: ecache_insert_def evict_lru_if_needed_def Let_def keys_of_def AList.update_keys)

lemma throttled_burst:
  assumes "\<forall>(n, n', k, v) \<in> set xs. instant_to_nanos base n' < 1000000"
    and "ec_last_evict_ns c = 0"
    and "distinct (keys_of (ec_inner c) @ map (\<lambda>(n, n', k, v). k) xs)"
  shows "keys_of (ec_inner (burst ops base xs c)) =
    keys_of (ec_inner c) @ map (\<lambda>(n, n', k, v). k) xs"
  using assms
proof (induction xs arbitrary: c)
  case Nil
  then show ?case by (simp add: burst_def)
next
  case (Cons x xs)
  obtain n n' k v where x: "x = (n, n', k, v)" by (cases x) auto
  let ?c = "ecache_insert ops base n n' k v c"
  have step: "keys_of (ec_inner ?c) = keys_of (ec_inner c) @ [k]" "ec_last_evict_ns ?c = 0"
    using Cons.prems x throttled_insert [of base n' c ops n k v] by auto
  have "keys_of (ec_inner (burst ops base xs ?c)) =
      keys_of (ec_inner ?c) @ map (\<lambda>(n, n', k, v). k) xs"
    using Cons.prems x step by (intro Cons.IH) auto
  then show ?case by (simp add: burst_def x step)
qed

text \<open>
  The capacity is not a bound while the throttle holds: whatever \<open>max_entries\<close>
  is, a burst of insertions of different keys in the first millisecond of the process is
  kept whole.
\<close>

theorem burst_exceeds_capacity:
  assumes "\<forall>(n, n', k, v) \<in> set xs. instant_to_nanos base n' < 1000000"
    and "distinct (map (\<lambda>(n, n', k, v). k) xs)"
  shows "ecache_len (burst ops base xs (ecache_with_ttl ops max_entries name ttl)) = length xs"
proof -
  have "keys_of (ec_inner (burst ops base xs (ecache_with_ttl ops max_entries name ttl))) =
      map (\<lambda>(n, n', k, v). k) xs"
    using assms by (subst throttled_burst) (auto simp: ecache_with_ttl_def keys_of_def)
  from arg_cong [OF this, of length] show ?thesis by (simp add: ecache_len_def)
qed

theorem burst_exceeds_capacity_witness:
  "ecache_len (burst list_lru_ops 0 [(1, 2, ''a'', True), (3, 4, ''b'', True), (5, 6, ''c'', False)]
     (ecache_with_ttl list_lru_ops 1 ''dns_cache'' 100)) = 3"
  using burst_exceeds_capacity [of "[(1, 2, ''a'', True), (3, 4, ''b'', True), (5, 6, ''c'', False)]" 0
      list_lru_ops 1 "''dns_cache''" 100]
  by (simp add: instant_to_nanos_def)

end
