(* ===== verification/Ip_Filter.thy ===== *)
theory Ip_Filter
  imports Prelude
begin

text \<open>
  IP addresses and the filter of resolved addresses (\<open>src/dns/mod.rs\<close>): which addresses are
  never usable, which are private, and the three filter levels with the fallback to the
  unfiltered list. The address classes of the standard library (\<open>Ipv4Addr::is_loopback\<close> and
  so on) are written out as its documentation defines them.
\<close>

section \<open>Addresses\<close>

text \<open>The four octets of an IPv4 address, the eight segments of an IPv6 address.\<close>

datatype ip_addr =
    V4 "8 word" "8 word" "8 word" "8 word"
  | V6 "16 word" "16 word" "16 word" "16 word" "16 word" "16 word" "16 word" "16 word"

fun is_ipv4 :: "ip_addr \<Rightarrow> bool" where
  "is_ipv4 (V4 a b c d) = True"
| "is_ipv4 (V6 a b c d e f g h) = False"

definition is_ipv6 :: "ip_addr \<Rightarrow> bool" where
  "is_ipv6 ip = (\<not> is_ipv4 ip)"

definition is_reserved_ipv4 :: "8 word \<Rightarrow> bool" where
  "is_reserved_ipv4 a = (240 \<le> a \<and> a < 255)"

definition v4_is_documentation :: "8 word \<Rightarrow> 8 word \<Rightarrow> 8 word \<Rightarrow> bool" where
  "v4_is_documentation a b c =
     ((a = 192 \<and> b = 0 \<and> c = 2) \<or> (a = 198 \<and> b = 51 \<and> c = 100) \<or> (a = 203 \<and> b = 0 \<and> c = 113))"

fun is_invalid_ip :: "ip_addr \<Rightarrow> bool" where
  "is_invalid_ip (V4 a b c d) =
     ((a = 0 \<and> b = 0 \<and> c = 0 \<and> d = 0)
      \<or> a = 127
      \<or> (a = 169 \<and> b = 254)
      \<or> (a = 255 \<and> b = 255 \<and> c = 255 \<and> d = 255)
      \<or> v4_is_documentation a b c
      \<or> (224 \<le> a \<and> a \<le> 239)
      \<or> is_reserved_ipv4 a)"
| "is_invalid_ip (V6 a b c d e f g h) =
     ((a = 0 \<and> b = 0 \<and> c = 0 \<and> d = 0 \<and> e = 0 \<and> f = 0 \<and> g = 0 \<and> h = 0)
      \<or> (a = 0 \<and> b = 0 \<and> c = 0 \<and> d = 0 \<and> e = 0 \<and> f = 0 \<and> g = 0 \<and> h = 1)
      \<or> 0xff00 \<le> a
      \<or> (0xfe80 \<le> a \<and> a \<le> 0xfebf))"

fun is_private_ip :: "ip_addr \<Rightarrow> bool" where
  "is_private_ip (V4 a b c d) =
     (a = 10 \<or> (a = 172 \<and> 16 \<le> b \<and> b \<le> 31) \<or> (a = 192 \<and> b = 168))"
| "is_private_ip (V6 a b c d e f g h) = (0xfc00 \<le> a \<and> a \<le> 0xfdff)"

definition is_suspicious :: "ip_addr \<Rightarrow> bool" where
  "is_suspicious ip = (is_invalid_ip ip \<or> is_private_ip ip)"

section \<open>The filter\<close>

datatype ip_filter_level = LNone | Strict | PublicOnly

definition keeps_ip :: "ip_filter_level \<Rightarrow> ip_addr \<Rightarrow> bool" where
  "keeps_ip level ip =
     (if is_invalid_ip ip then False
      else if level = PublicOnly \<and> is_private_ip ip then False
      else True)"

definition filter_ips :: "ip_addr list \<Rightarrow> ip_filter_level \<Rightarrow> ip_addr list" where
  "filter_ips ips level =
     (if level = LNone then ips
      else
        let filtered = filter (keeps_ip level) ips
        in if filtered = [] \<and> ips \<noteq> [] then ips else filtered)"

definition filter_suspicious :: "ip_addr list \<Rightarrow> ip_addr list" where
  "filter_suspicious ips = filter_ips ips PublicOnly"

lemma filter_ips_eq_Nil [simp]: "filter_ips ips level = [] \<longleftrightarrow> ips = []"
  by (auto simp: filter_ips_def Let_def)

lemma set_filter_ips: "set (filter_ips ips level) \<subseteq> set ips"
  by (auto simp: filter_ips_def Let_def)

lemma distinct_filter_ips: "distinct ips \<Longrightarrow> distinct (filter_ips ips level)"
  by (simp add: filter_ips_def Let_def)

section \<open>Properties\<close>

text \<open>
  The public filter never mixes: its answer either holds usable public
  addresses only, all of those of the input in their order, or the input has none and comes
  back whole. So the answer is empty only for an empty input.
\<close>

theorem filter_ips_public:
  "(filter_ips ips PublicOnly = filter (\<lambda>ip. \<not> is_suspicious ip) ips \<and>
      (\<forall>ip \<in> set (filter_ips ips PublicOnly). \<not> is_invalid_ip ip \<and> \<not> is_private_ip ip)) \<or>
   (filter_ips ips PublicOnly = ips \<and> (\<forall>ip \<in> set ips. is_suspicious ip))"
proof -
  have keep: "keeps_ip PublicOnly = (\<lambda>ip. \<not> is_suspicious ip)"
    by (auto simp: fun_eq_iff keeps_ip_def is_suspicious_def)
  show ?thesis
  proof (cases "filter (\<lambda>ip. \<not> is_suspicious ip) ips = []")
    case True
    then show ?thesis
      by (auto simp: filter_ips_def keep filter_empty_conv)
  next
    case False
    then show ?thesis
      by (auto simp: filter_ips_def keep is_suspicious_def)
  qed
qed

theorem filter_ips_public_witness:
  "filter_ips [V4 10 0 0 1, V4 140 82 112 3] PublicOnly = [V4 140 82 112 3]"
  using filter_ips_public [of "[V4 10 0 0 1, V4 140 82 112 3]"]
  by (auto simp: is_suspicious_def v4_is_documentation_def is_reserved_ipv4_def)

text \<open>
  The address ranges of the filter as CIDR blocks: a base address, as a 32-bit number, and a
  prefix length.
\<close>

definition v4_nat :: "8 word \<Rightarrow> 8 word \<Rightarrow> 8 word \<Rightarrow> 8 word \<Rightarrow> nat" where
  "v4_nat a b c d = ((unat a * 256 + unat b) * 256 + unat c) * 256 + unat d"

definition in_block :: "nat \<Rightarrow> nat \<times> nat \<Rightarrow> bool" where
  "in_block n blk = (n div 2 ^ (32 - snd blk) = fst blk div 2 ^ (32 - snd blk))"

text \<open>0.0.0.0/32, 127/8, 169.254/16, the broadcast address, 192.0.2/24, 198.51.100/24,
  203.0.113/24, 224/4, and 240/5, 248/6, 252/7, 254/8: class E without 255/8.\<close>

definition invalid_blocks :: "(nat \<times> nat) list" where
  "invalid_blocks =
     [(0, 32), (v4_nat 127 0 0 0, 8), (v4_nat 169 254 0 0, 16), (v4_nat 255 255 255 255, 32),
      (v4_nat 192 0 2 0, 24), (v4_nat 198 51 100 0, 24), (v4_nat 203 0 113 0, 24),
      (v4_nat 224 0 0 0, 4), (v4_nat 240 0 0 0, 5), (v4_nat 248 0 0 0, 6),
      (v4_nat 252 0 0 0, 7), (v4_nat 254 0 0 0, 8)]"

definition private_blocks :: "(nat \<times> nat) list" where
  "private_blocks = [(v4_nat 10 0 0 0, 8), (v4_nat 172 16 0 0, 12), (v4_nat 192 168 0 0, 16)]"

lemma radix256:
  fixes x y z t :: nat
  assumes "t < 256" "z < 256" "y < 256"
  shows "(((x * 256 + y) * 256 + z) * 256 + t) div 16777216 = x"
    and "(((x * 256 + y) * 256 + z) * 256 + t) div 65536 = x * 256 + y"
    and "(((x * 256 + y) * 256 + z) * 256 + t) div 256 = (x * 256 + y) * 256 + z"
  using assms by (intro div_nat_eqI; simp; linarith)+

lemma pair256:
  fixes x y p q :: nat
  assumes "y < 256" "q < 256"
  shows "x * 256 + y = p * 256 + q \<longleftrightarrow> x = p \<and> y = q"
proof
  assume e: "x * 256 + y = p * 256 + q"
  then have "x = p" using assms by linarith
  with e show "x = p \<and> y = q" by simp
qed simp

lemma div_range:
  fixes x m q :: nat
  assumes "0 < m"
  shows "x div m = q \<longleftrightarrow> m * q \<le> x \<and> x < m * Suc q"
  using assms by (metis div_nat_eqI dividend_less_times_div times_div_less_eq_dividend mult_Suc_right add.commute)

lemma octet_ranges:
  fixes x y :: nat
  shows "x div 16 = 14 \<longleftrightarrow> 224 \<le> x \<and> x \<le> 239"
    and "240 \<le> x \<and> x < 255 \<longleftrightarrow> x div 8 = 30 \<or> x div 4 = 62 \<or> x div 2 = 126 \<or> x = 254"
  by (auto simp: div_range)

lemma octet_pair_range:
  fixes x y :: nat
  assumes "y < 256"
  shows "(x * 256 + y) div 16 = 2753 \<longleftrightarrow> x = 172 \<and> 16 \<le> y \<and> y \<le> 31"
proof -
  have "44048 \<le> x * 256 + y \<Longrightarrow> x * 256 + y < 44064 \<Longrightarrow> x = 172"
    using assms by linarith
  then show ?thesis by (auto simp: div_range)
qed

lemma v4_nat_div:
  "v4_nat a b c d div 16777216 = unat a" "v4_nat a b c d div 65536 = unat a * 256 + unat b"
  "v4_nat a b c d div 256 = (unat a * 256 + unat b) * 256 + unat c"
  unfolding v4_nat_def by (rule radix256 [OF unat_byte_lt unat_byte_lt unat_byte_lt])+

lemma v4_nat_div_more:
  "v4_nat a b c d div 268435456 = unat a div 16" "v4_nat a b c d div 134217728 = unat a div 8"
  "v4_nat a b c d div 67108864 = unat a div 4" "v4_nat a b c d div 33554432 = unat a div 2"
  "v4_nat a b c d div 1048576 = (unat a * 256 + unat b) div 16"
  using div_mult2_eq [of "v4_nat a b c d" 16777216] div_mult2_eq [of "v4_nat a b c d" 65536 16]
    div_mult2_eq [of _ 16777216 16] div_mult2_eq [of _ 16777216 8]
    div_mult2_eq [of _ 16777216 4] div_mult2_eq [of _ 16777216 2]
  by (simp_all add: v4_nat_div)

lemma octet_eq: "a = (b :: 8 word) \<longleftrightarrow> unat a = unat b"
  by (simp add: word_eq_iff_unsigned)

lemma v4_nat_inj:
  "v4_nat a b c d = v4_nat a' b' c' d' \<longleftrightarrow> a = a' \<and> b = b' \<and> c = c' \<and> d = d'"
proof
  assume eq: "v4_nat a b c d = v4_nat a' b' c' d'"
  have a: "unat a = unat a'" using v4_nat_div(1) [of a b c d] v4_nat_div(1) [of a' b' c' d'] eq by simp
  have b: "unat b = unat b'" using v4_nat_div(2) [of a b c d] v4_nat_div(2) [of a' b' c' d'] eq a by simp
  have c: "unat c = unat c'" using v4_nat_div(3) [of a b c d] v4_nat_div(3) [of a' b' c' d'] eq a b by simp
  with eq a b have "unat d = unat d'" by (simp add: v4_nat_def)
  with a b c show "a = a' \<and> b = b' \<and> c = c' \<and> d = d'" by (simp add: octet_eq)
qed simp

lemma in_block_simps:
  "in_block n (b, 32) \<longleftrightarrow> n = b" "in_block n (b, 24) \<longleftrightarrow> n div 256 = b div 256"
  "in_block n (b, 16) \<longleftrightarrow> n div 65536 = b div 65536"
  "in_block n (b, 8) \<longleftrightarrow> n div 16777216 = b div 16777216"
  "in_block n (b, 4) \<longleftrightarrow> n div 268435456 = b div 268435456"
  "in_block n (b, 5) \<longleftrightarrow> n div 134217728 = b div 134217728"
  "in_block n (b, 6) \<longleftrightarrow> n div 67108864 = b div 67108864"
  "in_block n (b, 7) \<longleftrightarrow> n div 33554432 = b div 33554432"
  "in_block n (b, 12) \<longleftrightarrow> n div 1048576 = b div 1048576"
  by (simp_all add: in_block_def)

lemmas block_simps = in_block_simps(2-) v4_nat_div v4_nat_div_more

text \<open>
  An IPv4 address is invalid exactly if it lies in one of the listed CIDR
  blocks, and private exactly if it lies in 10/8, 172.16/12 or 192.168/16.
\<close>

theorem v4_ranges_are_blocks:
  "is_invalid_ip (V4 a b c d) = list_ex (in_block (v4_nat a b c d)) invalid_blocks \<and>
   is_private_ip (V4 a b c d) = list_ex (in_block (v4_nat a b c d)) private_blocks"
proof -
  have 1: "in_block (v4_nat a b c d) (0, 32) \<longleftrightarrow> a = 0 \<and> b = 0 \<and> c = 0 \<and> d = 0"
    using v4_nat_inj [of a b c d 0 0 0 0] by (simp add: in_block_simps(1) v4_nat_def)
  have 2: "in_block (v4_nat a b c d) (v4_nat 255 255 255 255, 32) \<longleftrightarrow>
      a = 255 \<and> b = 255 \<and> c = 255 \<and> d = 255"
    using v4_nat_inj [of a b c d 255 255 255 255] by (simp add: in_block_simps(1))
  have e8: "in_block (v4_nat a b c d) (v4_nat 127 0 0 0, 8) \<longleftrightarrow> a = 127"
    "in_block (v4_nat a b c d) (v4_nat 254 0 0 0, 8) \<longleftrightarrow> a = 254"
    "in_block (v4_nat a b c d) (v4_nat 10 0 0 0, 8) \<longleftrightarrow> a = 10"
    unfolding block_simps octet_eq by simp_all
  note pair = pair256 [OF unat_byte_lt unat_byte_lt]
  have e16: "in_block (v4_nat a b c d) (v4_nat 169 254 0 0, 16) \<longleftrightarrow> a = 169 \<and> b = 254"
    "in_block (v4_nat a b c d) (v4_nat 192 168 0 0, 16) \<longleftrightarrow> a = 192 \<and> b = 168"
    unfolding block_simps octet_eq by (rule pair)+
  have e24: "in_block (v4_nat a b c d) (v4_nat 192 0 2 0, 24) \<longleftrightarrow> a = 192 \<and> b = 0 \<and> c = 2"
    "in_block (v4_nat a b c d) (v4_nat 198 51 100 0, 24) \<longleftrightarrow> a = 198 \<and> b = 51 \<and> c = 100"
    "in_block (v4_nat a b c d) (v4_nat 203 0 113 0, 24) \<longleftrightarrow> a = 203 \<and> b = 0 \<and> c = 113"
    unfolding block_simps octet_eq pair by (rule conj_assoc)+
  have e12: "in_block (v4_nat a b c d) (v4_nat 172 16 0 0, 12) \<longleftrightarrow> a = 172 \<and> 16 \<le> b \<and> b \<le> 31"
    unfolding block_simps octet_eq word_le_nat_alt
    using octet_pair_range [OF unat_byte_lt, of "unat a" b] by simp
  have multi: "in_block (v4_nat a b c d) (v4_nat 224 0 0 0, 4) \<longleftrightarrow> 224 \<le> a \<and> a \<le> 239"
    unfolding block_simps word_le_nat_alt using octet_ranges(1) [of "unat a"] by simp
  have res: "is_reserved_ipv4 a \<longleftrightarrow>
      in_block (v4_nat a b c d) (v4_nat 240 0 0 0, 5) \<or> in_block (v4_nat a b c d) (v4_nat 248 0 0 0, 6) \<or>
      in_block (v4_nat a b c d) (v4_nat 252 0 0 0, 7) \<or> a = 254"
    unfolding is_reserved_ipv4_def block_simps octet_eq word_le_nat_alt word_less_nat_alt
    using octet_ranges(2) [of "unat a"] by simp
  have inv: "is_invalid_ip (V4 a b c d) = list_ex (in_block (v4_nat a b c d)) invalid_blocks"
    unfolding invalid_blocks_def list_ex_Cons_iff list_ex_Nil_iff 1 2 e8 e16 e24 multi
      is_invalid_ip.simps res v4_is_documentation_def by (simp only: disj_assoc simp_thms)
  have "is_private_ip (V4 a b c d) = list_ex (in_block (v4_nat a b c d)) private_blocks"
    unfolding private_blocks_def list_ex_Cons_iff list_ex_Nil_iff e8 e16 e12 is_private_ip.simps
    by (simp only: disj_assoc simp_thms)
  with inv show ?thesis by blast
qed

end
