(* ===== verification/Rust_Text.thy ===== *)
theory Rust_Text
  imports Prelude
begin

text \<open>
  The operations of Rust's \<open>str\<close> and integer parsing that the program calls, with the
  facts the parsers and printers of the other theories need: splitting and joining,
  \<open>lines\<close>, \<open>split_whitespace\<close>, \<open>trim\<close>, \<open>replace\<close>, \<open>parse\<close>, decimal printing and
  \<open>String::from_utf8_lossy\<close>.
\<close>

section \<open>Characters\<close>

abbreviation code :: "char \<Rightarrow> nat" where
  "code c \<equiv> of_char c"

abbreviation CR :: char where "CR \<equiv> CHR 0x0D"
abbreviation LF :: char where "LF \<equiv> CHR 0x0A"
abbreviation SP :: char where "SP \<equiv> CHR '' ''"

definition crlf :: string where
  "crlf = [CR, LF]"

definition header_sep :: string where
  "header_sep = [CR, LF, CR, LF]"

definition lower_char :: "char \<Rightarrow> char" where
  "lower_char c = (if 65 \<le> code c \<and> code c \<le> 90 then char_of (code c + 32) else c)"

definition to_lowercase :: "string \<Rightarrow> string" where
  "to_lowercase s = map lower_char s"

definition is_ws :: "char \<Rightarrow> bool" where
  "is_ws c = (code c = 32 \<or> 9 \<le> code c \<and> code c \<le> 13)"

definition is_digit :: "char \<Rightarrow> bool" where
  "is_digit c = (48 \<le> code c \<and> code c \<le> 57)"

definition digit_val :: "char \<Rightarrow> nat" where
  "digit_val c = code c - 48"

definition digit_char :: "nat \<Rightarrow> char" where
  "digit_char d = char_of (48 + d)"

lemma lower_char_idem [simp]: "lower_char (lower_char c) = lower_char c"
  by (auto simp: lower_char_def)

lemma to_lowercase_idem [simp]: "to_lowercase (to_lowercase s) = to_lowercase s"
  by (simp add: to_lowercase_def)

lemma length_to_lowercase [simp]: "length (to_lowercase s) = length s"
  by (simp add: to_lowercase_def)

lemma to_lowercase_Nil [simp]: "to_lowercase [] = []"
  by (simp add: to_lowercase_def)

lemma to_lowercase_Cons: "to_lowercase (c # s) = lower_char c # to_lowercase s"
  by (simp add: to_lowercase_def)

lemma to_lowercase_append [simp]: "to_lowercase (s @ t) = to_lowercase s @ to_lowercase t"
  by (simp add: to_lowercase_def)

lemma digit_char_props:
  assumes "d < 10"
  shows "is_digit (digit_char d)" "digit_val (digit_char d) = d" "\<not> is_ws (digit_char d)"
    "digit_char d \<noteq> CHR ''+''" "digit_char d \<noteq> CHR '':''" "digit_char d \<noteq> CHR ''/''"
proof -
  have c: "code (digit_char d) = 48 + d"
    using assms by (simp add: digit_char_def)
  then show "is_digit (digit_char d)" "digit_val (digit_char d) = d" "\<not> is_ws (digit_char d)"
    using assms by (simp_all add: is_digit_def digit_val_def is_ws_def)
  show "digit_char d \<noteq> CHR ''+''" "digit_char d \<noteq> CHR ''/''"
    using arg_cong [of "digit_char d" _ "of_char :: char \<Rightarrow> nat"] c by fastforce+
  show "digit_char d \<noteq> CHR '':''"
    using arg_cong [of "digit_char d" "CHR '':''" "of_char :: char \<Rightarrow> nat"] c assms by fastforce
qed

section \<open>Splitting and joining\<close>

fun split_by :: "('a \<Rightarrow> bool) \<Rightarrow> 'a list \<Rightarrow> 'a list list" where
  "split_by p [] = [[]]"
| "split_by p (x # xs) =
     (if p x then [] # split_by p xs
      else case split_by p xs of [] \<Rightarrow> [[x]] | w # ws \<Rightarrow> (x # w) # ws)"

abbreviation split_on :: "char \<Rightarrow> string \<Rightarrow> string list" where
  "split_on c \<equiv> split_by (\<lambda>x. x = c)"

definition split_whitespace :: "string \<Rightarrow> string list" where
  "split_whitespace s = filter (\<lambda>w. w \<noteq> []) (split_by is_ws s)"

fun join :: "'a list \<Rightarrow> 'a list list \<Rightarrow> 'a list" where
  "join sep [] = []"
| "join sep [w] = w"
| "join sep (w # v # ws) = w @ sep @ join sep (v # ws)"

definition strip_cr :: "string \<Rightarrow> string" where
  "strip_cr l = (if l \<noteq> [] \<and> last l = CR then butlast l else l)"

definition str_lines :: "string \<Rightarrow> string list" where
  "str_lines s =
     (let segs = split_on LF s
      in map strip_cr (butlast segs) @ (if last segs = [] then [] else [last segs]))"

definition trim :: "string \<Rightarrow> string" where
  "trim s = rev (dropWhile is_ws (rev (dropWhile is_ws s)))"

text \<open>\<open>s.rsplitn(2, c)\<close>: what follows the last \<open>c\<close>, then what precedes it, if anything.\<close>

definition rsplit_once :: "char \<Rightarrow> string \<Rightarrow> string \<times> string option" where
  "rsplit_once c s =
     (case find_sub (rev s) [c] of
        None \<Rightarrow> (s, None)
      | Some i \<Rightarrow> (drop (length s - i) s, Some (take (length s - i - 1) s)))"

text \<open>\<open>s.replace(p, r)\<close> for a pattern \<open>p\<close> that is not empty.\<close>

function replace_all :: "'a list \<Rightarrow> 'a list \<Rightarrow> 'a list \<Rightarrow> 'a list" where
  "replace_all p r s =
     (case s of
        [] \<Rightarrow> []
      | x # xs \<Rightarrow>
          if p \<noteq> [] \<and> starts_with s p then r @ replace_all p r (drop (length p) s)
          else x # replace_all p r xs)"
  by pat_completeness auto
termination
  by (relation "measure (\<lambda>(p, r, s). length s)") auto

declare replace_all.simps [simp del]

lemma replace_all_Nil [simp]: "replace_all p r [] = []"
  by (simp add: replace_all.simps [of p r "[]"])

lemma replace_all_Cons:
  "replace_all p r (x # xs) =
     (if p \<noteq> [] \<and> starts_with (x # xs) p then r @ replace_all p r (drop (length p) (x # xs))
      else x # replace_all p r xs)"
  by (simp add: replace_all.simps [of p r "x # xs"])

lemma split_by_not_Nil [simp]: "split_by p xs \<noteq> []"
  by (induction xs) (auto split: list.splits)

lemma split_by_none: "\<forall>x \<in> set xs. \<not> p x \<Longrightarrow> split_by p xs = [xs]"
  by (induction xs) auto

lemma split_by_append_sep:
  "\<forall>x \<in> set w. \<not> p x \<Longrightarrow> p c \<Longrightarrow> split_by p (w @ c # xs) = w # split_by p xs"
  by (induction w) auto

lemma split_by_all_parts: "\<forall>w \<in> set (split_by p xs). \<forall>x \<in> set w. \<not> p x \<and> x \<in> set xs"
proof (induction xs)
  case Nil
  then show ?case by simp
next
  case (Cons y ys)
  obtain v vs where "split_by p ys = v # vs"
    by (metis list.exhaust split_by_not_Nil)
  with Cons show ?case by simp
qed

lemma split_by_parts: "w \<in> set (split_by p xs) \<Longrightarrow> x \<in> set w \<Longrightarrow> \<not> p x \<and> x \<in> set xs"
  using split_by_all_parts [of p xs] by (simp add: Ball_def)

lemma join_Cons_Nil: "join sep ((x # w) # ws) = x # join sep (w # ws)"
  by (cases ws) auto

lemma join_split_on: "join [c] (split_on c s) = s"
proof (induction s)
  case Nil
  then show ?case by simp
next
  case (Cons x xs)
  obtain v vs where "split_on c xs = v # vs"
    by (metis list.exhaust split_by_not_Nil)
  with Cons show ?case by (simp add: join_Cons_Nil)
qed

lemma split_on_join:
  "ws \<noteq> [] \<Longrightarrow> \<forall>w \<in> set ws. c \<notin> set w \<Longrightarrow> split_on c (join [c] ws) = ws"
proof (induction ws rule: induct_list012)
  case (2 w)
  then show ?case by (auto intro: split_by_none)
next
  case (3 w v ws)
  then have "split_on c (w @ c # join [c] (v # ws)) = w # split_on c (join [c] (v # ws))"
    by (intro split_by_append_sep) auto
  with 3 show ?case by simp
qed simp

lemma split_whitespace_append:
  assumes "w \<noteq> []" and "\<forall>x \<in> set w. \<not> is_ws x" and "is_ws c"
  shows "split_whitespace (w @ c # xs) = w # split_whitespace xs"
  using assms by (simp add: split_whitespace_def split_by_append_sep)

lemma split_whitespace_word:
  assumes "w \<noteq> []" and "\<forall>x \<in> set w. \<not> is_ws x"
  shows "split_whitespace w = [w]"
  using assms by (simp add: split_whitespace_def split_by_none)

lemma split_whitespace_parts:
  "w \<in> set (split_whitespace s) \<Longrightarrow> w \<noteq> [] \<and> (\<forall>x \<in> set w. \<not> is_ws x)"
  by (auto simp: split_whitespace_def dest: split_by_parts)

lemma is_ws_SP [simp]: "is_ws SP"
  by (simp add: is_ws_def)

lemma split_whitespace_three:
  assumes "a \<noteq> []" "\<forall>x \<in> set a. \<not> is_ws x" "b \<noteq> []" "\<forall>x \<in> set b. \<not> is_ws x"
    "c \<noteq> []" "\<forall>x \<in> set c. \<not> is_ws x"
  shows "split_whitespace (a @ SP # b @ SP # c) = [a, b, c]"
  using assms by (simp add: split_whitespace_append split_whitespace_word)

lemma str_lines_Nil [simp]: "str_lines [] = []"
  by (simp add: str_lines_def)

lemma str_lines_crlf:
  assumes "LF \<notin> set l"
  shows "str_lines (l @ CR # LF # rest) = l # str_lines rest"
proof -
  have "split_on LF ((l @ [CR]) @ LF # rest) = (l @ [CR]) # split_on LF rest"
    using assms by (intro split_by_append_sep) auto
  then show ?thesis
    by (simp add: str_lines_def strip_cr_def Let_def butlast_append)
qed

lemma str_lines_last:
  assumes "LF \<notin> set l" and "l \<noteq> []"
  shows "str_lines l = [l]"
proof -
  have "split_on LF l = [l]"
    using assms by (intro split_by_none) auto
  then show ?thesis using assms by (simp add: str_lines_def)
qed

lemma rsplit_once_append:
  assumes "c \<notin> set t"
  shows "rsplit_once c (s @ c # t) = (t, Some s)"
proof -
  have "find_sub (rev t @ c # rev s) [c] = Some (length t)"
    using assms by (subst find_sub_singleton_append) auto
  then show ?thesis by (simp add: rsplit_once_def)
qed

section \<open>Decimal numbers\<close>

fun show_nat :: "nat \<Rightarrow> string" where
  "show_nat n = (if n < 10 then [digit_char n] else show_nat (n div 10) @ [digit_char (n mod 10)])"

declare show_nat.simps [simp del]

definition digits_val :: "string \<Rightarrow> nat" where
  "digits_val s = foldl (\<lambda>a c. 10 * a + digit_val c) 0 s"

text \<open>
  \<open>parse\<close> to an unsigned type whose largest value is \<open>m\<close>: an optional plus sign,
  then at least one digit and digits only; a value above \<open>m\<close> is an error.
\<close>

definition parse_uint :: "nat \<Rightarrow> string \<Rightarrow> nat option" where
  "parse_uint m s =
     (let ds = (if starts_with s ''+'' then drop 1 s else s)
      in if ds \<noteq> [] \<and> list_all is_digit ds \<and> digits_val ds \<le> m then Some (digits_val ds) else None)"

lemma show_nat_digits: "\<forall>c \<in> set (show_nat n). \<exists>d < 10. c = digit_char d"
proof (induction n rule: show_nat.induct)
  case (1 n)
  have "\<exists>d < 10. digit_char (n mod 10) = digit_char d"
    by (rule exI [of _ "n mod 10"]) simp
  with 1 show ?case by (subst show_nat.simps) auto
qed

lemma show_nat_not_Nil [simp]: "show_nat n \<noteq> []"
  by (subst show_nat.simps) simp

lemma show_nat_is_digit: "list_all is_digit (show_nat n)"
  using show_nat_digits [of n] by (auto simp: list_all_iff digit_char_props)

lemma show_nat_no_ws: "\<forall>c \<in> set (show_nat n). \<not> is_ws c"
  using show_nat_digits [of n] by (auto simp: digit_char_props)

lemma show_nat_no_colon: "CHR '':'' \<notin> set (show_nat n)"
  using show_nat_digits [of n] by (metis digit_char_props(5))

lemma show_nat_no_slash: "CHR ''/'' \<notin> set (show_nat n)"
  using show_nat_digits [of n] by (metis digit_char_props(6))

lemma digits_val_show_nat: "digits_val (show_nat n) = n"
proof (induction n rule: show_nat.induct)
  case (1 n)
  show ?case
  proof (cases "n < 10")
    case True
    then show ?thesis
      by (subst show_nat.simps) (simp add: digits_val_def digit_char_props)
  next
    case False
    with 1 have "digits_val (show_nat (n div 10)) = n div 10" by simp
    with False show ?thesis
      by (subst show_nat.simps) (simp add: digits_val_def digit_char_props)
  qed
qed

lemma show_nat_no_plus: "\<not> starts_with (show_nat n) ''+''"
proof
  assume "starts_with (show_nat n) ''+''"
  then have "CHR ''+'' \<in> set (show_nat n)"
    by (auto simp: starts_with_iff)
  then show False
    using show_nat_digits [of n] by (metis digit_char_props(4))
qed

lemma parse_show_nat: "parse_uint m (show_nat n) = (if n \<le> m then Some n else None)"
  by (simp add: parse_uint_def show_nat_no_plus show_nat_is_digit digits_val_show_nat)

lemma parse_uint_bound: "parse_uint m s = Some n \<Longrightarrow> n \<le> m"
  by (auto simp: parse_uint_def Let_def split: if_splits)

section \<open>Trimming\<close>

lemma trim_id:
  assumes "s = [] \<or> (\<not> is_ws (hd s) \<and> \<not> is_ws (last s))"
  shows "trim s = s"
proof (cases s)
  case Nil
  then show ?thesis by (simp add: trim_def)
next
  case (Cons c t)
  with assms have "dropWhile is_ws s = s" by simp
  moreover have "rev s = last s # rev (butlast s)"
    using Cons by (subst append_butlast_last_id [symmetric]) (simp_all del: append_butlast_last_id)
  then have "dropWhile is_ws (rev s) = rev s"
    using assms Cons by simp
  ultimately show ?thesis by (simp add: trim_def)
qed

lemma trim_space: "is_ws c \<Longrightarrow> trim (c # s) = trim s"
  by (simp add: trim_def)

lemma trim_no_ws: "\<forall>c \<in> set s. \<not> is_ws c \<Longrightarrow> trim s = s"
  by (rule trim_id) auto

lemma dropWhile_hd: "xs = [] \<or> \<not> P (hd xs) \<Longrightarrow> dropWhile P xs = xs"
  by (cases xs) auto

lemma trim_ends: "trim s = [] \<or> (\<not> is_ws (hd (trim s)) \<and> \<not> is_ws (last (trim s)))"
proof (cases "trim s = []")
  case False
  let ?t = "dropWhile is_ws s"
  have r: "rev (trim s) = dropWhile is_ws (rev ?t)" by (simp add: trim_def)
  with False have "\<not> is_ws (hd (rev (trim s)))" by (metis hd_dropWhile rev_is_Nil_conv)
  then have "\<not> is_ws (last (trim s))" using False by (simp add: hd_rev)
  moreover obtain u where u: "?t = trim s @ u"
    using takeWhile_dropWhile_id [of is_ws "rev ?t"] r by (metis rev_append rev_rev_ident)
  with False have "?t \<noteq> []" by auto
  then have "\<not> is_ws (hd (trim s))" using hd_dropWhile [of is_ws s] u False by simp
  ultimately show ?thesis by simp
qed simp

lemma trim_idem: "trim (trim s) = trim s"
  using trim_ends by (intro trim_id) simp

lemma trim_output: "trim v = v \<Longrightarrow> trim (v @ [LF]) = v"
proof -
  assume v: "trim v = v"
  have lf: "is_ws LF" by (simp add: is_ws_def)
  show ?thesis
  proof (cases "v = []")
    case True
    with lf show ?thesis by (simp add: trim_def)
  next
    case False
    with trim_ends [of v] v have "\<not> is_ws (hd (v @ [LF]))" "\<not> is_ws (hd (rev v))"
      by (simp_all add: hd_rev)
    with lf show ?thesis by (simp add: trim_def dropWhile_hd)
  qed
qed

section \<open>Lossy UTF-8 decoding\<close>

text \<open>
  \<open>utf8_chunk bs\<close> reads one scalar value or one maximal ill-formed subsequence from the
  front of a non-empty byte list: how many bytes it takes, and whether it is well formed.
\<close>

definition utf8_cont :: "nat list \<Rightarrow> nat \<Rightarrow> nat \<Rightarrow> nat \<Rightarrow> bool" where
  "utf8_cont bs i lo hi = (i < length bs \<and> lo \<le> bs ! i \<and> bs ! i \<le> hi)"

definition utf8_second :: "nat \<Rightarrow> nat \<times> nat" where
  "utf8_second b =
     (if b = 224 then (160, 191) else if b = 237 then (128, 159)
      else if b = 240 then (144, 191) else if b = 244 then (128, 143) else (128, 191))"

definition utf8_chunk :: "nat list \<Rightarrow> nat \<times> bool" where
  "utf8_chunk bs =
     (let b = bs ! 0; lo = fst (utf8_second b); hi = snd (utf8_second b)
      in if b < 128 then (1, True)
         else if 194 \<le> b \<and> b \<le> 223 then
           (if utf8_cont bs 1 lo hi then (2, True) else (1, False))
         else if 224 \<le> b \<and> b \<le> 239 then
           (if \<not> utf8_cont bs 1 lo hi then (1, False)
            else if \<not> utf8_cont bs 2 128 191 then (2, False) else (3, True))
         else if 240 \<le> b \<and> b \<le> 244 then
           (if \<not> utf8_cont bs 1 lo hi then (1, False)
            else if \<not> utf8_cont bs 2 128 191 then (2, False)
            else if \<not> utf8_cont bs 3 128 191 then (3, False) else (4, True))
         else (1, False))"

text \<open>U+FFFD, the replacement character, in UTF-8.\<close>

definition replacement_char :: string where
  "replacement_char = [CHR 0xEF, CHR 0xBF, CHR 0xBD]"

lemma utf8_chunk_pos: "0 < fst (utf8_chunk bs)"
  by (simp add: utf8_chunk_def Let_def)

lemma utf8_chunk_pos': "(n, ok) = utf8_chunk bs \<Longrightarrow> 0 < n"
  using utf8_chunk_pos [of bs] by (cases "utf8_chunk bs") simp

function utf8_lossy :: "string \<Rightarrow> string" where
  "utf8_lossy s =
     (if s = [] then []
      else let (n, ok) = utf8_chunk (map code s)
           in (if ok then take n s else replacement_char) @ utf8_lossy (drop n s))"
  by pat_completeness auto
termination
  by (relation "measure length") (auto dest: utf8_chunk_pos')

declare utf8_lossy.simps [simp del]

function valid_utf8 :: "string \<Rightarrow> bool" where
  "valid_utf8 s =
     (if s = [] then True
      else let (n, ok) = utf8_chunk (map code s) in ok \<and> valid_utf8 (drop n s))"
  by pat_completeness auto
termination
  by (relation "measure length") (auto dest: utf8_chunk_pos')

declare valid_utf8.simps [simp del]

abbreviation ascii :: "string \<Rightarrow> bool" where
  "ascii s \<equiv> \<forall>c \<in> set s. code c < 128"

lemma utf8_lossy_ascii: "ascii s \<Longrightarrow> utf8_lossy s = s"
proof (induction s)
  case Nil
  then show ?case by (simp add: utf8_lossy.simps)
next
  case (Cons c s)
  then have "utf8_chunk (map code (c # s)) = (1, True)"
    by (simp add: utf8_chunk_def Let_def)
  with Cons show ?case by (simp add: utf8_lossy.simps [of "c # s"])
qed

text \<open>Lossy decoding leaves valid text as it is, so it is the identity on what the peers of
  the proxy send when they follow the protocol.\<close>

lemma utf8_lossy_valid: "valid_utf8 s \<Longrightarrow> utf8_lossy s = s"
proof (induction s rule: length_induct)
  case (1 s)
  show ?case
  proof (cases "s = []")
    case True
    then show ?thesis by (simp add: utf8_lossy.simps)
  next
    case False
    obtain n where c: "utf8_chunk (map code s) = (n, True)" and v: "valid_utf8 (drop n s)"
      using 1(2) False by (auto simp: valid_utf8.simps [of s] split: prod.splits)
    have "0 < n" using utf8_chunk_pos [of "map code s"] c by simp
    with False 1(1) v have "utf8_lossy (drop n s) = drop n s" by simp
    with c False show ?thesis by (simp add: utf8_lossy.simps [of s])
  qed
qed

lemma show_nat_ascii: "ascii (show_nat n)"
proof
  fix c
  assume "c \<in> set (show_nat n)"
  then have "is_digit c" using show_nat_is_digit by (simp add: list_all_iff)
  then show "code c < 128" by (auto simp: is_digit_def)
qed

lemma valid_utf8_ascii: "ascii s \<Longrightarrow> valid_utf8 s"
proof (induction s)
  case Nil
  then show ?case by (simp add: valid_utf8.simps)
next
  case (Cons c s)
  then have "utf8_chunk (map code (c # s)) = (1, True)"
    by (simp add: utf8_chunk_def Let_def)
  with Cons show ?case by (simp add: valid_utf8.simps [of "c # s"])
qed

end
