(* ===== verification/Dns_Wire.thy ===== *)
theory Dns_Wire
  imports Ip_Filter Rust_Text
begin

unbundle bit_operations_syntax

text \<open>
  The wire formats of the DoH client (second half of \<open>src/dns/doh_client.rs\<close>): the DNS query
  encoder, the DNS response parser, the URL-safe base64 encoder and the parsing of the HTTP
  response that carries the answer. An index out of the slice is the outcome \<open>Panic\<close>.
\<close>

section \<open>Big-endian integers\<close>

definition u16_be :: "byte \<Rightarrow> byte \<Rightarrow> 16 word" where
  "u16_be hi lo = push_bit 8 (ucast hi) OR ucast lo"

definition be_hi :: "16 word \<Rightarrow> byte" where
  "be_hi w = ucast (drop_bit 8 w)"

definition be_lo :: "16 word \<Rightarrow> byte" where
  "be_lo w = ucast w"

definition to_be_bytes :: "16 word \<Rightarrow> byte list" where
  "to_be_bytes w = [be_hi w, be_lo w]"

lemma u16_be_bytes [simp]: "u16_be (be_hi w) (be_lo w) = w"
proof (rule bit_word_eqI)
  fix n assume "n < LENGTH(16)"
  then show "bit (u16_be (be_hi w) (be_lo w)) n = bit w n"
    by (auto simp: u16_be_def be_hi_def be_lo_def bit_simps)
qed

lemma u16_be_small [simp]: "u16_be 0 b = ucast b"
  by (simp add: u16_be_def)

section \<open>Queries\<close>

text \<open>The length of a label is cast to \<open>u8\<close>, which keeps its low eight bits.\<close>

fun encode_labels :: "string list \<Rightarrow> byte list" where
  "encode_labels [] = []"
| "encode_labels (label # labels) =
     word_of_nat (length label) # str_bytes label @ encode_labels labels"

definition encode_domain_name :: "string \<Rightarrow> byte list \<Rightarrow> byte list" where
  "encode_domain_name domain buf = buf @ encode_labels (split_on CHR ''.'' domain) @ [0]"

text \<open>The message identifier is drawn at random: a parameter.\<close>

definition build_dns_query :: "16 word \<Rightarrow> string \<Rightarrow> 16 word \<Rightarrow> byte list" where
  "build_dns_query qid domain qtype =
     (let buf = to_be_bytes qid @ to_be_bytes 0x0100 @ to_be_bytes 1 @ to_be_bytes 0
                @ to_be_bytes 0 @ to_be_bytes 0
      in encode_domain_name domain buf @ to_be_bytes qtype @ to_be_bytes 1)"

section \<open>Responses\<close>

datatype dns_error = TooShort | Rcode nat

text \<open>The loop that skips the labels of a name: it stops at a zero byte or past the end.\<close>

function skip_labels :: "byte list \<Rightarrow> nat \<Rightarrow> nat" where
  "skip_labels data offset =
     (if offset < length data \<and> data ! offset \<noteq> 0
      then skip_labels data (offset + unat (data ! offset) + 1) else offset)"
  by pat_completeness auto
termination
  by (relation "measure (\<lambda>(data, offset). length data - offset)") auto

declare skip_labels.simps [simp del]

definition read_v4 :: "byte list \<Rightarrow> nat \<Rightarrow> ip_addr" where
  "read_v4 data offset =
     V4 (data ! offset) (data ! (offset + 1)) (data ! (offset + 2)) (data ! (offset + 3))"

definition read_v6 :: "byte list \<Rightarrow> nat \<Rightarrow> ip_addr" where
  "read_v6 data offset =
     V6 (u16_be (data ! offset) (data ! (offset + 1)))
        (u16_be (data ! (offset + 2)) (data ! (offset + 3)))
        (u16_be (data ! (offset + 4)) (data ! (offset + 5)))
        (u16_be (data ! (offset + 6)) (data ! (offset + 7)))
        (u16_be (data ! (offset + 8)) (data ! (offset + 9)))
        (u16_be (data ! (offset + 10)) (data ! (offset + 11)))
        (u16_be (data ! (offset + 12)) (data ! (offset + 13)))
        (u16_be (data ! (offset + 14)) (data ! (offset + 15)))"

text \<open>
  One round of the answer loop for each of the \<open>ancount\<close> records. After the name, the ten
  bytes of type, class, time to live and data length are read without a check: with fewer
  than ten bytes left an index is out of bounds.
\<close>

fun parse_answers :: "byte list \<Rightarrow> nat \<Rightarrow> nat \<Rightarrow> ip_addr list \<Rightarrow> (dns_error, ip_addr list) outcome" where
  "parse_answers data 0 offset ips = Ok ips"
| "parse_answers data (Suc n) offset ips =
     (if length data < offset + 12 then Ok ips
      else
        let offset1 = (if data ! offset AND 0xC0 = 0xC0 then offset + 2
                       else skip_labels data offset + 1)
        in if length data < offset1 + 10 then Panic
           else
             let rtype = u16_be (data ! offset1) (data ! (offset1 + 1));
                 rdlength = unat (u16_be (data ! (offset1 + 8)) (data ! (offset1 + 9)));
                 offset2 = offset1 + 10;
                 ips' = (if rtype = 1 \<and> offset2 + 4 \<le> length data
                         then ips @ [read_v4 data offset2]
                         else if rtype = 28 \<and> offset2 + 16 \<le> length data
                         then ips @ [read_v6 data offset2] else ips)
             in parse_answers data n (offset2 + rdlength) ips')"

definition parse_dns_response :: "byte list \<Rightarrow> (dns_error, ip_addr list) outcome" where
  "parse_dns_response data =
     (if length data < 12 then Err TooShort
      else
        let flags = u16_be (data ! 2) (data ! 3);
            ancount = unat (u16_be (data ! 6) (data ! 7));
            rcode = flags AND 0x000F
        in if rcode \<noteq> 0 then Err (Rcode (unat rcode))
           else parse_answers data ancount (skip_labels data 12 + 5) [])"

section \<open>Base64\<close>

definition b64_table :: string where
  "b64_table = ''ABCDEFGHIJKLMNOPQRSTUVWXYZabcdefghijklmnopqrstuvwxyz0123456789-_''"

definition b64_char :: "32 word \<Rightarrow> char" where
  "b64_char n = b64_table ! unat (n AND 0x3F)"

fun base64_encode :: "byte list \<Rightarrow> string" where
  "base64_encode (a # b # c # rest) =
     (let n = push_bit 16 (ucast a) OR push_bit 8 (ucast b) OR ucast c
      in [b64_char (drop_bit 18 n), b64_char (drop_bit 12 n), b64_char (drop_bit 6 n), b64_char n]
         @ base64_encode rest)"
| "base64_encode [a, b] =
     (let n = push_bit 16 (ucast a) OR push_bit 8 (ucast b)
      in [b64_char (drop_bit 18 n), b64_char (drop_bit 12 n), b64_char (drop_bit 6 n)])"
| "base64_encode [a] =
     (let n = push_bit 16 (ucast a) in [b64_char (drop_bit 18 n), b64_char (drop_bit 12 n)])"
| "base64_encode [] = []"

section \<open>The HTTP response\<close>

definition doh_find_header_end :: "string \<Rightarrow> nat option" where
  "doh_find_header_end data = find_sub data header_sep"

fun doh_scan_length :: "string list \<Rightarrow> nat option" where
  "doh_scan_length [] = None"
| "doh_scan_length (line # rest) =
     (case strip_prefix line ''Content-Length:'' of
        Some v \<Rightarrow> parse_uint (u64_size - 1) (trim v)
      | None \<Rightarrow>
          (case strip_prefix line ''content-length:'' of
             Some v \<Rightarrow> parse_uint (u64_size - 1) (trim v)
           | None \<Rightarrow> doh_scan_length rest))"

definition doh_parse_content_length :: "string \<Rightarrow> nat option" where
  "doh_parse_content_length response =
     (case doh_find_header_end response of
        None \<Rightarrow> None
      | Some header_end \<Rightarrow>
          let header_str = take header_end response
          in if valid_utf8 header_str then doh_scan_length (str_lines header_str) else None)"

definition extract_http_body :: "string \<Rightarrow> string option" where
  "extract_http_body response =
     (case find_sub response header_sep of
        None \<Rightarrow> None
      | Some pos \<Rightarrow> Some (drop (pos + length header_sep) response))"

text \<open>
  What \<open>read\<close> on the connection returns: some bytes, or an error. A list of results that has
  come to its end, or an empty chunk, is the end of the stream (\<open>Ok(0)\<close>).
\<close>

datatype read_result = Chunk string | ReadErr

datatype doh_error = IoErr | NoSeparator | NoServerIp | ConnectErr | NoTrusted | NoIps

fun read_header :: "string \<Rightarrow> read_result list \<Rightarrow> (doh_error, string \<times> read_result list) outcome" where
  "read_header response rs =
     (if doh_find_header_end response \<noteq> None then Ok (response, rs)
      else case rs of
             [] \<Rightarrow> Ok (response, [])
           | ReadErr # rs' \<Rightarrow> Err IoErr
           | Chunk c # rs' \<Rightarrow> if c = [] then Ok (response, rs') else read_header (response @ c) rs')"

declare read_header.simps [simp del]

fun read_body ::
    "nat \<Rightarrow> nat \<Rightarrow> string \<Rightarrow> read_result list \<Rightarrow> (doh_error, string \<times> read_result list) outcome" where
  "read_body content_length total_body response rs =
     (if content_length \<le> total_body then Ok (response, rs)
      else case rs of
             [] \<Rightarrow> Ok (response, [])
           | ReadErr # rs' \<Rightarrow> Err IoErr
           | Chunk c # rs' \<Rightarrow>
               if c = [] then Ok (response, rs')
               else read_body content_length (total_body + length c) (response @ c) rs')"

declare read_body.simps [simp del]

text \<open>
  The request is written first (\<open>write_ok\<close>: whether the writes and the flush succeed), then
  the response is read. Gives the body and what is left of the stream.
\<close>

definition doh_request :: "string \<Rightarrow> byte list \<Rightarrow> string" where
  "doh_request host query =
     ''GET /dns-query?dns='' @ base64_encode query @ '' HTTP/1.1'' @ crlf @ ''Host: '' @ host @ crlf
     @ ''Accept: application/dns-message'' @ crlf @ ''Connection: keep-alive'' @ header_sep"

definition send_doh_request ::
    "bool \<Rightarrow> read_result list \<Rightarrow> (doh_error, byte list \<times> read_result list) outcome" where
  "send_doh_request write_ok rs =
     (if \<not> write_ok then Err IoErr
      else bind_outcome (read_header [] rs) (\<lambda>(response, rs1).
        let content_length = (case doh_parse_content_length response of None \<Rightarrow> 0 | Some n \<Rightarrow> n);
            header_end = (case doh_find_header_end response of None \<Rightarrow> 0 | Some p \<Rightarrow> p);
            body_start = header_end + 4;
            body_received = length response - body_start
        in bind_outcome (read_body content_length body_received response rs1) (\<lambda>(response', rs2).
             case extract_http_body response' of
               None \<Rightarrow> Err NoSeparator
             | Some body \<Rightarrow> Ok (str_bytes body, rs2))))"

section \<open>Encoding of names\<close>

lemma length_str_bytes [simp]: "length (str_bytes s) = length s"
  by (simp add: str_bytes_def)

lemma str_bytes_append: "str_bytes (s @ t) = str_bytes s @ str_bytes t"
  by (simp add: str_bytes_def)

lemma bytes_str_bytes [simp]: "bytes_str (str_bytes s) = s"
  by (induction s) (auto simp: bytes_str_def str_bytes_def unsigned_of_nat take_bit_nat_eq_self)

lemma str_bytes_of_bytes [simp]: "str_bytes (bytes_str bs) = bs"
  by (induction bs) (auto simp: bytes_str_def str_bytes_def unat_byte_lt)

definition label_ok :: "string \<Rightarrow> bool" where
  "label_ok l \<longleftrightarrow> l \<noteq> [] \<and> length l < 256"

text \<open>A reference reader of the label format.\<close>

fun decode_labels :: "nat \<Rightarrow> byte list \<Rightarrow> (string list \<times> byte list) option" where
  "decode_labels fuel [] = None"
| "decode_labels 0 (b # bs) = None"
| "decode_labels (Suc fuel) (b # bs) =
     (if b = 0 then Some ([], bs)
      else if length bs < unat b then None
      else case decode_labels fuel (drop (unat b) bs) of
             None \<Rightarrow> None
           | Some (ls, rest) \<Rightarrow> Some (bytes_str (take (unat b) bs) # ls, rest))"

lemma unat_label_length:
  "length l < 256 \<Longrightarrow> unat (word_of_nat (length l) :: byte) = length l"
  by (simp add: unsigned_of_nat take_bit_nat_eq_self)

lemma label_length_nonzero: "label_ok l \<Longrightarrow> (word_of_nat (length l) :: byte) \<noteq> 0"
  by (metis label_ok_def length_0_conv unat_label_length unsigned_0)

lemma decode_encode_labels:
  "\<forall>l \<in> set ls. label_ok l \<Longrightarrow> length ls < fuel \<Longrightarrow>
   decode_labels fuel (encode_labels ls @ 0 # rest) = Some (ls, rest)"
proof (induction ls arbitrary: fuel)
  case Nil
  then show ?case by (cases fuel) auto
next
  case (Cons l ls)
  then obtain f where f: "fuel = Suc f" by (cases fuel) auto
  have "label_ok l" using Cons.prems by simp
  then show ?case
    using Cons f label_length_nonzero [of l] by (simp add: unat_label_length label_ok_def)
qed

lemma length_encode_labels: "length (encode_labels ls) = sum_list (map (\<lambda>l. length l + 1) ls)"
  by (induction ls) simp_all

lemma skip_encoded_labels:
  "\<forall>l \<in> set ls. label_ok l \<Longrightarrow>
   skip_labels (pre @ encode_labels ls @ 0 # post) (length pre) =
     length pre + length (encode_labels ls)"
proof (induction ls arbitrary: pre)
  case Nil
  then show ?case by (simp add: skip_labels.simps [of "pre @ 0 # post"])
next
  case (Cons l ls)
  let ?data = "pre @ encode_labels (l # ls) @ 0 # post"
  let ?pre = "pre @ word_of_nat (length l) # str_bytes l"
  have ok: "label_ok l" using Cons.prems by simp
  then have n: "unat (word_of_nat (length l) :: byte) = length l"
    by (simp add: unat_label_length label_ok_def)
  have "skip_labels ?data (length pre) = skip_labels ?data (length pre + length l + 1)"
    using n label_length_nonzero [OF ok]
    by (subst skip_labels.simps) (simp add: nth_append)
  also have "\<dots> = skip_labels (?pre @ encode_labels ls @ 0 # post) (length ?pre)"
    by simp
  also have "\<dots> = length ?pre + length (encode_labels ls)"
    using Cons.prems by (intro Cons.IH) simp
  finally show ?case by simp
qed

text \<open>
  For a domain whose labels are neither empty nor longer than 255 bytes the
  query is a 12-byte header with the identifier, the recursion bit and one question, then a
  name from which the reference reader gets exactly the labels of the domain, then the type
  and the class IN.
\<close>

theorem dns_query_roundtrip:
  assumes "\<forall>l \<in> set (split_on CHR ''.'' domain). label_ok l"
  shows "take 12 (build_dns_query qid domain qtype) =
           [be_hi qid, be_lo qid, 1, 0, 0, 1, 0, 0, 0, 0, 0, 0] \<and>
         (\<exists>labels. decode_labels (length domain + 2) (drop 12 (build_dns_query qid domain qtype)) =
             Some (labels, [be_hi qtype, be_lo qtype, 0, 1]) \<and> join ''.'' labels = domain)"
proof -
  have hd: "to_be_bytes 0x0100 = [1, 0]" "to_be_bytes 1 = [0, 1]" "to_be_bytes 0 = [0, 0]"
    by (simp_all add: to_be_bytes_def be_hi_def be_lo_def)
  have split: "length (split_by p xs) \<le> Suc (length xs)" for p and xs :: string
    by (induction xs) (auto split: list.splits)
  have "decode_labels (length domain + 2)
      (encode_labels (split_on CHR ''.'' domain) @ 0 # to_be_bytes qtype @ [0, 1]) =
      Some (split_on CHR ''.'' domain, to_be_bytes qtype @ [0, 1])"
    using assms split [of "\<lambda>x. x = CHR ''.''" domain] by (intro decode_encode_labels) auto
  then show ?thesis
    using join_split_on [of "CHR ''.''" domain]
    by (simp add: build_dns_query_def encode_domain_name_def hd)
      (simp add: to_be_bytes_def)
qed

theorem dns_query_roundtrip_witness:
  "take 12 (build_dns_query 0x1234 ''api.github.com'' 28) = [0x12, 0x34, 1, 0, 0, 1, 0, 0, 0, 0, 0, 0]"
  using dns_query_roundtrip [where domain = "''api.github.com''" and qid = "0x1234" and qtype = 28]
  by (simp add: label_ok_def be_hi_def be_lo_def)

section \<open>Parsing of responses\<close>

text \<open>
  A reference encoder of responses: the question, then one record for each answer whose name
  is a compression pointer, as servers send them. An answer is a time to live (four bytes)
  and an address.
\<close>

datatype answer = Answer byte byte byte byte ip_addr

fun answer_ip :: "answer \<Rightarrow> ip_addr" where
  "answer_ip (Answer t1 t2 t3 t4 ip) = ip"

fun ip_rdata :: "ip_addr \<Rightarrow> byte list" where
  "ip_rdata (V4 a b c d) = [a, b, c, d]"
| "ip_rdata (V6 a b c d e f g h) = concat (map to_be_bytes [a, b, c, d, e, f, g, h])"

fun rr_bytes :: "answer \<Rightarrow> byte list" where
  "rr_bytes (Answer t1 t2 t3 t4 ip) =
     [0xC0, 0x0C, 0, (if is_ipv4 ip then 1 else 28), 0, 1, t1, t2, t3, t4,
      0, (if is_ipv4 ip then 4 else 16)] @ ip_rdata ip"

definition response_bytes :: "16 word \<Rightarrow> 16 word \<Rightarrow> string list \<Rightarrow> 16 word \<Rightarrow> answer list \<Rightarrow> byte list" where
  "response_bytes qid flags labels qtype answers =
     to_be_bytes qid @ to_be_bytes flags @ to_be_bytes 1 @ to_be_bytes (word_of_nat (length answers))
     @ to_be_bytes 0 @ to_be_bytes 0
     @ encode_labels labels @ 0 # to_be_bytes qtype @ to_be_bytes 1
     @ concat (map rr_bytes answers)"

lemma nth_at: "(pre @ xs) ! (length pre + n) = xs ! n" "(pre @ xs) ! length pre = xs ! 0"
  by (simp_all add: nth_append)

lemma length_rr_bytes: "length (rr_bytes a) = (if is_ipv4 (answer_ip a) then 16 else 28)"
  by (cases a; cases "answer_ip a") (auto simp: to_be_bytes_def)

lemma read_rr:
  assumes "data = pre @ rr_bytes (Answer t1 t2 t3 t4 ip) @ post" and "offset = length pre"
  shows "data ! offset = 0xC0"
    "u16_be (data ! (offset + 2)) (data ! (offset + 3)) = (if is_ipv4 ip then 1 else 28)"
    "unat (u16_be (data ! (offset + 10)) (data ! (offset + 11))) = (if is_ipv4 ip then 4 else 16)"
    "is_ipv4 ip \<Longrightarrow> read_v4 data (offset + 12) = ip"
    "\<not> is_ipv4 ip \<Longrightarrow> read_v6 data (offset + 12) = ip"
  using assms
  by (cases ip; simp add: nth_at read_v4_def read_v6_def to_be_bytes_def nth_append
      del: append_assoc)+

lemma parse_rr:
  assumes "data = pre @ rr_bytes a @ post"
  shows "parse_answers data (Suc n) (length pre) ips =
    parse_answers data n (length (pre @ rr_bytes a)) (ips @ [answer_ip a])"
proof -
  obtain t1 t2 t3 t4 ip where a: "a = Answer t1 t2 t3 t4 ip" by (cases a)
  note rr = read_rr [OF assms [unfolded a] refl]
  have len: "length data \<ge> length pre + (if is_ipv4 ip then 16 else 28)"
    "length (rr_bytes a) = (if is_ipv4 ip then 16 else 28)"
    using length_rr_bytes [of a] by (simp_all add: assms a)
  have ix: "length pre + 2 + 1 = length pre + 3" "length pre + 2 + 8 = length pre + 10"
    "length pre + 2 + 9 = length pre + 11" "length pre + 2 + 10 = length pre + 12"
    by simp_all
  have c: "data ! length pre AND 0xC0 = 0xC0" by (simp add: rr(1))
  have no: "(length data < length pre + 12) = False" using len(1) by (simp split: if_splits)
  have dist: "((28 :: 16 word) = 1) = False" "((1 :: 16 word) = 28) = False" by simp_all
  show ?thesis
  proof (cases "is_ipv4 ip")
    case True
    with len have "(length pre + 12 + 4 \<le> length data) = True"
      "length pre + 12 + 4 = length (pre @ rr_bytes a)" by simp_all
    with True rr(2,3) rr(4) [OF True] show ?thesis
      by (simp only: parse_answers.simps Let_def c no ix if_True if_False simp_thms dist a answer_ip.simps)
  next
    case False
    with len have "(length pre + 12 + 16 \<le> length data) = True"
      "length pre + 12 + 16 = length (pre @ rr_bytes a)" by simp_all
    with False rr(2,3) rr(5) [OF False] show ?thesis
      by (simp only: parse_answers.simps Let_def c no ix if_True if_False simp_thms dist a answer_ip.simps)
  qed
qed

lemma parse_rrs:
  "data = pre @ concat (map rr_bytes as) \<Longrightarrow>
   parse_answers data (length as) (length pre) ips = Ok (ips @ map answer_ip as)"
proof (induction as arbitrary: pre ips)
  case Nil
  then show ?case by simp
next
  case (Cons a as)
  have "parse_answers data (length (a # as)) (length pre) ips =
      parse_answers data (length as) (length (pre @ rr_bytes a)) (ips @ [answer_ip a])"
    using parse_rr [of data pre a "concat (map rr_bytes as)" "length as" ips] Cons.prems by simp
  also have "\<dots> = Ok ((ips @ [answer_ip a]) @ map answer_ip as)"
    using Cons.prems by (intro Cons.IH) simp
  finally show ?case by simp
qed



text \<open>
  The parser trusts its input: a response whose record has a name that is spelled
  out and whose first label claims to reach past the end of the message panics, whatever the
  other bytes are. With \<open>panic = "abort"\<close> a server that answers so ends the process.
\<close>

theorem parse_response_panics:
  assumes "length hdr = 12" and "hdr ! 3 AND 0x0F = 0" and "u16_be (hdr ! 6) (hdr ! 7) \<noteq> 0"
    and "length question = 4"
    and "l \<noteq> 0" and "l AND 0xC0 \<noteq> 0xC0"
    and "11 \<le> length rest" and "length rest \<le> unat l"
  shows "parse_dns_response (hdr @ 0 # question @ l # rest) = Panic"
proof -
  let ?data = "hdr @ 0 # question @ l # rest"
  have l: "?data ! 17 = l" "?data ! 12 = 0" and len: "length ?data = 18 + length rest"
    using assms(1,4) by (simp_all add: nth_append nth_Cons')
  have hd: "?data ! 2 = hdr ! 2" "?data ! 3 = hdr ! 3" "?data ! 6 = hdr ! 6" "?data ! 7 = hdr ! 7"
    using assms(1) by (simp_all add: nth_append)
  obtain n where n: "unat (u16_be (hdr ! 6) (hdr ! 7)) = Suc n"
    using assms(3) by (metis not0_implies_Suc unat_eq_zero)
  have "u16_be a b AND 0x000F = 0" if "b AND 0x0F = 0" for a b
  proof -
    have m: "(0x000F :: 16 word) = mask 4" "(0x0F :: byte) = mask 4" by (simp_all add: mask_eq_decr_exp)
    have "take_bit 4 b = 0" using that by (simp add: m take_bit_eq_mask)
    then have "\<not> bit b n" if "n < 4" for n using that by (metis bit_0_eq bit_take_bit_iff bot_apply bot_bool_def)
    then have "take_bit 4 (u16_be a b) = 0"
      by (intro bit_word_eqI) (auto simp: u16_be_def bit_simps)
    then show ?thesis by (simp add: m take_bit_eq_mask)
  qed
  then have flags: "u16_be (hdr ! 2) (hdr ! 3) AND 0x000F = 0" using assms(2) by blast
  have s12: "skip_labels ?data 12 = 12" using l by (subst skip_labels.simps) simp
  have "skip_labels ?data 17 = skip_labels ?data (17 + unat l + 1)"
    using l len assms(5) by (subst skip_labels.simps) simp
  also have "\<dots> = 17 + unat l + 1"
    using len assms(8) by (subst skip_labels.simps) simp
  finally have s17: "skip_labels ?data 17 = 17 + unat l + 1" .
  have "parse_answers ?data (Suc n) 17 [] = Panic"
    using l(1) len s17 assms(6,7,8) by (simp add: Let_def)
  then show ?thesis
    using len hd n flags s12 by (simp add: parse_dns_response_def Let_def)
qed

theorem parse_response_panics_witness:
  "parse_dns_response ([0, 7, 0x81, 0x80, 0, 1, 0, 1, 0, 0, 0, 0] @ 0 # [0, 1, 0, 1] @ 63 # replicate 11 0)
   = Panic"
  by (rule parse_response_panics) (simp_all add: u16_be_def)

section \<open>Base64 read back\<close>

text \<open>A reference decoder: the position of a character in the table is its six-bit value.\<close>

fun position_of :: "'a \<Rightarrow> 'a list \<Rightarrow> nat" where
  "position_of x [] = 0"
| "position_of x (y # ys) = (if x = y then 0 else Suc (position_of x ys))"

definition b64_value :: "char \<Rightarrow> 32 word" where
  "b64_value c = word_of_nat (position_of c b64_table)"

fun base64_decode :: "string \<Rightarrow> byte list" where
  "base64_decode (p # q # r # s # rest) =
     (let n = push_bit 18 (b64_value p) OR push_bit 12 (b64_value q) OR push_bit 6 (b64_value r)
              OR b64_value s
      in [ucast (drop_bit 16 n), ucast (drop_bit 8 n), ucast n] @ base64_decode rest)"
| "base64_decode [p, q, r] =
     (let n = push_bit 18 (b64_value p) OR push_bit 12 (b64_value q) OR push_bit 6 (b64_value r)
      in [ucast (drop_bit 16 n), ucast (drop_bit 8 n)])"
| "base64_decode [p, q] =
     (let n = push_bit 18 (b64_value p) OR push_bit 12 (b64_value q) in [ucast (drop_bit 16 n)])"
| "base64_decode _ = []"

lemma position_of_nth: "distinct xs \<Longrightarrow> i < length xs \<Longrightarrow> position_of (xs ! i) xs = i"
  by (induction xs arbitrary: i) (auto simp: nth_Cons split: nat.splits)

lemma b64_table_facts: "distinct b64_table" "length b64_table = 64"
  by (simp_all add: b64_table_def)

lemma b64_value_char: "b64_value (b64_char n) = n AND mask 6"
proof -
  have m: "(0x3F :: 32 word) = mask 6" by (simp add: mask_eq_decr_exp)
  have "n AND mask 6 < 2 ^ 6" by (rule and_mask_less') simp
  then have "unat (n AND mask 6) < length b64_table"
    by (simp add: b64_table_facts word_less_nat_alt)
  then show ?thesis
    by (simp add: b64_value_def b64_char_def m position_of_nth b64_table_facts del: mask_eq_decr_exp)
qed

lemma bit_sextet:
  "bit (push_bit k (drop_bit k n AND mask 6)) i \<longleftrightarrow> k \<le> i \<and> i < k + 6 \<and> bit (n :: 32 word) i"
proof (cases "k \<le> i")
  case True
  then obtain j where "i = k + j" by (metis le_add_diff_inverse)
  then show ?thesis by (auto simp: bit_simps dest: bit_imp_le_length)
qed (simp add: bit_simps)

lemma regroup_sextets:
  fixes n :: "32 word"
  shows "push_bit 18 (drop_bit 18 n AND mask 6) OR push_bit 12 (drop_bit 12 n AND mask 6)
      OR push_bit 6 (drop_bit 6 n AND mask 6) OR n AND mask 6 = n AND mask 24" (is ?all)
    and "push_bit 18 (drop_bit 18 n AND mask 6) OR push_bit 12 (drop_bit 12 n AND mask 6)
      OR push_bit 6 (drop_bit 6 n AND mask 6) = n AND mask 24 AND NOT (mask 6)" (is ?three)
    and "push_bit 18 (drop_bit 18 n AND mask 6) OR push_bit 12 (drop_bit 12 n AND mask 6)
      = n AND mask 24 AND NOT (mask 12)" (is ?two)
proof -
  note b = bit_or_iff bit_and_iff bit_not_iff bit_mask_iff bit_sextet
  show ?all by (rule bit_word_eqI) (auto simp: b simp del: push_bit_and)
  show ?three by (rule bit_word_eqI) (auto simp: b simp del: push_bit_and)
  show ?two by (rule bit_word_eqI) (auto simp: b simp del: push_bit_and)
qed

lemma byte_bit_high: "8 \<le> i \<Longrightarrow> \<not> bit (b :: byte) i"
  using bit_imp_le_length by fastforce

lemma byte_of_group:
  fixes a b c :: byte
  defines "n \<equiv> push_bit 16 (ucast a) OR push_bit 8 (ucast b) OR ucast c :: 32 word"
  shows "ucast (drop_bit 16 (n AND mask 24)) = a" "ucast (drop_bit 8 (n AND mask 24)) = b"
    "ucast (n AND mask 24) = c"
    "ucast (drop_bit 16 (n AND mask 24 AND NOT (mask 6))) = a"
    "ucast (drop_bit 8 (n AND mask 24 AND NOT (mask 6))) = b"
    "ucast (drop_bit 16 (n AND mask 24 AND NOT (mask 12))) = a"
  unfolding n_def by (intro bit_word_eqI; force simp: bit_simps byte_bit_high)+

lemma length_base64: "length (base64_encode bs) = (4 * length bs + 2) div 3"
  by (induction bs rule: base64_encode.induct) (simp_all add: Let_def)

lemmas base64_group_simps =
  base64_encode.simps base64_decode.simps Let_def append_Cons append_Nil b64_value_char
  regroup_sextets

text \<open>
  The base64 text of a query decodes to the query, and has no padding: its length
  is the exact one, \<open>ceiling (4 n / 3)\<close>.
\<close>

theorem base64_roundtrip:
  "base64_decode (base64_encode bs) = bs \<and> length (base64_encode bs) = (4 * length bs + 2) div 3"
proof
  show "base64_decode (base64_encode bs) = bs"
  proof (induction bs rule: base64_encode.induct)
    case (1 a b c rest)
    then show ?case by (simp only: base64_group_simps byte_of_group)
  next
    case (2 a b)
    show ?case using byte_of_group(4,5) [of a b 0]
      by (simp only: base64_group_simps unsigned_0 or.right_neutral)
  next
    case (3 a)
    show ?case using byte_of_group(6) [of a 0 0]
      by (simp only: base64_group_simps unsigned_0 or.right_neutral push_bit_of_0)
  qed simp
qed (rule length_base64)

section \<open>Reading a response\<close>

text \<open>The header loop stops after some of the chunks, with the separator read.\<close>

lemma read_header_chunks:
  assumes "\<forall>c \<in> set cs. c \<noteq> []" and "doh_find_header_end (r @ concat cs) \<noteq> None"
  shows "\<exists>cs1 cs2. cs = cs1 @ cs2 \<and> doh_find_header_end (r @ concat cs1) \<noteq> None \<and>
    read_header r (map Chunk cs @ more) = Ok (r @ concat cs1, map Chunk cs2 @ more)"
  using assms
proof (induction cs arbitrary: r)
  case Nil
  then show ?case by (auto simp: read_header.simps)
next
  case (Cons c cs)
  show ?case
  proof (cases "doh_find_header_end r = None")
    case True
    from Cons obtain cs1 cs2 where "cs = cs1 @ cs2"
      "doh_find_header_end ((r @ c) @ concat cs1) \<noteq> None"
      "read_header (r @ c) (map Chunk cs @ more) = Ok ((r @ c) @ concat cs1, map Chunk cs2 @ more)"
      using Cons.IH [of "r @ c"] by auto
    with True Cons.prems(1) show ?thesis
      by (intro exI [of _ "c # cs1"] exI [of _ cs2]) (simp add: read_header.simps [of r])
  next
    case False
    then show ?thesis
      by (intro exI [of _ "[]"] exI [of _ "c # cs"]) (simp add: read_header.simps)
  qed
qed

lemma read_body_chunks:
  "\<forall>c \<in> set cs. c \<noteq> [] \<Longrightarrow>
   read_body (n + length (concat cs)) n r (map Chunk cs @ more) = Ok (r @ concat cs, more)"
proof (induction cs arbitrary: n r)
  case Nil
  then show ?case by (simp add: read_body.simps)
next
  case (Cons c cs)
  then have "c \<noteq> []" by simp
  then show ?case
    using Cons.IH [of "n + length c" "r @ c"] Cons.prems
    by (simp add: read_body.simps [of "n + (length c + length (concat cs))" n] ac_simps)
qed



end
