(* ===== verification/Config.thy ===== *)
theory Config
  imports Prelude
begin

text \<open>
  The configuration (\<open>src/core/config.rs\<close>): one record per section with the defaults of the
  code, the intercept rules and DoH endpoints that are built in, the validation, and loading
  with its two sources. The file system and the TOML parser are parameters; the numbers are
  those of their Rust type (\<open>u16\<close>, \<open>u32\<close>, \<open>u64\<close>), kept as \<^typ>\<open>nat\<close> because the code
  only compares them.
\<close>

section \<open>Default values\<close>

text \<open>The functions that \<open>serde\<close> calls for a missing field and the \<open>Default\<close> implementations share.\<close>

definition default_true :: bool where
  "default_true = True"

definition default_false :: bool where
  "default_false = False"

definition default_proxy_bind :: string where
  "default_proxy_bind = ''127.0.0.1''"

definition default_proxy_port :: nat where
  "default_proxy_port = 2830"

definition default_proxy_max_connections :: nat where
  "default_proxy_max_connections = 0"

definition default_proxy_idle_timeout :: nat where
  "default_proxy_idle_timeout = 300"

definition default_banner_theme :: string where
  "default_banner_theme = ''pink''"

definition default_dns_probe_timeout :: nat where
  "default_dns_probe_timeout = 4"

definition default_dns_max_concurrent :: nat where
  "default_dns_max_concurrent = 32"

definition default_dns_cache_ttl :: nat where
  "default_dns_cache_ttl = 300"

definition default_dns_probe_interval :: nat where
  "default_dns_probe_interval = 300"

definition default_dns_sni_spoof :: string where
  "default_dns_sni_spoof = ''www.baidu.com''"

definition default_dns_connect_timeout :: nat where
  "default_dns_connect_timeout = 5"

definition default_max_cache_entries :: "nat option" where
  "default_max_cache_entries = Some 1000"

definition default_ipv6_failure_threshold :: nat where
  "default_ipv6_failure_threshold = 3"

definition default_ipv6_recovery_secs :: nat where
  "default_ipv6_recovery_secs = 300"

definition default_ipv6_enabled :: bool where
  "default_ipv6_enabled = False"

definition default_cert_key_size :: nat where
  "default_cert_key_size = 4096"

definition default_cert_validity :: nat where
  "default_cert_validity = 7"

definition default_cert_max_cache :: nat where
  "default_cert_max_cache = 1000"

definition default_rules_update_interval :: nat where
  "default_rules_update_interval = 24"

definition default_log_level :: string where
  "default_log_level = ''info''"

definition default_log_file :: string where
  "default_log_file = ''logs/hakimi-hub.log''"

definition default_log_retention :: nat where
  "default_log_retention = 7"

definition default_cache_ttl_days :: nat where
  "default_cache_ttl_days = 30"

definition default_cache_max_size_mb :: nat where
  "default_cache_max_size_mb = 500"

definition default_cache_max_file_size_mb :: nat where
  "default_cache_max_file_size_mb = 10"

lemmas default_values [simp] =
  default_true_def default_false_def default_proxy_bind_def default_proxy_port_def
  default_proxy_max_connections_def default_proxy_idle_timeout_def default_banner_theme_def default_dns_probe_timeout_def
  default_dns_max_concurrent_def default_dns_cache_ttl_def default_dns_probe_interval_def default_dns_sni_spoof_def
  default_dns_connect_timeout_def default_max_cache_entries_def default_ipv6_failure_threshold_def default_ipv6_recovery_secs_def
  default_ipv6_enabled_def default_cert_key_size_def default_cert_validity_def default_cert_max_cache_def
  default_rules_update_interval_def default_log_level_def default_log_file_def default_log_retention_def
  default_cache_ttl_days_def default_cache_max_size_mb_def default_cache_max_file_size_mb_def

section \<open>Intercept rules\<close>

datatype intercept_action =
  Proxy (ia_mirror: string)
  | SniSpoof (ia_sni: string) (ia_real_host: string)
  | Redirect (ia_target: string)
  | Abort bool

record intercept_rule =
  ir_from :: string
  ir_from_pattern :: "string option"
  ir_action :: intercept_action

record intercepts_config =
  ic_rules :: "intercept_rule list"

definition mirror_rule :: "string \<Rightarrow> string \<Rightarrow> intercept_rule" where
  "mirror_rule from pattern =
     \<lparr>ir_from = from, ir_from_pattern = Some pattern, ir_action = Proxy ''v4.gh-proxy.org''\<rparr>"

definition spoof_rule :: "string \<Rightarrow> intercept_rule" where
  "spoof_rule host =
     \<lparr>ir_from = host, ir_from_pattern = None, ir_action = SniSpoof ''www.baidu.com'' host\<rparr>"

definition common_defaults :: intercepts_config where
  "common_defaults = \<lparr>ic_rules =
     [mirror_rule ''github.com'' ''^/[^/]+/[^/]+/releases/download/.*'',
      mirror_rule ''github.com'' ''^/[^/]+/[^/]+/archive/.*'',
      mirror_rule ''codeload.github.com'' ''^/.*'',
      spoof_rule ''github.com'',
      spoof_rule ''api.github.com'',
      spoof_rule ''*.githubassets.com'',
      spoof_rule ''release-assets.githubusercontent.com'',
      spoof_rule ''objects.githubusercontent.com'',
      spoof_rule ''*.githubusercontent.com'',
      spoof_rule ''store.steampowered.com'',
      spoof_rule ''api.steampowered.com'',
      spoof_rule ''login.steampowered.com'',
      spoof_rule ''help.steampowered.com'',
      spoof_rule ''store-points.steampowered.com'',
      spoof_rule ''*.steamstatic.com'',
      spoof_rule ''steamserver.net'',
      spoof_rule ''support.steampowered.com'']\<rparr>"

section \<open>The other sections\<close>

record banner_config =
  bc_theme :: string

definition default_banner :: banner_config where
  "default_banner = \<lparr>bc_theme = default_banner_theme\<rparr>"

record proxy_config =
  pc_bind :: string
  pc_port :: nat
  pc_mitm_enabled :: bool
  pc_max_connections :: nat
  pc_idle_timeout_secs :: nat
  pc_auto_set_system_proxy :: bool

definition default_proxy :: proxy_config where
  "default_proxy =
     \<lparr>pc_bind = default_proxy_bind, pc_port = default_proxy_port, pc_mitm_enabled = default_true,
      pc_max_connections = default_proxy_max_connections, pc_idle_timeout_secs = default_proxy_idle_timeout,
      pc_auto_set_system_proxy = default_true\<rparr>"

record doh_endpoint =
  de_name :: string
  de_url :: string
  de_priority :: nat
  de_trusted :: bool
  de_preset_ip :: "string option"

definition endpoint :: "string \<Rightarrow> string \<Rightarrow> nat \<Rightarrow> bool \<Rightarrow> string \<Rightarrow> doh_endpoint" where
  "endpoint name url priority trusted ip =
     \<lparr>de_name = name, de_url = url, de_priority = priority, de_trusted = trusted,
      de_preset_ip = Some ip\<rparr>"

definition default_doh_endpoints :: "doh_endpoint list" where
  "default_doh_endpoints =
     [endpoint ''tencent-doh'' ''https://doh.pub/dns-query'' 10 False ''119.29.29.29'',
      endpoint ''alidns'' ''https://dns.alidns.com/dns-query'' 11 False ''223.5.5.5'',
      endpoint ''dnspod-backup'' ''https://doh.pub/dns-query'' 12 False ''119.29.29.29'',
      endpoint ''cloudflare-1'' ''https://cloudflare-dns.com/dns-query'' 20 True ''104.16.249.249'',
      endpoint ''cloudflare-2'' ''https://cloudflare-dns.com/dns-query'' 21 True ''104.16.248.249'',
      endpoint ''google-dns-1'' ''https://dns.google/dns-query'' 22 True ''8.8.8.8'',
      endpoint ''google-dns-2'' ''https://dns.google/dns-query'' 23 True ''8.8.4.4'',
      endpoint ''quad9'' ''https://dns.quad9.net/dns-query'' 24 True ''9.9.9.9'']"

record dns_config =
  dc_doh_endpoints :: "doh_endpoint list"
  dc_probe_timeout_secs :: nat
  dc_max_concurrent_probes :: nat
  dc_cache_ttl_secs :: nat
  dc_probe_interval_secs :: nat
  dc_sni_spoof_domain :: string
  dc_connect_timeout_secs :: nat
  dc_max_cache_entries :: "nat option"
  dc_ipv6_failure_threshold :: nat
  dc_ipv6_recovery_secs :: nat
  dc_ipv6_enabled :: bool
  dc_dns_mapping :: "(string, string) assoc"

definition default_dns :: dns_config where
  "default_dns =
     \<lparr>dc_doh_endpoints = default_doh_endpoints, dc_probe_timeout_secs = default_dns_probe_timeout,
      dc_max_concurrent_probes = default_dns_max_concurrent, dc_cache_ttl_secs = default_dns_cache_ttl,
      dc_probe_interval_secs = default_dns_probe_interval, dc_sni_spoof_domain = default_dns_sni_spoof,
      dc_connect_timeout_secs = default_dns_connect_timeout, dc_max_cache_entries = default_max_cache_entries,
      dc_ipv6_failure_threshold = default_ipv6_failure_threshold,
      dc_ipv6_recovery_secs = default_ipv6_recovery_secs, dc_ipv6_enabled = default_ipv6_enabled,
      dc_dns_mapping = []\<rparr>"

record cert_config =
  cc_ca_key_size :: nat
  cc_cert_validity_days :: nat
  cc_max_cache_size :: nat

definition default_cert :: cert_config where
  "default_cert =
     \<lparr>cc_ca_key_size = default_cert_key_size, cc_cert_validity_days = default_cert_validity,
      cc_max_cache_size = default_cert_max_cache\<rparr>"

record rule_source =
  rs_name :: string
  rs_source_type :: string
  rs_url :: string

record rules_config =
  rc_update_interval_hours :: nat
  rc_sources :: "rule_source list"

definition default_rules_sources :: "rule_source list" where
  "default_rules_sources = [\<lparr>rs_name = ''builtin'', rs_source_type = ''builtin'', rs_url = []\<rparr>]"

definition default_rules :: rules_config where
  "default_rules =
     \<lparr>rc_update_interval_hours = default_rules_update_interval, rc_sources = default_rules_sources\<rparr>"

record log_config =
  lc_level :: string
  lc_file :: string
  lc_retention_days :: nat
  lc_json_format :: bool

definition default_log :: log_config where
  "default_log =
     \<lparr>lc_level = default_log_level, lc_file = default_log_file, lc_retention_days = default_log_retention,
      lc_json_format = default_false\<rparr>"

record cache_config =
  xc_enabled :: bool
  xc_ttl_days :: nat
  xc_max_size_mb :: nat
  xc_max_file_size_mb :: nat

definition default_cache :: cache_config where
  "default_cache =
     \<lparr>xc_enabled = default_true, xc_ttl_days = default_cache_ttl_days, xc_max_size_mb = default_cache_max_size_mb,
      xc_max_file_size_mb = default_cache_max_file_size_mb\<rparr>"

section \<open>The whole configuration\<close>

record app_config =
  ac_proxy :: proxy_config
  ac_dns :: dns_config
  ac_cert :: cert_config
  ac_rules :: rules_config
  ac_log :: log_config
  ac_banner :: banner_config
  ac_intercepts :: intercepts_config
  ac_cache :: cache_config

definition default_app :: app_config where
  "default_app = \<lparr>ac_proxy = default_proxy, ac_dns = default_dns, ac_cert = default_cert,
     ac_rules = default_rules, ac_log = default_log, ac_banner = default_banner,
     ac_intercepts = common_defaults, ac_cache = default_cache\<rparr>"

datatype config_error = Unreadable | TomlError | Invalid string

definition validate :: "app_config \<Rightarrow> (config_error, unit) outcome" where
  "validate c =
     (if pc_port (ac_proxy c) = 0 then Err (Invalid ''proxy.port cannot be 0'')
      else if pc_idle_timeout_secs (ac_proxy c) < 10
        then Err (Invalid ''proxy.idle_timeout_secs must be >= 10'')
      else if dc_probe_timeout_secs (ac_dns c) = 0 \<or> dc_probe_timeout_secs (ac_dns c) > 60
        then Err (Invalid ''dns.probe_timeout_secs must be 1-60'')
      else if dc_cache_ttl_secs (ac_dns c) < 30
        then Err (Invalid ''dns.cache_ttl_secs must be >= 30'')
      else if dc_max_concurrent_probes (ac_dns c) = 0
        then Err (Invalid ''dns.max_concurrent_probes cannot be 0'')
      else if cc_ca_key_size (ac_cert c) \<noteq> 2048 \<and> cc_ca_key_size (ac_cert c) \<noteq> 4096
        then Err (Invalid ''cert.ca_key_size must be 2048 or 4096'')
      else if cc_cert_validity_days (ac_cert c) = 0
        then Err (Invalid ''cert.cert_validity_days cannot be 0'')
      else Ok ())"

text \<open>\<open>files\<close> is the file system (a path to its text), \<open>toml\<close> the parser of the toml crate.\<close>

definition load_from_file ::
    "(string \<Rightarrow> string option) \<Rightarrow> (string \<Rightarrow> app_config option) \<Rightarrow> string
     \<Rightarrow> (config_error, app_config) outcome" where
  "load_from_file files toml path =
     (case files path of
        None \<Rightarrow> Err Unreadable
      | Some content \<Rightarrow>
          (case toml content of
             None \<Rightarrow> Err TomlError
           | Some config \<Rightarrow> bind_outcome (validate config) (\<lambda>_. Ok config)))"

definition load_or_default ::
    "(string \<Rightarrow> bool) \<Rightarrow> (string \<Rightarrow> string option) \<Rightarrow> (string \<Rightarrow> app_config option) \<Rightarrow> string
     \<Rightarrow> (config_error, app_config) outcome" where
  "load_or_default exists_file files toml data_dir =
     (let config_path = data_dir @ ''/config.toml''
      in if exists_file config_path then load_from_file files toml config_path
         else Ok default_app)"

section \<open>What a loaded configuration satisfies\<close>

definition valid_config :: "app_config \<Rightarrow> bool" where
  "valid_config c \<longleftrightarrow>
     0 < pc_port (ac_proxy c) \<and> 10 \<le> pc_idle_timeout_secs (ac_proxy c) \<and>
     dc_probe_timeout_secs (ac_dns c) \<in> {1..60} \<and> 30 \<le> dc_cache_ttl_secs (ac_dns c) \<and>
     0 < dc_max_concurrent_probes (ac_dns c) \<and> cc_ca_key_size (ac_cert c) \<in> {2048, 4096} \<and>
     0 < cc_cert_validity_days (ac_cert c)"

lemma validate_ok: "validate c = Ok () \<longleftrightarrow> valid_config c"
  by (auto simp: validate_def valid_config_def)

lemma validate_not_panic: "validate c \<noteq> Panic"
  by (simp add: validate_def)

lemma default_app_valid: "valid_config default_app"
  by (simp add: valid_config_def default_app_def default_proxy_def default_dns_def default_cert_def)

lemma load_from_file_ok:
  "load_from_file files toml path = Ok c \<longleftrightarrow>
   (\<exists>content. files path = Some content \<and> toml content = Some c \<and> valid_config c)"
  by (auto simp: load_from_file_def bind_outcome_eq_Ok validate_ok split: option.splits)

lemma load_from_file_not_panic: "load_from_file files toml path \<noteq> Panic"
  by (auto simp: load_from_file_def bind_outcome_eq_Panic validate_not_panic split: option.splits)

text \<open>
  Loading never panics, and whatever the file holds, a configuration that loading
  gives is in the ranges the rest of the program relies on: a port, an idle timeout of ten
  seconds or more, a probe timeout of 1 to 60 seconds, a cache time of 30 seconds or more, a
  positive number of probes, a key of 2048 or 4096 bits and a positive validity.
\<close>

theorem load_gives_valid:
  "load_or_default exists_file files toml data_dir \<noteq> Panic \<and>
   (load_or_default exists_file files toml data_dir = Ok c \<longrightarrow> valid_config c) \<and>
   (\<not> exists_file (data_dir @ ''/config.toml'') \<longrightarrow>
      load_or_default exists_file files toml data_dir = Ok default_app)"
proof (cases "exists_file (data_dir @ ''/config.toml'')")
  case True
  then show ?thesis
    using load_from_file_not_panic by (auto simp: load_or_default_def load_from_file_ok)
next
  case False
  then show ?thesis using default_app_valid by (auto simp: load_or_default_def)
qed

theorem load_gives_valid_witness:
  "valid_config (default_app\<lparr>ac_proxy := default_proxy\<lparr>pc_port := 8080\<rparr>\<rparr>) \<and>
   load_or_default (\<lambda>_. False) (\<lambda>_. None) (\<lambda>_. None) ''/home/u'' = Ok default_app"
  using load_gives_valid [of "\<lambda>_. True" "\<lambda>_. Some []"
      "\<lambda>_. Some (default_app\<lparr>ac_proxy := default_proxy\<lparr>pc_port := 8080\<rparr>\<rparr>)" "''/home/u''"
      "default_app\<lparr>ac_proxy := default_proxy\<lparr>pc_port := 8080\<rparr>\<rparr>"]
    load_gives_valid [of "\<lambda>_. False" "\<lambda>_. None" "\<lambda>_. None" "''/home/u''"]
  by (simp add: load_or_default_def load_from_file_def validate_def default_app_def
      default_proxy_def default_dns_def default_cert_def)

end
