(* ===== verification/Doh_Client.thy ===== *)
theory Doh_Client
  imports Config Dns_Wire Evictable_Cache
begin

text \<open>
  The DoH client (first half of \<open>src/dns/doh_client.rs\<close>): the pool of TLS connections with its
  index of use, the addresses of the DoH servers, the choice of the endpoints for a domain, and
  the queries, group by group.

  The network is a parameter (\<open>doh_net\<close>): whether a connection can be opened, what it will
  deliver, the random identifiers, and in which order the concurrent queries of the hosts of a
  group come to their end (a \<open>FuturesUnordered\<close> over a \<open>HashMap\<close>). A query of a host is one
  step of the model; the two pool operations it makes are steps of their own in the pool
  properties, where they may be mixed in any order.
\<close>

section \<open>State\<close>

text \<open>
  A connection: the server name its handshake was made with, the requests written so far, and
  what the writes and reads to come will do.
\<close>

record tls_stream =
  ts_host :: string
  ts_sent :: "string list"
  ts_writes :: "bool list"
  ts_reads :: "read_result list"

record pool_entry =
  pe_stream :: tls_stream
  pe_last_used :: nat

record 'l doh_client =
  dh_endpoints :: "doh_endpoint list"
  dh_dns_mapping :: "(string, string) assoc"
  dh_preresolved :: "(string, ip_addr list) assoc"
  dh_pool :: "(string, pool_entry) assoc"
  dh_lru :: 'l

record doh_net =
  dn_connect :: "ip_addr \<Rightarrow> string \<Rightarrow> (bool list \<times> read_result list) option"
  dn_qid :: "string \<Rightarrow> nat \<Rightarrow> 16 word"
  dn_arrange :: "(string, doh_endpoint list) assoc \<Rightarrow> (string, doh_endpoint list) assoc"
  dn_acquire_time :: "string \<Rightarrow> nat"
  dn_return_time :: "string \<Rightarrow> nat"

definition CONNECTION_POOL_TTL :: nat where
  "CONNECTION_POOL_TTL = secs 60"

definition MAX_POOL_SIZE :: nat where
  "MAX_POOL_SIZE = 50"

definition doh_new :: "(string, 'l) lru_ops \<Rightarrow> doh_endpoint list \<Rightarrow> (string, string) assoc
    \<Rightarrow> 'l doh_client" where
  "doh_new ops endpoints dns_mapping =
     \<lparr>dh_endpoints = endpoints, dh_dns_mapping = dns_mapping, dh_preresolved = [],
      dh_pool = [], dh_lru = lru_unbounded ops\<rparr>"

section \<open>The connection pool\<close>

definition pool_key :: "string \<Rightarrow> string" where
  "pool_key host = host @ '':443''"

definition evict_oldest_connection ::
    "(string, 'l) lru_ops \<Rightarrow> 'l doh_client \<Rightarrow> 'l doh_client" where
  "evict_oldest_connection ops d =
     (case lru_pop_lru ops (dh_lru d) of
        None \<Rightarrow> d
      | Some (key, l) \<Rightarrow> d\<lparr>dh_lru := l, dh_pool := AList.delete key (dh_pool d)\<rparr>)"

definition acquire_connection ::
    "(string, 'l) lru_ops \<Rightarrow> nat \<Rightarrow> string \<Rightarrow> 'l doh_client \<Rightarrow> tls_stream option \<times> 'l doh_client"
where
  "acquire_connection ops now host d =
     (case map_of (dh_pool d) (pool_key host) of
        None \<Rightarrow> (None, d)
      | Some e \<Rightarrow>
          let d' = d\<lparr>dh_pool := AList.delete (pool_key host) (dh_pool d),
                     dh_lru := lru_pop ops (pool_key host) (dh_lru d)\<rparr>
          in if CONNECTION_POOL_TTL \<le> now - pe_last_used e then (None, d')
             else (Some (pe_stream e), d'))"

text \<open>The eviction loop of \<open>return_connection\<close>; its first argument counts the attempts left.\<close>

fun make_room :: "nat \<Rightarrow> (string, 'l) lru_ops \<Rightarrow> 'l doh_client \<Rightarrow> 'l doh_client" where
  "make_room 0 ops d = d"
| "make_room (Suc n) ops d =
     (if MAX_POOL_SIZE \<le> length (dh_pool d) then
        let d' = evict_oldest_connection ops d
        in if dh_pool d' = [] then d' else make_room n ops d'
      else d)"

definition return_connection ::
    "(string, 'l) lru_ops \<Rightarrow> nat \<Rightarrow> string \<Rightarrow> tls_stream \<Rightarrow> 'l doh_client \<Rightarrow> 'l doh_client" where
  "return_connection ops now host stream d =
     (if map_of (dh_pool d) (pool_key host) \<noteq> None then d
      else
        let d' = make_room (MAX_POOL_SIZE + 1) ops d
        in if length (dh_pool d') < MAX_POOL_SIZE then
             (case map_of (dh_pool d') (pool_key host) of
                Some _ \<Rightarrow> d'
              | None \<Rightarrow>
                  d'\<lparr>dh_pool := AList.update (pool_key host)
                       \<lparr>pe_stream = stream, pe_last_used = now\<rparr> (dh_pool d'),
                     dh_lru := lru_put ops (pool_key host) (dh_lru d')\<rparr>)
           else d')"

section \<open>Addresses of the servers\<close>

definition extract_host :: "string \<Rightarrow> string option" where
  "extract_host url =
     (case (case strip_prefix url ''https://'' of
              None \<Rightarrow> strip_prefix url ''http://''
            | Some rest \<Rightarrow> Some rest) of
        None \<Rightarrow> None
      | Some without_scheme \<Rightarrow>
          Some (hd (split_on CHR '':'' (hd (split_on CHR ''/'' without_scheme)))))"

text \<open>
  \<open>parse::<IpAddr>\<close>: four decimal numbers up to 255 without leading zeros, or else the text
  form of an IPv6 address, whose reader is the parameter \<open>parse_v6\<close>.
\<close>

definition parse_octet :: "string \<Rightarrow> byte option" where
  "parse_octet s =
     (if s \<noteq> [] \<and> list_all is_digit s \<and> length s \<le> 3 \<and> (hd s \<noteq> CHR ''0'' \<or> length s = 1)
         \<and> digits_val s \<le> 255
      then Some (word_of_nat (digits_val s)) else None)"

definition parse_ipv4 :: "string \<Rightarrow> ip_addr option" where
  "parse_ipv4 s =
     (case map parse_octet (split_on CHR ''.'' s) of
        [Some a, Some b, Some c, Some d] \<Rightarrow> Some (V4 a b c d)
      | _ \<Rightarrow> None)"

definition parse_ip :: "(string \<Rightarrow> ip_addr option) \<Rightarrow> string \<Rightarrow> ip_addr option" where
  "parse_ip parse_v6 s = (case parse_ipv4 s of Some ip \<Rightarrow> Some ip | None \<Rightarrow> parse_v6 s)"

text \<open>
  \<open>system_lookup\<close> is \<open>to_socket_addrs\<close>, the resolver of the operating system; an error of it
  gives no address.
\<close>

definition preresolve_endpoint ::
    "(string \<Rightarrow> ip_addr option) \<Rightarrow> (string \<Rightarrow> ip_addr list option) \<Rightarrow> doh_endpoint
     \<Rightarrow> (string, ip_addr list) assoc \<Rightarrow> (string, ip_addr list) assoc" where
  "preresolve_endpoint parse_v6 system_lookup ep m =
     (case extract_host (de_url ep) of
        None \<Rightarrow> m
      | Some host \<Rightarrow>
          (case Option.bind (de_preset_ip ep) (parse_ip parse_v6) of
             Some ip \<Rightarrow> AList.update host [ip] m
           | None \<Rightarrow>
               let ips = (case system_lookup (host @ '':443'') of None \<Rightarrow> [] | Some xs \<Rightarrow> xs)
               in if ips \<noteq> [] then AList.update host ips m else m))"

definition preresolve_doh_hosts ::
    "(string \<Rightarrow> ip_addr option) \<Rightarrow> (string \<Rightarrow> ip_addr list option) \<Rightarrow> 'l doh_client
     \<Rightarrow> 'l doh_client" where
  "preresolve_doh_hosts parse_v6 system_lookup d =
     d\<lparr>dh_preresolved :=
         fold (preresolve_endpoint parse_v6 system_lookup) (dh_endpoints d) (dh_preresolved d)\<rparr>"

definition get_doh_server_ip :: "'l doh_client \<Rightarrow> string \<Rightarrow> (doh_error, ip_addr) outcome" where
  "get_doh_server_ip d host =
     (case map_of (dh_preresolved d) host of
        Some (ip # _) \<Rightarrow> Ok ip
      | _ \<Rightarrow> Err NoServerIp)"

section \<open>The endpoints for a domain\<close>

text \<open>The second loop goes through the table in its iteration order.\<close>

definition match_dns_mapping :: "'l doh_client \<Rightarrow> string \<Rightarrow> string option" where
  "match_dns_mapping d domain =
     (let domain_lower = to_lowercase domain
      in case map_of (dh_dns_mapping d) domain_lower of
           Some provider \<Rightarrow> Some provider
         | None \<Rightarrow>
             map_option snd (find (\<lambda>(pattern, provider).
               starts_with pattern ''*.'' \<and> ends_with domain_lower (drop 1 pattern))
               (dh_dns_mapping d)))"

definition default_groups :: "doh_endpoint list \<Rightarrow> doh_endpoint list list" where
  "default_groups endpoints =
     (let domestic = sort_key de_priority (filter (\<lambda>e. \<not> de_trusted e) endpoints);
          international = sort_key de_priority (filter de_trusted endpoints);
          core = (if length domestic \<le> 3 then domestic else take 3 domestic);
          backup = (if length domestic \<le> 3 then [] else drop 3 domestic)
      in filter (\<lambda>g. g \<noteq> []) [core, backup, international])"

definition select_endpoints :: "'l doh_client \<Rightarrow> string \<Rightarrow> doh_endpoint list list" where
  "select_endpoints d domain =
     (case match_dns_mapping d domain of
        Some name \<Rightarrow>
          let matched = filter (\<lambda>e. de_name e = name) (dh_endpoints d)
          in if matched = [] then default_groups (dh_endpoints d) else [matched]
      | None \<Rightarrow> default_groups (dh_endpoints d))"

section \<open>Queries\<close>

definition create_new_connection ::
    "doh_net \<Rightarrow> string \<Rightarrow> 'l doh_client \<Rightarrow> (doh_error, tls_stream) outcome" where
  "create_new_connection net host d =
     bind_outcome (get_doh_server_ip d host) (\<lambda>ip.
       case dn_connect net ip host of
         None \<Rightarrow> Err ConnectErr
       | Some (ws, rs) \<Rightarrow> Ok \<lparr>ts_host = host, ts_sent = [], ts_writes = ws, ts_reads = rs\<rparr>)"

text \<open>One request on a connection, and what is left of the connection after it.\<close>

definition request_on ::
    "string \<Rightarrow> byte list \<Rightarrow> tls_stream \<Rightarrow> (doh_error, byte list) outcome \<times> tls_stream" where
  "request_on host query s =
     (let s' = s\<lparr>ts_sent := ts_sent s @ [doh_request host query], ts_writes := tl (ts_writes s)\<rparr>
      in case send_doh_request (ts_writes s \<noteq> [] \<and> hd (ts_writes s)) (ts_reads s) of
           Ok (body, rs) \<Rightarrow> (Ok body, s'\<lparr>ts_reads := rs\<rparr>)
         | Err e \<Rightarrow> (Err e, s')
         | Panic \<Rightarrow> (Panic, s'))"

definition append_answers ::
    "ip_addr list \<Rightarrow> byte list \<Rightarrow> (doh_error, ip_addr list) outcome" where
  "append_answers ips body =
     (case parse_dns_response body of
        Ok new_ips \<Rightarrow> Ok (ips @ new_ips)
      | Err _ \<Rightarrow> Ok ips
      | Panic \<Rightarrow> Panic)"

definition execute_queries ::
    "doh_net \<Rightarrow> tls_stream \<Rightarrow> string \<Rightarrow> string
     \<Rightarrow> (doh_error, ip_addr list) outcome \<times> tls_stream" where
  "execute_queries net s host domain =
     (let n = length (ts_sent s);
          query_a = build_dns_query (dn_qid net host n) domain 1;
          query_aaaa = build_dns_query (dn_qid net host (n + 1)) domain 0x1C;
          (r1, s1) = request_on host query_a s
      in case bind_outcome r1 (append_answers []) of
           Ok ips \<Rightarrow>
             let (r2, s2) = request_on host query_aaaa s1
             in (bind_outcome r2 (append_answers ips), s2)
         | Err e \<Rightarrow> (Err e, s1)
         | Panic \<Rightarrow> (Panic, s1))"

text \<open>\<open>if seen.insert(ip) { ips.push(ip) }\<close> for each new address.\<close>

definition merge_new :: "'a list \<Rightarrow> 'a list \<Rightarrow> 'a list" where
  "merge_new xs ys = foldl (\<lambda>acc y. if y \<in> set acc then acc else acc @ [y]) xs ys"

text \<open>The loop over the endpoints of a host; the flag of the result is \<open>connection_ok\<close>.\<close>

fun host_loop ::
    "doh_net \<Rightarrow> string \<Rightarrow> string \<Rightarrow> doh_endpoint list \<Rightarrow> tls_stream \<Rightarrow> ip_addr list
     \<Rightarrow> string list \<Rightarrow> (doh_error, ip_addr list \<times> string list \<times> bool) outcome \<times> tls_stream" where
  "host_loop net host domain [] s ips servers = (Ok (ips, servers, True), s)"
| "host_loop net host domain (ep # eps) s ips servers =
     (case execute_queries net s host domain of
        (Ok endpoint_ips, s') \<Rightarrow>
          host_loop net host domain eps s' (merge_new ips endpoint_ips)
            (if endpoint_ips = [] then servers else servers @ [de_name ep])
      | (Err e, s') \<Rightarrow> (Ok (ips, servers, False), s')
      | (Panic, s') \<Rightarrow> (Panic, s'))"

definition connection_for ::
    "(string, 'l) lru_ops \<Rightarrow> doh_net \<Rightarrow> string \<Rightarrow> 'l doh_client
     \<Rightarrow> (doh_error, tls_stream) outcome \<times> 'l doh_client" where
  "connection_for ops net host d =
     (case acquire_connection ops (dn_acquire_time net host) host d of
        (Some s, d') \<Rightarrow> (Ok s, d')
      | (None, d') \<Rightarrow> (create_new_connection net host d', d'))"

definition query_host_grouped ::
    "(string, 'l) lru_ops \<Rightarrow> doh_net \<Rightarrow> string \<Rightarrow> string \<Rightarrow> doh_endpoint list \<Rightarrow> 'l doh_client
     \<Rightarrow> (doh_error, ip_addr list \<times> string list) outcome \<times> 'l doh_client" where
  "query_host_grouped ops net domain host endpoints d =
     (case connection_for ops net host d of
        (Ok s, d1) \<Rightarrow>
          (case host_loop net host domain endpoints s [] [] of
             (Ok (ips, servers, connection_ok), s') \<Rightarrow>
               (Ok (ips, servers),
                if connection_ok then return_connection ops (dn_return_time net host) host s' d1
                else d1)
           | (Err e, s') \<Rightarrow> (Err e, d1)
           | (Panic, s') \<Rightarrow> (Panic, d1))
      | (Err e, d1) \<Rightarrow> (Err e, d1)
      | (Panic, d1) \<Rightarrow> (Panic, d1))"

definition group_by_host :: "doh_endpoint list \<Rightarrow> (string, doh_endpoint list) assoc" where
  "group_by_host endpoints =
     foldl (\<lambda>m ep. case extract_host (de_url ep) of
                     None \<Rightarrow> m
                   | Some host \<Rightarrow>
                       AList.update host
                         ((case map_of m host of None \<Rightarrow> [] | Some eps \<Rightarrow> eps) @ [ep]) m)
       [] endpoints"

fun collect_hosts ::
    "(string, 'l) lru_ops \<Rightarrow> doh_net \<Rightarrow> string \<Rightarrow> (string, doh_endpoint list) assoc
     \<Rightarrow> ip_addr list \<Rightarrow> string list \<Rightarrow> 'l doh_client
     \<Rightarrow> (doh_error, ip_addr list \<times> string list) outcome \<times> 'l doh_client" where
  "collect_hosts ops net domain [] ips servers d = (Ok (ips, servers), d)"
| "collect_hosts ops net domain ((host, eps) # hosts) ips servers d =
     (case query_host_grouped ops net domain host eps d of
        (Ok (host_ips, host_servers), d') \<Rightarrow>
          collect_hosts ops net domain hosts (merge_new ips host_ips) (servers @ host_servers) d'
      | (Err e, d') \<Rightarrow> collect_hosts ops net domain hosts ips servers d'
      | (Panic, d') \<Rightarrow> (Panic, d'))"

definition query_group ::
    "(string, 'l) lru_ops \<Rightarrow> doh_net \<Rightarrow> doh_endpoint list \<Rightarrow> string \<Rightarrow> 'l doh_client
     \<Rightarrow> (doh_error, ip_addr list \<times> string list) outcome \<times> 'l doh_client" where
  "query_group ops net endpoints domain d =
     collect_hosts ops net domain (dn_arrange net (group_by_host endpoints)) [] [] d"

record doh_resolve_result =
  dr_ips :: "ip_addr list"
  dr_doh_servers :: "string list"

fun resolve_groups ::
    "(string, 'l) lru_ops \<Rightarrow> doh_net \<Rightarrow> doh_endpoint list list \<Rightarrow> string \<Rightarrow> ip_addr list
     \<Rightarrow> string list \<Rightarrow> 'l doh_client \<Rightarrow> (doh_error, doh_resolve_result) outcome \<times> 'l doh_client" where
  "resolve_groups ops net [] domain all_ips servers d =
     (if all_ips = [] then Err NoIps else Ok \<lparr>dr_ips = all_ips, dr_doh_servers = servers\<rparr>, d)"
| "resolve_groups ops net (endpoints # groups) domain all_ips servers d =
     (if endpoints = [] then resolve_groups ops net groups domain all_ips servers d
      else case query_group ops net endpoints domain d of
             (Ok (ips, new_servers), d') \<Rightarrow>
               let all' = merge_new all_ips ips
               in if all' \<noteq> [] then resolve_groups ops net [] domain all' (servers @ new_servers) d'
                  else resolve_groups ops net groups domain all' (servers @ new_servers) d'
           | (Err e, d') \<Rightarrow> (Err e, d')
           | (Panic, d') \<Rightarrow> (Panic, d'))"

definition doh_resolve_with_groups ::
    "(string, 'l) lru_ops \<Rightarrow> doh_net \<Rightarrow> doh_endpoint list list \<Rightarrow> string \<Rightarrow> 'l doh_client
     \<Rightarrow> (doh_error, doh_resolve_result) outcome \<times> 'l doh_client" where
  "doh_resolve_with_groups ops net groups domain d = resolve_groups ops net groups domain [] [] d"

definition doh_resolve ::
    "(string, 'l) lru_ops \<Rightarrow> doh_net \<Rightarrow> string \<Rightarrow> 'l doh_client
     \<Rightarrow> (doh_error, doh_resolve_result) outcome \<times> 'l doh_client" where
  "doh_resolve ops net domain d =
     doh_resolve_with_groups ops net (select_endpoints d domain) domain d"

definition doh_resolve_international ::
    "(string, 'l) lru_ops \<Rightarrow> doh_net \<Rightarrow> string \<Rightarrow> 'l doh_client
     \<Rightarrow> (doh_error, doh_resolve_result) outcome \<times> 'l doh_client" where
  "doh_resolve_international ops net domain d =
     (let trusted = filter de_trusted (dh_endpoints d)
      in if trusted = [] then (Err NoTrusted, d)
         else doh_resolve_with_groups ops net [sort_key de_priority trusted] domain d)"

definition query_single_host ::
    "(string, 'l) lru_ops \<Rightarrow> doh_net \<Rightarrow> string \<Rightarrow> string \<Rightarrow> 'l doh_client
     \<Rightarrow> (doh_error, ip_addr list) outcome \<times> 'l doh_client" where
  "query_single_host ops net host domain d =
     (case connection_for ops net host d of
        (Ok s, d1) \<Rightarrow>
          (case execute_queries net s host domain of
             (Ok ips, s') \<Rightarrow>
               (Ok ips, return_connection ops (dn_return_time net host) host s' d1)
           | (Err e, s') \<Rightarrow> (Err e, d1)
           | (Panic, s') \<Rightarrow> (Panic, d1))
      | (Err e, d1) \<Rightarrow> (Err e, d1)
      | (Panic, d1) \<Rightarrow> (Panic, d1))"

section \<open>The pool under any use\<close>

definition pool_inv :: "('l \<Rightarrow> string list) \<Rightarrow> 'l doh_client \<Rightarrow> bool" where
  "pool_inv order d \<longleftrightarrow>
     distinct (keys_of (dh_pool d)) \<and> distinct (order (dh_lru d)) \<and>
     set (order (dh_lru d)) = set (keys_of (dh_pool d)) \<and>
     length (dh_pool d) \<le> MAX_POOL_SIZE \<and>
     (\<forall>(k, e) \<in> set (dh_pool d). k = pool_key (ts_host (pe_stream e)))"

text \<open>A connection goes back under the name it was opened with, as the two callers do.\<close>

datatype pool_op = Acquire nat string | Return nat tls_stream

fun pool_step :: "(string, 'l) lru_ops \<Rightarrow> pool_op \<Rightarrow> 'l doh_client \<Rightarrow> 'l doh_client" where
  "pool_step ops (Acquire now host) d = snd (acquire_connection ops now host d)"
| "pool_step ops (Return now s) d = return_connection ops now (ts_host s) s d"

lemma pool_key_inj [simp]: "pool_key h = pool_key h' \<longleftrightarrow> h = h'"
  by (simp add: pool_key_def)

lemma set_delete_subset: "set (AList.delete k m) \<subseteq> set m"
  by (simp add: AList_delete_filter)

lemma length_keys_card: "distinct (keys_of m) \<Longrightarrow> length m = card (set (keys_of m))"
  by (metis distinct_card length_keys_of)

lemma set_update_pairs: "set (AList.update k v m) \<subseteq> insert (k, v) (set m)"
  by (induction m) auto

text \<open>The index of use over the keys of the pool.\<close>

locale doh_pool = lru_index ops order
  for ops :: "(string, 'l) lru_ops" and order :: "'l \<Rightarrow> string list"
begin

lemma pool_inv_new: "pool_inv order (doh_new ops eps m)"
  by (simp add: pool_inv_def doh_new_def order_unbounded keys_of_def)

lemma pool_inv_remove:
  "pool_inv order d \<Longrightarrow>
   pool_inv order (d\<lparr>dh_pool := AList.delete k (dh_pool d), dh_lru := lru_pop ops k (dh_lru d)\<rparr>)"
  using set_delete_subset [of k "dh_pool d"] AList.length_delete_le [of k "dh_pool d"]
  by (auto simp: pool_inv_def order_pop assoc_simps distinct_removeAll)

lemma pool_inv_acquire: "pool_inv order d \<Longrightarrow> pool_inv order (snd (acquire_connection ops now h d))"
  using pool_inv_remove by (auto simp: acquire_connection_def Let_def split: option.splits)

lemma evict_oldest:
  assumes "pool_inv order d"
  shows "pool_inv order (evict_oldest_connection ops d)"
    and "dh_pool d \<noteq> [] \<Longrightarrow> length (dh_pool (evict_oldest_connection ops d)) < length (dh_pool d)"
    and "set (keys_of (dh_pool (evict_oldest_connection ops d))) \<subseteq> set (keys_of (dh_pool d))"
proof -
  let ?d = "evict_oldest_connection ops d"
  show "pool_inv order ?d"
  proof (cases "lru_pop_lru ops (dh_lru d)")
    case None
    with assms show ?thesis by (simp add: evict_oldest_connection_def)
  next
    case (Some p)
    obtain k l where p: "p = (k, l)" by (cases p)
    have "order (dh_lru d) = k # order l" using pop_lru_Some Some p by blast
    then show ?thesis
      using assms Some p set_delete_subset [of k "dh_pool d"] AList.length_delete_le [of k "dh_pool d"]
      by (auto simp: evict_oldest_connection_def pool_inv_def assoc_simps distinct_removeAll)
  qed
  show "set (keys_of (dh_pool ?d)) \<subseteq> set (keys_of (dh_pool d))"
    by (auto simp: evict_oldest_connection_def assoc_simps split: option.splits)
  assume ne: "dh_pool d \<noteq> []"
  have "set (order (dh_lru d)) \<noteq> {}" using assms ne by (auto simp: pool_inv_def keys_of_def)
  then obtain k l where pop: "lru_pop_lru ops (dh_lru d) = Some (k, l)"
    using pop_lru_None by (cases "lru_pop_lru ops (dh_lru d)") auto
  then have "k \<in> set (keys_of (dh_pool d))"
    using pop_lru_Some [OF pop] assms by (auto simp: pool_inv_def)
  then have "length (keys_of (AList.delete k (dh_pool d))) < length (keys_of (dh_pool d))"
    unfolding keys_of_delete by (rule length_removeAll_less)
  then show "length (dh_pool ?d) < length (dh_pool d)"
    by (simp add: evict_oldest_connection_def pop)
qed

lemma make_room_frees:
  assumes "pool_inv order d"
  shows "pool_inv order (make_room (Suc n) ops d) \<and>
    length (dh_pool (make_room (Suc n) ops d)) < MAX_POOL_SIZE \<and>
    set (keys_of (dh_pool (make_room (Suc n) ops d))) \<subseteq> set (keys_of (dh_pool d))"
proof (cases "MAX_POOL_SIZE \<le> length (dh_pool d)")
  case True
  then have ne: "dh_pool d \<noteq> []" by (auto simp: MAX_POOL_SIZE_def)
  let ?d = "evict_oldest_connection ops d"
  have "length (dh_pool ?d) < MAX_POOL_SIZE"
    using evict_oldest(2) [OF assms ne] assms by (simp add: pool_inv_def)
  moreover have "make_room n ops ?d = ?d" using calculation by (cases n) simp_all
  ultimately show ?thesis
    using True evict_oldest(1,3) [OF assms] by (simp add: Let_def keys_of_Nil)
qed (use assms in simp)

lemma pool_inv_put:
  assumes "pool_inv order d" and "length (dh_pool d) < MAX_POOL_SIZE"
    and "k = pool_key (ts_host (pe_stream e))"
  shows "pool_inv order
    (d\<lparr>dh_pool := AList.update k e (dh_pool d), dh_lru := lru_put ops k (dh_lru d)\<rparr>)"
proof -
  have "length (AList.update k e m) \<le> Suc (length m)" for m
    by (induction m) auto
  with assms(2) have "length (AList.update k e (dh_pool d)) \<le> MAX_POOL_SIZE"
    by (metis Suc_leI le_trans)
  moreover have "\<forall>(k, e) \<in> set (AList.update k e (dh_pool d)). k = pool_key (ts_host (pe_stream e))"
    using set_update_pairs [of k e "dh_pool d"] assms(1,3) unfolding pool_inv_def by blast
  ultimately show ?thesis
    using assms(1) by (simp add: pool_inv_def order_put assoc_simps distinct_removeAll)
qed

lemma pool_inv_return:
  assumes "pool_inv order d"
  shows "pool_inv order (return_connection ops now (ts_host s) s d)"
proof -
  let ?d = "make_room (MAX_POOL_SIZE + 1) ops d"
  have room: "pool_inv order ?d" "length (dh_pool ?d) < MAX_POOL_SIZE"
    using make_room_frees [OF assms, of MAX_POOL_SIZE] by simp_all
  then show ?thesis
    using assms pool_inv_put [OF room, of _ "\<lparr>pe_stream = s, pe_last_used = now\<rparr>"]
    by (simp add: return_connection_def Let_def del: make_room.simps split: option.splits)
qed

lemma pool_inv_run: "pool_inv order d \<Longrightarrow> pool_inv order (fold (pool_step ops) as d)"
proof (induction as arbitrary: d)
  case (Cons a as)
  then have "pool_inv order (pool_step ops a d)"
    by (cases a) (simp_all add: pool_inv_acquire pool_inv_return)
  with Cons.IH show ?case by simp
qed simp

end

interpretation list_doh_pool: doh_pool list_lru_ops "\<lambda>l. l"
  by (rule doh_pool.intro) (rule list_lru.lru_index_axioms)

lemma acquired_host:
  assumes "pool_inv order d" and "fst (acquire_connection ops now host d) = Some s"
  shows "ts_host s = host"
proof -
  obtain e where "map_of (dh_pool d) (pool_key host) = Some e" "s = pe_stream e"
    using assms(2) by (auto simp: acquire_connection_def Let_def split: option.splits if_splits)
  with assms(1) show ?thesis by (fastforce simp: pool_inv_def dest: map_of_SomeD)
qed


lemma MAX_POOL_SIZE_pos: "0 < MAX_POOL_SIZE"
  by (simp add: MAX_POOL_SIZE_def)


section \<open>The groups\<close>

text \<open>
  Without a mapping of its own a domain is asked for at three levels at most: the
  levels, one after the other, are all domestic endpoints by priority and then all trusted
  (international) endpoints by priority; no level is empty, and no level mixes the two kinds.
\<close>

theorem domestic_before_international:
  assumes "match_dns_mapping d domain = None"
  shows "concat (select_endpoints d domain) =
      sort_key de_priority (filter (\<lambda>e. \<not> de_trusted e) (dh_endpoints d)) @
      sort_key de_priority (filter de_trusted (dh_endpoints d)) \<and>
    length (select_endpoints d domain) \<le> 3 \<and>
    (\<forall>g \<in> set (select_endpoints d domain). g \<noteq> [] \<and>
       ((\<forall>e \<in> set g. de_trusted e) \<or> (\<forall>e \<in> set g. \<not> de_trusted e)))"
proof -
  have concat_filter: "concat (filter (\<lambda>g. g \<noteq> []) gs) = concat gs" for gs :: "'b list list"
    by (induction gs) auto
  have "concat (default_groups eps) = sort_key de_priority (filter (\<lambda>e. \<not> de_trusted e) eps) @
      sort_key de_priority (filter de_trusted eps)" for eps
    by (simp add: default_groups_def Let_def concat_filter del: filter.simps)
  moreover have "length (default_groups eps) \<le> 3" for eps
    unfolding default_groups_def Let_def by (rule order_trans [OF length_filter_le]) simp
  moreover have "\<forall>g \<in> set (default_groups eps). g \<noteq> [] \<and>
      ((\<forall>e \<in> set g. de_trusted e) \<or> (\<forall>e \<in> set g. \<not> de_trusted e))" for eps
    by (auto simp: default_groups_def Let_def dest: in_set_takeD in_set_dropD)
  ultimately show ?thesis using assms by (simp add: select_endpoints_def)
qed

theorem domestic_before_international_witness:
  "length (select_endpoints (doh_new list_lru_ops default_doh_endpoints []) ''github.com'') \<le> 3 \<and>
   concat (select_endpoints (doh_new list_lru_ops default_doh_endpoints []) ''github.com'') =
     default_doh_endpoints"
  using domestic_before_international
    [of "doh_new list_lru_ops default_doh_endpoints []" "''github.com''"]
  by (simp add: match_dns_mapping_def doh_new_def default_doh_endpoints_def endpoint_def)

section \<open>Addresses of the servers\<close>

lemma preresolve_keeps:
  "\<forall>ep \<in> set eps. extract_host (de_url ep) \<noteq> Some host \<Longrightarrow>
   map_of (fold (preresolve_endpoint v6 lookup) eps m) host = map_of m host"
proof (induction eps arbitrary: m)
  case (Cons ep eps)
  then have "map_of (preresolve_endpoint v6 lookup ep m) host = map_of m host"
    by (auto simp: preresolve_endpoint_def Let_def assoc_simps split: option.splits)
  with Cons show ?case by simp
qed simp

text \<open>
  The table of server addresses has one entry per host, so of several endpoints
  with the same host the last one decides: its preset address is the only one the client
  connects to, and the preset addresses of the endpoints before it are never used.
\<close>

theorem last_preset_wins:
  assumes "dh_endpoints d = pre @ ep # post" and "extract_host (de_url ep) = Some host"
    and "\<forall>e \<in> set post. extract_host (de_url e) \<noteq> Some host"
    and "de_preset_ip ep = Some preset" and "parse_ipv4 preset = Some ip"
  shows "get_doh_server_ip (preresolve_doh_hosts parse_v6 system_lookup d) host = Ok ip"
proof -
  have "map_of (fold (preresolve_endpoint parse_v6 system_lookup) (dh_endpoints d)
      (dh_preresolved d)) host = Some [ip]"
    using assms by (simp add: preresolve_keeps)
      (simp add: preresolve_endpoint_def parse_ip_def assoc_simps)
  then show ?thesis by (simp add: get_doh_server_ip_def preresolve_doh_hosts_def)
qed

lemma extract_host_https:
  assumes "CHR ''/'' \<notin> set host" and "CHR '':'' \<notin> set host"
  shows "extract_host (''https://'' @ host @ CHR ''/'' # path) = Some host"
proof -
  have "hd (split_on CHR ''/'' (host @ CHR ''/'' # path)) = host"
    using assms(1) by (subst split_by_append_sep) auto
  moreover have "split_on CHR '':'' host = [host]" using assms(2) by (intro split_by_none) auto
  ultimately show ?thesis by (simp add: extract_host_def strip_prefix_def)
qed

theorem last_preset_wins_witness:
  "get_doh_server_ip (preresolve_doh_hosts (\<lambda>_. None) (\<lambda>_. None)
     (doh_new list_lru_ops default_doh_endpoints [])) ''dns.google'' = Ok (V4 8 8 4 4)"
proof (rule last_preset_wins [where preset = "''8.8.4.4''"])
  have host: "extract_host ''https://dns.google/dns-query'' = Some ''dns.google''"
    "extract_host ''https://dns.quad9.net/dns-query'' = Some ''dns.quad9.net''"
    using extract_host_https [of "''dns.google''" "''dns-query''"]
      extract_host_https [of "''dns.quad9.net''" "''dns-query''"] by simp_all
  show "dh_endpoints (doh_new list_lru_ops default_doh_endpoints []) = take 6 default_doh_endpoints @
      endpoint ''google-dns-2'' ''https://dns.google/dns-query'' 23 True ''8.8.4.4'' #
      [endpoint ''quad9'' ''https://dns.quad9.net/dns-query'' 24 True ''9.9.9.9'']"
    by (simp add: doh_new_def default_doh_endpoints_def)
  show "extract_host (de_url (endpoint ''google-dns-2'' ''https://dns.google/dns-query'' 23 True ''8.8.4.4''))
      = Some ''dns.google''"
    by (simp add: endpoint_def host)
  show "\<forall>e \<in> set [endpoint ''quad9'' ''https://dns.quad9.net/dns-query'' 24 True ''9.9.9.9''].
      extract_host (de_url e) \<noteq> Some ''dns.google''"
    by (simp add: endpoint_def host)
  show "parse_ipv4 ''8.8.4.4'' = Some (V4 8 8 4 4)"
    by (simp add: parse_ipv4_def parse_octet_def is_digit_def digits_val_def digit_val_def)
qed (simp add: endpoint_def)

section \<open>Results\<close>

lemma merge_new_facts:
  "set (merge_new xs ys) = set xs \<union> set ys \<and> (distinct xs \<longrightarrow> distinct (merge_new xs ys))"
  unfolding merge_new_def by (induction ys arbitrary: xs) auto

lemma merge_new_Nil [simp]: "merge_new xs ys = [] \<longleftrightarrow> xs = [] \<and> ys = []"
  by (metis merge_new_facts Un_empty set_empty)

lemma merge_new_Nil_right [simp]: "merge_new xs [] = xs"
  by (simp add: merge_new_def)

text \<open>What a partial answer satisfies: distinct addresses, and servers that gave some.\<close>

definition answer_ok :: "string set \<Rightarrow> ip_addr list \<Rightarrow> string list \<Rightarrow> bool" where
  "answer_ok names ips servers \<longleftrightarrow>
     distinct ips \<and> set servers \<subseteq> names \<and> (ips = [] \<longleftrightarrow> servers = [])"

lemma answer_ok_merge:
  "answer_ok names ips servers \<Longrightarrow> answer_ok names ips' servers' \<Longrightarrow>
   answer_ok names (merge_new ips ips') (servers @ servers')"
  by (auto simp: answer_ok_def merge_new_facts)

lemma host_loop_ok:
  "host_loop net host domain eps s ips servers = (Ok (ips', servers', ok), s') \<Longrightarrow>
   answer_ok names ips servers \<Longrightarrow> de_name ` set eps \<subseteq> names \<Longrightarrow> answer_ok names ips' servers'"
proof (induction eps arbitrary: s ips servers)
  case (Cons ep eps)
  obtain r s1 where q: "execute_queries net s host domain = (r, s1)" by fastforce
  show ?case
  proof (cases r)
    case (Ok endpoint_ips)
    let ?servers = "if endpoint_ips = [] then servers else servers @ [de_name ep]"
    have "answer_ok names (merge_new ips endpoint_ips) ?servers"
      using Cons.prems(2,3) by (auto simp: answer_ok_def merge_new_facts)
    moreover have "host_loop net host domain eps s1 (merge_new ips endpoint_ips) ?servers =
        (Ok (ips', servers', ok), s')"
      using Cons.prems(1) Ok by (simp add: q)
    ultimately show ?thesis using Cons.IH Cons.prems(3) by auto
  qed (use Cons.prems in \<open>simp_all add: q\<close>)
qed simp

lemma query_host_ok:
  "query_host_grouped ops net domain host eps d = (Ok (ips, servers), d') \<Longrightarrow>
   de_name ` set eps \<subseteq> names \<Longrightarrow> answer_ok names ips servers"
  by (auto simp: query_host_grouped_def answer_ok_def
      split: outcome.splits prod.splits dest!: host_loop_ok [where names = names])

lemma collect_hosts_ok:
  "collect_hosts ops net domain hosts ips servers d = (Ok (ips', servers'), d') \<Longrightarrow>
   answer_ok names ips servers \<Longrightarrow> \<forall>(h, eps) \<in> set hosts. de_name ` set eps \<subseteq> names \<Longrightarrow>
   answer_ok names ips' servers'"
proof (induction hosts arbitrary: ips servers d)
  case (Cons p hosts)
  obtain host eps where p: "p = (host, eps)" by (cases p)
  obtain r d1 where q: "query_host_grouped ops net domain host eps d = (r, d1)" by fastforce
  show ?case
  proof (cases r)
    case (Ok a)
    obtain host_ips host_servers where a: "a = (host_ips, host_servers)" by (cases a)
    have "answer_ok names host_ips host_servers"
      using query_host_ok q Ok a Cons.prems(3) p by fastforce
    then show ?thesis
      using Cons.IH [of "merge_new ips host_ips" "servers @ host_servers" d1] Cons.prems
        answer_ok_merge [OF Cons.prems(2)] by (simp add: p q Ok a)
  qed (use Cons p q in auto)
qed simp

lemma group_by_host_members:
  "(h, eps) \<in> set (group_by_host endpoints) \<Longrightarrow> set eps \<subseteq> set endpoints"
proof (induction endpoints arbitrary: h eps rule: rev_induct)
  case Nil
  then show ?case by (simp add: group_by_host_def)
next
  case (snoc ep endpoints)
  let ?m = "group_by_host endpoints"
  have step: "group_by_host (endpoints @ [ep]) =
      (case extract_host (de_url ep) of None \<Rightarrow> ?m
       | Some host \<Rightarrow> AList.update host
           ((case map_of ?m host of None \<Rightarrow> [] | Some eps \<Rightarrow> eps) @ [ep]) ?m)"
    by (cases "extract_host (de_url ep)") (simp_all add: group_by_host_def)
  have upd: "(k, v) \<in> set (AList.update k' v' m) \<Longrightarrow> (k, v) = (k', v') \<or> (k, v) \<in> set m" for k v k' v' m
    by (induction m) (auto split: if_splits)
  show ?case
  proof (cases "extract_host (de_url ep)")
    case None
    with snoc step show ?thesis by fastforce
  next
    case (Some host)
    let ?old = "case map_of ?m host of None \<Rightarrow> [] | Some eps \<Rightarrow> eps"
    have "set ?old \<subseteq> set endpoints" 
      using snoc.IH map_of_SomeD [of ?m host] by (cases "map_of ?m host") auto
    moreover have "(h, eps) = (host, ?old @ [ep]) \<or> (h, eps) \<in> set ?m"
      using snoc.prems step Some upd [of h eps host "?old @ [ep]" ?m] by simp
    ultimately show ?thesis using snoc.IH [of h eps] by auto
  qed
qed

text \<open>Hash maps and concurrent queries only change the order of the hosts.\<close>

definition reorders :: "doh_net \<Rightarrow> bool" where
  "reorders net \<longleftrightarrow> (\<forall>m. set (dn_arrange net m) = set m)"

lemma query_group_ok:
  assumes "reorders net" and "query_group ops net endpoints domain d = (Ok (ips, servers), d')"
  shows "answer_ok (de_name ` set endpoints) ips servers"
proof -
  have "\<forall>(h, eps) \<in> set (dn_arrange net (group_by_host endpoints)).
      de_name ` set eps \<subseteq> de_name ` set endpoints"
    using assms(1) group_by_host_members unfolding reorders_def by blast
  then show ?thesis
    using assms(2) collect_hosts_ok [where names = "de_name ` set endpoints"]
    by (fastforce simp: query_group_def answer_ok_def)
qed

lemma resolve_groups_ok:
  assumes "reorders net"
  shows "resolve_groups ops net groups domain [] [] d = (Ok r, d') \<Longrightarrow>
    dr_ips r \<noteq> [] \<and> dr_doh_servers r \<noteq> [] \<and> distinct (dr_ips r) \<and>
    (\<exists>g \<in> set groups. set (dr_doh_servers r) \<subseteq> de_name ` set g)"
proof (induction groups arbitrary: d)
  case (Cons g groups)
  show ?case
  proof (cases "g = []")
    case True
    with Cons show ?thesis by simp
  next
    case False
    obtain x d1 where q: "query_group ops net g domain d = (x, d1)" by fastforce
    then obtain ips servers where x: "x = Ok (ips, servers)"
      using Cons.prems False by (cases x) auto
    have ok: "answer_ok (de_name ` set g) ips servers"
      using query_group_ok [OF assms] q x by blast
    show ?thesis
    proof (cases "ips = []")
      case True
      with Cons False q x ok show ?thesis by (simp add: answer_ok_def)
    next
      case ne: False
      with Cons.prems False q x have "r = \<lparr>dr_ips = merge_new [] ips, dr_doh_servers = servers\<rparr>"
        by simp
      with ok ne show ?thesis by (auto simp: answer_ok_def merge_new_facts)
    qed
  qed
qed simp

text \<open>
  A successful resolution has at least one address and no address twice, names
  the endpoints that gave the addresses, and they are all of one level: the answers of two
  levels are never mixed.
\<close>

theorem resolve_one_level:
  assumes "reorders net" and "doh_resolve ops net domain d = (Ok r, d')"
  shows "dr_ips r \<noteq> [] \<and> distinct (dr_ips r) \<and> dr_doh_servers r \<noteq> [] \<and>
    (\<exists>g \<in> set (select_endpoints d domain). set (dr_doh_servers r) \<subseteq> de_name ` set g)"
  using resolve_groups_ok [OF assms(1)] assms(2)
  unfolding doh_resolve_def doh_resolve_with_groups_def by blast

text \<open>A network with one server that answers the first query and not the second.\<close>

definition sample_net :: doh_net where
  "sample_net =
     \<lparr>dn_connect = (\<lambda>ip host. Some ([True, True],
        [Chunk (header_sep @ bytes_str ([0, 0, 0x81, 0x80, 0, 1, 0, 1, 0, 0, 0, 0] @ [0, 0, 1, 0, 1] @
           [0xC0, 0x0C, 0, 1, 0, 1, 0, 0, 0, 60, 0, 4, 140, 82, 121, 3])), Chunk header_sep])),
      dn_qid = (\<lambda>host n. 0), dn_arrange = (\<lambda>m. m),
      dn_acquire_time = (\<lambda>host. 0), dn_return_time = (\<lambda>host. 0)\<rparr>"

definition sample_endpoint :: "bool \<Rightarrow> doh_endpoint" where
  "sample_endpoint trusted =
     endpoint ''alidns'' ''https://dns.alidns.com/dns-query'' 11 trusted ''223.5.5.5''"

definition sample_client_of :: "bool \<Rightarrow> string list doh_client" where
  "sample_client_of trusted = (doh_new list_lru_ops [sample_endpoint trusted] [])
     \<lparr>dh_preresolved := [(''dns.alidns.com'', [V4 223 5 5 5])]\<rparr>"

abbreviation sample_client :: "string list doh_client" where
  "sample_client \<equiv> sample_client_of False"

lemma sample_execute:
  assumes "dn_connect sample_net ip host = Some (ws, rs)"
  shows "\<exists>s'. execute_queries sample_net
      \<lparr>ts_host = host, ts_sent = [], ts_writes = ws, ts_reads = rs\<rparr> host domain =
    (Ok [V4 140 82 121 3], s')"
proof -
  let ?rr = "[0xC0, 0x0C, 0, 1, 0, 1, 0, 0, 0, 60, 0, 4, 140, 82, 121, 3] :: byte list"
  let ?body = "[0, 0, 0x81, 0x80, 0, 1, 0, 1, 0, 0, 0, 0] @ [0, 0, 1, 0, 1] @ ?rr"
  have parse: "parse_dns_response ?body = Ok [V4 140 82 121 3]"
    by (simp add: parse_dns_response_def skip_labels.simps u16_be_def Let_def
        read_v4_def)
  have send: "send_doh_request True (Chunk (header_sep @ bytes_str bs) # more) = Ok (bs, more)" for bs more
    by (simp add: send_doh_request_def read_header.simps read_body.simps header_sep_def
        doh_find_header_end_def doh_parse_content_length_def valid_utf8_ascii str_lines_def
        extract_http_body_def)
  have none: "parse_dns_response [] = Err TooShort" by (simp add: parse_dns_response_def)
  have ws: "ws = [True, True]"
    and rs: "rs = [Chunk (header_sep @ bytes_str ?body), Chunk (header_sep @ bytes_str [])]"
    using assms by (simp_all add: sample_net_def bytes_str_def)
  show ?thesis
    unfolding ws rs execute_queries_def Let_def request_on_def
    by (simp add: send append_answers_def parse none del: append.simps)
qed

lemma sample_groups:
  "\<exists>d'. doh_resolve_with_groups list_lru_ops sample_net [[sample_endpoint t]] ''github.com'' (sample_client_of t) =
     (Ok \<lparr>dr_ips = [V4 140 82 121 3], dr_doh_servers = [''alidns'']\<rparr>, d')"
proof -
  let ?ep = "sample_endpoint t"
  let ?host = "''dns.alidns.com''"
  obtain ws rs where conn: "dn_connect sample_net (V4 223 5 5 5) ?host = Some (ws, rs)"
    by (simp add: sample_net_def)
  obtain s' where q: "execute_queries sample_net
      \<lparr>ts_host = ?host, ts_sent = [], ts_writes = ws, ts_reads = rs\<rparr> ?host ''github.com'' =
      (Ok [V4 140 82 121 3], s')"
    using sample_execute [OF conn] by blast
  have hosts: "dn_arrange sample_net (group_by_host [?ep]) = [(?host, [?ep])]"
    using extract_host_https [of ?host "''dns-query''"]
    by (simp add: sample_net_def group_by_host_def endpoint_def sample_endpoint_def)
  have "connection_for list_lru_ops sample_net ?host (sample_client_of t) =
      (Ok \<lparr>ts_host = ?host, ts_sent = [], ts_writes = ws, ts_reads = rs\<rparr>, sample_client_of t)"
    using conn by (simp add: connection_for_def acquire_connection_def sample_client_of_def doh_new_def
        create_new_connection_def get_doh_server_ip_def)
  then obtain d' where "query_host_grouped list_lru_ops sample_net ''github.com'' ?host [?ep]
      (sample_client_of t) = (Ok ([V4 140 82 121 3], [de_name ?ep]), d')"
    by (simp add: query_host_grouped_def q merge_new_def)
  moreover have name: "de_name ?ep = ''alidns''" by (simp add: endpoint_def sample_endpoint_def)
  ultimately have "doh_resolve_with_groups list_lru_ops sample_net [[?ep]] ''github.com'' (sample_client_of t) =
      (Ok \<lparr>dr_ips = [V4 140 82 121 3], dr_doh_servers = [''alidns'']\<rparr>, d')"
    by (simp add: doh_resolve_with_groups_def query_group_def hosts merge_new_def name)
  then show ?thesis by blast
qed

lemma sample_resolution:
  "\<exists>d'. doh_resolve list_lru_ops sample_net ''github.com'' sample_client =
     (Ok \<lparr>dr_ips = [V4 140 82 121 3], dr_doh_servers = [''alidns'']\<rparr>, d')"
proof -
  have "select_endpoints sample_client ''github.com'' = [[sample_endpoint False]]"
    by (simp add: select_endpoints_def match_dns_mapping_def sample_client_of_def doh_new_def
        default_groups_def sample_endpoint_def endpoint_def)
  then show ?thesis using sample_groups [of False] by (simp add: doh_resolve_def)
qed

lemma sample_international:
  "\<exists>d'. doh_resolve_international list_lru_ops sample_net ''github.com'' (sample_client_of True) =
     (Ok \<lparr>dr_ips = [V4 140 82 121 3], dr_doh_servers = [''alidns'']\<rparr>, d')"
proof -
  have "dh_endpoints (sample_client_of True) = [sample_endpoint True]" "de_trusted (sample_endpoint True)"
    by (simp_all add: sample_client_of_def doh_new_def sample_endpoint_def endpoint_def)
  then show ?thesis using sample_groups [of True] by (simp add: doh_resolve_international_def)
qed

theorem resolve_one_level_witness:
  "\<exists>r d'. doh_resolve list_lru_ops sample_net ''github.com'' sample_client = (Ok r, d') \<and>
     dr_ips r = [V4 140 82 121 3] \<and> distinct (dr_ips r) \<and> dr_doh_servers r \<noteq> []"
proof -
  obtain d' where res: "doh_resolve list_lru_ops sample_net ''github.com'' sample_client =
     (Ok \<lparr>dr_ips = [V4 140 82 121 3], dr_doh_servers = [''alidns'']\<rparr>, d')"
    using sample_resolution by blast
  have "reorders sample_net" by (simp add: reorders_def sample_net_def)
  from resolve_one_level [OF this res] res show ?thesis by auto
qed

end
