(* ===== verification/Ip_Prober.thy ===== *)
theory Ip_Prober
  imports Config Ip_Filter Evictable_Cache
begin

text \<open>
  The IP prober (\<open>src/dns/ip_prober.rs\<close>): it measures the time of a TCP connection to each
  candidate address, ranks the reachable ones, keeps the best one per domain in a cache, and
  stops probing IPv6 for a while after a number of failures in a row.

  What a probe finds is a parameter. A latency is \<open>None\<close> for \<open>Duration::MAX\<close>, the value the
  code uses for a failure or a timeout.
\<close>

section \<open>State\<close>

record 'l ip_prober =
  pr_probe_timeout :: nat
  pr_best_ip_cache :: "(string, ip_addr, 'l) ecache"
  pr_consecutive_failures :: "32 word"
  pr_disabled_until :: "nat option"
  pr_ipv6_failure_threshold :: "32 word"
  pr_ipv6_recovery :: nat
  pr_ipv6_enabled :: bool

record probe_result =
  pb_ip :: ip_addr
  pb_latency :: "nat option"
  pb_reachable :: bool

datatype ip_select_result = BestIp ip_addr | AllUnreachable "ip_addr list"

datatype prober_error = NoIpAvailable | EmptyIpList | NoReachableIp

text \<open>The moments of one call: the start of the process, the start of the call, its end.\<close>

record clock =
  ck_base :: nat
  ck_start :: nat
  ck_end :: nat

definition prober_new :: "(string, 'l) lru_ops \<Rightarrow> dns_config \<Rightarrow> 'l ip_prober" where
  "prober_new ops config =
     \<lparr>pr_probe_timeout = secs (dc_probe_timeout_secs config),
      pr_best_ip_cache = ecache_with_ttl ops
        (case dc_max_cache_entries config of None \<Rightarrow> 500 | Some n \<Rightarrow> n) ''ip_prober''
        (secs (dc_cache_ttl_secs config)),
      pr_consecutive_failures = 0, pr_disabled_until = None,
      pr_ipv6_failure_threshold = word_of_nat (dc_ipv6_failure_threshold config),
      pr_ipv6_recovery = secs (dc_ipv6_recovery_secs config),
      pr_ipv6_enabled = dc_ipv6_enabled config\<rparr>"

section \<open>The IPv6 switch\<close>

definition should_probe_ipv6 :: "nat \<Rightarrow> 'l ip_prober \<Rightarrow> bool" where
  "should_probe_ipv6 now p =
     (if \<not> pr_ipv6_enabled p then False
      else if pr_ipv6_failure_threshold p = 0 then True
      else case pr_disabled_until p of
             Some until \<Rightarrow> \<not> now < until
           | None \<Rightarrow> True)"

definition record_ipv6_probe_result :: "nat \<Rightarrow> bool \<Rightarrow> 'l ip_prober \<Rightarrow> 'l ip_prober" where
  "record_ipv6_probe_result now success p =
     (if pr_ipv6_failure_threshold p = 0 then p
      else if success then p\<lparr>pr_consecutive_failures := 0, pr_disabled_until := None\<rparr>
      else
        let failures = pr_consecutive_failures p + 1;
            p' = p\<lparr>pr_consecutive_failures := failures\<rparr>
        in if pr_ipv6_failure_threshold p \<le> failures
           then p'\<lparr>pr_disabled_until := Some (now + pr_ipv6_recovery p)\<rparr> else p')"

definition ips_to_probe :: "nat \<Rightarrow> ip_addr list \<Rightarrow> 'l ip_prober \<Rightarrow> ip_addr list" where
  "ips_to_probe now ips p =
     (let ipv4_ips = filter is_ipv4 ips;
          ipv6_ips = filter is_ipv6 ips;
          must_probe_ipv6 = (ipv4_ips = [] \<and> ipv6_ips \<noteq> [])
      in if should_probe_ipv6 now p \<or> must_probe_ipv6 then ips else ipv4_ips)"

section \<open>Ranking\<close>

text \<open>
  The probes in the order in which they come to their end: the address, its latency, and the
  time since the start of the call at which the result is taken from the stream.
\<close>

type_synonym completion = "ip_addr \<times> nat option \<times> nat"

definition below_timeout :: "nat \<Rightarrow> nat option \<Rightarrow> bool" where
  "below_timeout timeout latency = (case latency of None \<Rightarrow> False | Some l \<Rightarrow> l < timeout)"

definition keep_result :: "nat \<Rightarrow> completion \<Rightarrow> (ip_addr \<times> nat) list \<Rightarrow> (ip_addr \<times> nat) list" where
  "keep_result timeout c results =
     (case c of (ip, latency, at) \<Rightarrow>
        (if below_timeout timeout latency then results @ [(ip, the latency)] else results))"

definition MIN_RESULTS_FOR_FAST_RETURN :: nat where
  "MIN_RESULTS_FOR_FAST_RETURN = 3"

definition FAST_RETURN_TIMEOUT :: nat where
  "FAST_RETURN_TIMEOUT = millis 200"

fun collect_results ::
    "nat \<Rightarrow> bool \<Rightarrow> completion list \<Rightarrow> (ip_addr \<times> nat) list
     \<Rightarrow> (ip_addr \<times> nat) list \<times> completion list" where
  "collect_results timeout fast [] results = (results, [])"
| "collect_results timeout fast (c # tasks) results =
     (let results' = keep_result timeout c results
      in if fast \<and> MIN_RESULTS_FOR_FAST_RETURN \<le> length results' \<and> FAST_RETURN_TIMEOUT \<le> snd (snd c)
         then (results', tasks)
         else collect_results timeout fast tasks results')"

definition probe_race :: "nat \<Rightarrow> completion list \<Rightarrow> (ip_addr \<times> nat) list" where
  "probe_race timeout tasks =
     (let fast = (MIN_RESULTS_FOR_FAST_RETURN < length tasks);
          (results, remaining) = collect_results timeout fast tasks []
      in if length results < MIN_RESULTS_FOR_FAST_RETURN \<and> remaining \<noteq> []
         then fold (keep_result timeout) remaining results else results)"

definition select_ranked_ips ::
    "(string, 'l) lru_ops \<Rightarrow> (ip_addr list \<Rightarrow> completion list) \<Rightarrow> clock \<Rightarrow> string \<Rightarrow> ip_addr list
     \<Rightarrow> 'l ip_prober \<Rightarrow> ip_addr list \<times> 'l ip_prober" where
  "select_ranked_ips ops probe ck domain ips p =
     (if ips = [] then ([], p)
      else
        let results = probe_race (pr_probe_timeout p) (probe (ips_to_probe (ck_start ck) ips p));
            p' = (if should_probe_ipv6 (ck_start ck) p \<and> filter is_ipv6 ips \<noteq> []
                  then record_ipv6_probe_result (ck_end ck)
                         (list_ex (\<lambda>(ip, l). is_ipv6 ip) results) p
                  else p)
        in if results = [] then ([], p')
           else
             let ranked = map fst (sort_key snd results)
             in (ranked, p'\<lparr>pr_best_ip_cache := ecache_insert ops (ck_base ck) (ck_end ck) (ck_end ck)
                   domain (hd ranked) (pr_best_ip_cache p')\<rparr>))"

definition forget_best :: "(string, 'l) lru_ops \<Rightarrow> string \<Rightarrow> 'l ip_prober \<Rightarrow> 'l ip_prober" where
  "forget_best ops domain p =
     p\<lparr>pr_best_ip_cache := snd (ecache_remove ops domain (pr_best_ip_cache p))\<rparr>"

definition force_reprobe_ranked ::
    "(string, 'l) lru_ops \<Rightarrow> (ip_addr list \<Rightarrow> completion list) \<Rightarrow> clock \<Rightarrow> string \<Rightarrow> ip_addr list
     \<Rightarrow> 'l ip_prober \<Rightarrow> ip_addr list \<times> 'l ip_prober" where
  "force_reprobe_ranked ops probe ck domain ips p =
     select_ranked_ips ops probe ck domain ips (forget_best ops domain p)"

section \<open>The single best address\<close>

text \<open>\<open>join_all\<close> keeps the order: \<open>timing ips\<close> is the list of the latencies of \<open>ips\<close>.\<close>

definition probe_all_with_ipv6_handling ::
    "(ip_addr list \<Rightarrow> nat option list) \<Rightarrow> clock \<Rightarrow> ip_addr list \<Rightarrow> 'l ip_prober
     \<Rightarrow> probe_result list \<times> 'l ip_prober" where
  "probe_all_with_ipv6_handling timing ck ips p =
     (let probed = ips_to_probe (ck_start ck) ips p;
          probe_results = map (\<lambda>(ip, latency). \<lparr>pb_ip = ip, pb_latency = latency,
            pb_reachable = below_timeout (pr_probe_timeout p) latency\<rparr>) (zip probed (timing probed));
          ipv6_count = length (filter is_ipv6 ips)
      in (probe_results,
          if should_probe_ipv6 (ck_start ck) p \<and> 0 < ipv6_count
          then record_ipv6_probe_result (ck_end ck)
                 (list_ex pb_reachable (filter (\<lambda>r. is_ipv6 (pb_ip r)) probe_results)) p
          else p))"

text \<open>\<open>min_by_key\<close> gives the first of the smallest, which a stable sort puts in front.\<close>

definition pick_best :: "probe_result list \<Rightarrow> (prober_error, ip_select_result) outcome" where
  "pick_best results =
     (let reachable = filter pb_reachable results
      in if reachable = [] then Ok (AllUnreachable (map pb_ip results))
         else case sort_key (\<lambda>r. the (pb_latency r)) reachable of
                [] \<Rightarrow> Err NoReachableIp
              | best # _ \<Rightarrow> Ok (BestIp (pb_ip best)))"

definition select_best_ip_detailed ::
    "(string, 'l) lru_ops \<Rightarrow> (ip_addr list \<Rightarrow> nat option list) \<Rightarrow> clock \<Rightarrow> string \<Rightarrow> ip_addr list
     \<Rightarrow> 'l ip_prober \<Rightarrow> (prober_error, ip_select_result) outcome \<times> 'l ip_prober" where
  "select_best_ip_detailed ops timing ck domain ips p =
     (if ips = [] then (Err NoIpAvailable, p)
      else case ecache_get ops (ck_start ck) (ck_start ck) domain (pr_best_ip_cache p) of
             (Some ip, cache) \<Rightarrow> (Ok (BestIp ip), p\<lparr>pr_best_ip_cache := cache\<rparr>)
           | (None, cache) \<Rightarrow>
               let (probe_results, p') =
                     probe_all_with_ipv6_handling timing ck ips (p\<lparr>pr_best_ip_cache := cache\<rparr>)
               in case pick_best probe_results of
                    Ok (BestIp best_ip) \<Rightarrow>
                      (Ok (BestIp best_ip),
                       p'\<lparr>pr_best_ip_cache := ecache_insert ops (ck_base ck) (ck_end ck) (ck_end ck)
                          domain best_ip (pr_best_ip_cache p')\<rparr>)
                  | r \<Rightarrow> (r, p'))"

definition select_best_ip ::
    "(string, 'l) lru_ops \<Rightarrow> (ip_addr list \<Rightarrow> nat option list) \<Rightarrow> clock \<Rightarrow> string \<Rightarrow> ip_addr list
     \<Rightarrow> 'l ip_prober \<Rightarrow> (prober_error, ip_addr) outcome \<times> 'l ip_prober" where
  "select_best_ip ops timing ck domain ips p =
     (if ips = [] then (Err NoIpAvailable, p)
      else case ecache_get ops (ck_start ck) (ck_start ck) domain (pr_best_ip_cache p) of
             (Some ip, cache) \<Rightarrow> (Ok ip, p\<lparr>pr_best_ip_cache := cache\<rparr>)
           | (None, cache) \<Rightarrow>
               let (probe_results, p') =
                     probe_all_with_ipv6_handling timing ck ips (p\<lparr>pr_best_ip_cache := cache\<rparr>)
               in case pick_best probe_results of
                    Ok (BestIp best_ip) \<Rightarrow>
                      (Ok best_ip,
                       p'\<lparr>pr_best_ip_cache := ecache_insert ops (ck_base ck) (ck_end ck) (ck_end ck)
                          domain best_ip (pr_best_ip_cache p')\<rparr>)
                  | Ok (AllUnreachable all_ips) \<Rightarrow>
                      (case all_ips of [] \<Rightarrow> Err EmptyIpList | ip # _ \<Rightarrow> Ok ip, p')
                  | Err e \<Rightarrow> (Err e, p')
                  | Panic \<Rightarrow> (Panic, p'))"

definition force_reprobe ::
    "(string, 'l) lru_ops \<Rightarrow> (ip_addr list \<Rightarrow> nat option list) \<Rightarrow> clock \<Rightarrow> string \<Rightarrow> ip_addr list
     \<Rightarrow> 'l ip_prober \<Rightarrow> (prober_error, ip_addr) outcome \<times> 'l ip_prober" where
  "force_reprobe ops timing ck domain ips p =
     select_best_ip ops timing ck domain ips (forget_best ops domain p)"

definition force_reprobe_detailed ::
    "(string, 'l) lru_ops \<Rightarrow> (ip_addr list \<Rightarrow> nat option list) \<Rightarrow> clock \<Rightarrow> string \<Rightarrow> ip_addr list
     \<Rightarrow> 'l ip_prober \<Rightarrow> (prober_error, ip_select_result) outcome \<times> 'l ip_prober" where
  "force_reprobe_detailed ops timing ck domain ips p =
     select_best_ip_detailed ops timing ck domain ips (forget_best ops domain p)"

definition prober_invalidate :: "(string, 'l) lru_ops \<Rightarrow> string \<Rightarrow> 'l ip_prober \<Rightarrow> 'l ip_prober" where
  "prober_invalidate ops domain p = forget_best ops domain p"

definition prober_invalidate_all :: "(string, 'l) lru_ops \<Rightarrow> 'l ip_prober \<Rightarrow> 'l ip_prober" where
  "prober_invalidate_all ops p =
     p\<lparr>pr_best_ip_cache := ecache_clear ops (pr_best_ip_cache p)\<rparr>"

section \<open>Ranking: what the answer holds\<close>

definition reachable_of :: "nat \<Rightarrow> completion list \<Rightarrow> (ip_addr \<times> nat) list" where
  "reachable_of timeout tasks = fold (keep_result timeout) tasks []"

lemma keep_result_append:
  "keep_result timeout c results = results @ keep_result timeout c []"
  by (auto simp: keep_result_def split: prod.splits)

lemma fold_keep_append:
  "fold (keep_result timeout) tasks results = results @ fold (keep_result timeout) tasks []"
proof (induction tasks arbitrary: results)
  case (Cons c tasks)
  show ?case
    using Cons [of "keep_result timeout c results"] Cons [of "keep_result timeout c []"]
      keep_result_append [of timeout c results] by simp
qed simp

lemma collect_results_split:
  "collect_results timeout fast tasks results = (results', remaining) \<Longrightarrow>
   fold (keep_result timeout) tasks results = fold (keep_result timeout) remaining results' \<and>
   (remaining = [] \<or> fast \<and> MIN_RESULTS_FOR_FAST_RETURN \<le> length results')"
proof (induction tasks arbitrary: results)
  case (Cons c tasks)
  then show ?case by (auto simp: Let_def split: if_splits)
qed simp

text \<open>The race gives a prefix of the reachable results, the whole of it if it is shorter than 3
  or if at most three addresses were probed.\<close>

lemma probe_race_prefix:
  "prefix (probe_race timeout tasks) (reachable_of timeout tasks) \<and>
   (probe_race timeout tasks = reachable_of timeout tasks \<or>
    MIN_RESULTS_FOR_FAST_RETURN \<le> length (probe_race timeout tasks) \<and>
    MIN_RESULTS_FOR_FAST_RETURN < length tasks)"
proof -
  obtain results remaining where c: "collect_results timeout
      (MIN_RESULTS_FOR_FAST_RETURN < length tasks) tasks [] = (results, remaining)" by fastforce
  have "reachable_of timeout tasks = results @ fold (keep_result timeout) remaining []"
    using collect_results_split [OF c] fold_keep_append [of timeout remaining results]
    by (simp add: reachable_of_def)
  with collect_results_split [OF c] show ?thesis
    by (auto simp: probe_race_def c fold_keep_append [of timeout remaining results])
qed

lemma set_reachable_of:
  "set (reachable_of timeout tasks) =
     {(ip, l) | ip l at. (ip, Some l, at) \<in> set tasks \<and> l < timeout}"
proof (induction tasks rule: rev_induct)
  case Nil
  then show ?case by (simp add: reachable_of_def)
next
  case (snoc c tasks)
  have "reachable_of timeout (tasks @ [c]) = reachable_of timeout tasks @ keep_result timeout c []"
    using keep_result_append [of timeout c "reachable_of timeout tasks"]
    by (simp add: reachable_of_def)
  with snoc show ?case
    by (auto simp: keep_result_def below_timeout_def split: prod.splits option.splits if_splits)
qed

lemma set_ips_to_probe:
  "set (ips_to_probe now ips p) \<subseteq> set ips" "ips_to_probe now ips p = [] \<longleftrightarrow> ips = []"
proof -
  show "set (ips_to_probe now ips p) \<subseteq> set ips" by (auto simp: ips_to_probe_def Let_def)
  have "filter is_ipv4 ips = [] \<Longrightarrow> filter is_ipv6 ips = [] \<Longrightarrow> ips = []"
    by (cases ips) (auto simp: is_ipv6_def split: if_splits)
  then show "ips_to_probe now ips p = [] \<longleftrightarrow> ips = []"
    unfolding ips_to_probe_def Let_def by (metis filter.simps(1))
qed

definition probe_lawful :: "(ip_addr list \<Rightarrow> completion list) \<Rightarrow> bool" where
  "probe_lawful probe \<longleftrightarrow> (\<forall>ips. length (probe ips) = length ips \<and> fst ` set (probe ips) = set ips)"

lemma select_ranked_ips_fst:
  "fst (select_ranked_ips ops probe ck domain ips p) =
     (if ips = [] then []
      else map fst (sort_key snd (probe_race (pr_probe_timeout p)
             (probe (ips_to_probe (ck_start ck) ips p)))))"
  by (simp add: select_ranked_ips_def Let_def)

text \<open>The probes that succeed in time, with their latencies.\<close>

definition good_probes ::
    "(ip_addr list \<Rightarrow> completion list) \<Rightarrow> clock \<Rightarrow> ip_addr list \<Rightarrow> 'l ip_prober \<Rightarrow> (ip_addr \<times> nat) set"
where
  "good_probes probe ck ips p =
     {(ip, l) | ip l at. (ip, Some l, at) \<in> set (probe (ips_to_probe (ck_start ck) ips p)) \<and>
        l < pr_probe_timeout p}"

lemma ranked_sound:
  assumes "probe_lawful probe"
    and "fst (select_ranked_ips ops probe ck domain ips p) = ranked"
  shows "(\<exists>results. ranked = map fst results \<and> sorted (map snd results) \<and>
        set results \<subseteq> good_probes probe ck ips p) \<and>
    set ranked \<subseteq> set ips \<and> (ranked = [] \<longleftrightarrow> good_probes probe ck ips p = {}) \<and>
    (length ips \<le> 3 \<longrightarrow> fst ` good_probes probe ck ips p \<subseteq> set ranked) \<and>
    (\<not> should_probe_ipv6 (ck_start ck) p \<and> filter is_ipv4 ips \<noteq> [] \<longrightarrow> list_all is_ipv4 ranked)"
proof (cases "ips = []")
  case True
  have "ips_to_probe (ck_start ck) [] p = []" using set_ips_to_probe(2) by blast
  moreover have "probe [] = []" using assms(1) by (metis length_0_conv probe_lawful_def)
  ultimately show ?thesis
    using True assms(2) by (simp add: good_probes_def select_ranked_ips_fst)
next
  case False
  let ?tasks = "probe (ips_to_probe (ck_start ck) ips p)"
  let ?good = "good_probes probe ck ips p"
  let ?probed = "ips_to_probe (ck_start ck) ips p"
  let ?results = "sort_key snd (probe_race (pr_probe_timeout p) ?tasks)"
  have ranked: "ranked = map fst ?results"
    using False assms(2) by (simp add: select_ranked_ips_fst)
  have good: "set (reachable_of (pr_probe_timeout p) ?tasks) = ?good"
    by (simp add: set_reachable_of good_probes_def)
  note race = probe_race_prefix [of "pr_probe_timeout p" ?tasks]
  have sub: "set ?results \<subseteq> ?good"
    using race good by (auto dest: set_mono_prefix)
  have law: "length ?tasks = length ?probed" "fst ` set ?tasks = set ?probed"
    using assms(1) by (simp_all add: probe_lawful_def)
  have "set ranked \<subseteq> fst ` ?good" using sub ranked by auto
  also have "\<dots> \<subseteq> set ?probed" using law(2) by (force simp: good_probes_def)
  finally have probed: "set ranked \<subseteq> set ?probed" .
  have empty: "ranked = [] \<longleftrightarrow> ?good = {}"
  proof -
    have "ranked = [] \<longleftrightarrow> probe_race (pr_probe_timeout p) ?tasks = []"
      using ranked by (metis map_is_Nil_conv set_empty set_sort)
    also have "\<dots> \<longleftrightarrow> reachable_of (pr_probe_timeout p) ?tasks = []"
      using race by (auto simp: MIN_RESULTS_FOR_FAST_RETURN_def)
    finally show ?thesis using good by (metis set_empty)
  qed
  have all: "fst ` ?good \<subseteq> set ranked" if "length ips \<le> 3"
  proof -
    have "length ?probed \<le> length ips" by (simp add: ips_to_probe_def Let_def)
    with that law(1) race have "probe_race (pr_probe_timeout p) ?tasks = reachable_of (pr_probe_timeout p) ?tasks"
      by (simp add: MIN_RESULTS_FOR_FAST_RETURN_def)
    with good ranked show ?thesis by force
  qed
  have v4: "list_all is_ipv4 ranked" if "\<not> should_probe_ipv6 (ck_start ck) p \<and> filter is_ipv4 ips \<noteq> []"
  proof -
    have "?probed = filter is_ipv4 ips" using that by (auto simp: ips_to_probe_def Let_def)
    with probed show ?thesis by (auto simp: list_all_iff)
  qed
  have "sorted (map snd ?results)" by simp
  with sub ranked have ex: "\<exists>results. ranked = map fst results \<and> sorted (map snd results) \<and> set results \<subseteq> ?good"
    by blast
  from probed set_ips_to_probe(1) [of "ck_start ck" ips p] have "set ranked \<subseteq> set ips" by blast
  with ex empty all v4 show ?thesis by blast
qed

text \<open>
  The ranking lists probed addresses only, each with a latency below the probe
  timeout, by growing latency, and no IPv6 address while IPv6 is switched off and an IPv4
  address is there; it is empty exactly if no probe succeeded, so the early return never hides
  the last reachable address; and with at most three candidates it has every reachable one.
\<close>

theorem ranked_ips_sound:
  assumes "probe_lawful probe"
    and "fst (select_ranked_ips ops probe ck domain ips p) = ranked"
  shows "(\<exists>results. ranked = map fst results \<and> sorted (map snd results) \<and>
        set results \<subseteq> good_probes probe ck ips p) \<and>
    set ranked \<subseteq> set ips \<and> (ranked = [] \<longleftrightarrow> good_probes probe ck ips p = {}) \<and>
    (length ips \<le> 3 \<longrightarrow> fst ` good_probes probe ck ips p \<subseteq> set ranked) \<and>
    (\<not> should_probe_ipv6 (ck_start ck) p \<and> filter is_ipv4 ips \<noteq> [] \<longrightarrow> list_all is_ipv4 ranked)"
  using assms by (rule ranked_sound)

definition sample_prober :: "string list ip_prober" where
  "sample_prober = prober_new list_lru_ops default_dns"

theorem ranked_ips_sound_witness:
  "list_all is_ipv4 (fst (select_ranked_ips list_lru_ops
      (map (\<lambda>ip. (ip, if ip = V4 1 1 1 1 then Some 7 else Some 5, 9))) \<lparr>ck_base = 0, ck_start = 0, ck_end = 9\<rparr>
      ''github.com'' [V4 1 1 1 1, V4 2 2 2 2, V6 1 0 0 0 0 0 0 1] sample_prober)) \<and>
   fst (select_ranked_ips list_lru_ops
      (map (\<lambda>ip. (ip, if ip = V4 1 1 1 1 then Some 7 else Some 5, 9))) \<lparr>ck_base = 0, ck_start = 0, ck_end = 9\<rparr>
      ''github.com'' [V4 1 1 1 1, V4 2 2 2 2, V6 1 0 0 0 0 0 0 1] sample_prober) =
    [V4 2 2 2 2, V4 1 1 1 1]"
proof -
  let ?probe = "map (\<lambda>ip. (ip, if ip = V4 1 1 1 1 then Some 7 else Some 5, 9)) :: ip_addr list \<Rightarrow> completion list"
  let ?ips = "[V4 1 1 1 1, V4 2 2 2 2, V6 1 0 0 0 0 0 0 1]"
  let ?ck = "\<lparr>ck_base = 0, ck_start = 0, ck_end = 9\<rparr>"
  have law: "probe_lawful ?probe" by (auto simp: probe_lawful_def image_iff)
  have off: "\<not> should_probe_ipv6 0 sample_prober"
    by (simp add: should_probe_ipv6_def sample_prober_def prober_new_def default_dns_def)
  have timeout: "pr_probe_timeout sample_prober = 4000000000"
    by (simp add: sample_prober_def prober_new_def default_dns_def)
  have value_: "fst (select_ranked_ips list_lru_ops ?probe ?ck ''github.com'' ?ips sample_prober) =
      [V4 2 2 2 2, V4 1 1 1 1]"
    using off timeout
    by (simp add: select_ranked_ips_fst ips_to_probe_def probe_race_def keep_result_def
        below_timeout_def Let_def MIN_RESULTS_FOR_FAST_RETURN_def)
  show ?thesis
    using ranked_ips_sound [OF law value_] off unfolding value_ by simp
qed

section \<open>The IPv6 switch over time\<close>

definition v6_run :: "(nat \<times> bool) list \<Rightarrow> 'l ip_prober \<Rightarrow> 'l ip_prober" where
  "v6_run results p = fold (\<lambda>(t, success). record_ipv6_probe_result t success) results p"

lemma record_fixed [simp]:
  "pr_ipv6_failure_threshold (record_ipv6_probe_result t s p) = pr_ipv6_failure_threshold p"
  "pr_ipv6_recovery (record_ipv6_probe_result t s p) = pr_ipv6_recovery p"
  "pr_ipv6_enabled (record_ipv6_probe_result t s p) = pr_ipv6_enabled p"
  by (simp_all add: record_ipv6_probe_result_def Let_def)

lemma v6_run_fixed:
  "pr_ipv6_failure_threshold (v6_run results p) = pr_ipv6_failure_threshold p"
  "pr_ipv6_recovery (v6_run results p) = pr_ipv6_recovery p"
  "pr_ipv6_enabled (v6_run results p) = pr_ipv6_enabled p"
  unfolding v6_run_def by (induction results arbitrary: p) (auto split: prod.splits)

lemma v6_run_append: "v6_run (xs @ ys) p = v6_run ys (v6_run xs p)"
  by (simp add: v6_run_def)

lemma v6_failures:
  assumes "pr_ipv6_failure_threshold p \<noteq> 0" and "pr_consecutive_failures p = 0"
    and "pr_disabled_until p = None" and "length ts < 2 ^ 32"
  shows "unat (pr_consecutive_failures (v6_run (map (\<lambda>t. (t, False)) ts) p)) = length ts \<and>
    pr_disabled_until (v6_run (map (\<lambda>t. (t, False)) ts) p) =
      (if unat (pr_ipv6_failure_threshold p) \<le> length ts
       then Some (last ts + pr_ipv6_recovery p) else None)"
  using assms(4)
proof (induction ts rule: rev_induct)
  case Nil
  then show ?case using assms by (simp add: v6_run_def unat_eq_zero)
next
  case (snoc t ts)
  let ?q = "v6_run (map (\<lambda>t. (t, False)) ts) p"
  have IH: "unat (pr_consecutive_failures ?q) = length ts"
    "pr_disabled_until ?q = (if unat (pr_ipv6_failure_threshold p) \<le> length ts
       then Some (last ts + pr_ipv6_recovery p) else None)"
    using snoc by simp_all
  have suc: "unat (pr_consecutive_failures ?q + 1) = Suc (length ts)"
    using snoc.prems IH(1) by (simp add: unat_plus_if_size word_size)
  have "v6_run (map (\<lambda>t. (t, False)) (ts @ [t])) p = record_ipv6_probe_result t False ?q"
    by (simp add: v6_run_def)
  then show ?case
    using assms(1) suc IH(2)
    by (auto simp: record_ipv6_probe_result_def v6_run_fixed Let_def word_le_nat_alt)
qed

text \<open>
  After a success and then \<open>n\<close> failures in a row, whatever came before, IPv6 is
  probed exactly if \<open>n\<close> is below the threshold or the recovery time since the last failure is
  over; and one success switches it on at once.
\<close>

theorem ipv6_switch:
  assumes "pr_ipv6_enabled p" and "pr_ipv6_failure_threshold p \<noteq> 0" and "length ts < 2 ^ 32"
  shows "should_probe_ipv6 now (v6_run (before @ (t, True) # map (\<lambda>t. (t, False)) ts) p) \<longleftrightarrow>
    length ts < unat (pr_ipv6_failure_threshold p) \<or> last ts + pr_ipv6_recovery p \<le> now"
proof -
  let ?q = "v6_run (before @ [(t, True)]) p"
  have q: "pr_consecutive_failures ?q = 0" "pr_disabled_until ?q = None"
    "pr_ipv6_failure_threshold ?q = pr_ipv6_failure_threshold p"
    "pr_ipv6_recovery ?q = pr_ipv6_recovery p" "pr_ipv6_enabled ?q"
    using assms by (simp_all add: v6_run_fixed)
      (simp_all add: v6_run_def record_ipv6_probe_result_def v6_run_fixed [unfolded v6_run_def])
  have "v6_run (before @ (t, True) # map (\<lambda>t. (t, False)) ts) p =
      v6_run (map (\<lambda>t. (t, False)) ts) ?q"
    using v6_run_append [of "before @ [(t, True)]" "map (\<lambda>t. (t, False)) ts" p] by simp
  then show ?thesis
    using v6_failures [of ?q ts] q assms
    by (auto simp: should_probe_ipv6_def v6_run_fixed)
qed

theorem ipv6_switch_witness:
  "\<not> should_probe_ipv6 100 (v6_run [(1, False), (2, True), (10, False), (20, False), (30, False)]
      (sample_prober\<lparr>pr_ipv6_enabled := True\<rparr>)) \<and>
   should_probe_ipv6 100 (v6_run [(1, False), (2, True), (10, False), (20, False)]
      (sample_prober\<lparr>pr_ipv6_enabled := True\<rparr>))"
  using ipv6_switch [of "sample_prober\<lparr>pr_ipv6_enabled := True\<rparr>" "[10, 20, 30]" 100 "[(1, False)]" 2]
    ipv6_switch [of "sample_prober\<lparr>pr_ipv6_enabled := True\<rparr>" "[10, 20]" 100 "[(1, False)]" 2]
  by (simp add: sample_prober_def prober_new_def default_dns_def)

section \<open>The best address\<close>

lemma pick_best_total:
  "results \<noteq> [] \<Longrightarrow>
   (\<exists>r \<in> set results. pb_reachable r \<and> pick_best results = Ok (BestIp (pb_ip r)) \<and>
      (\<forall>s \<in> set results. pb_reachable s \<longrightarrow> the (pb_latency r) \<le> the (pb_latency s))) \<or>
   (\<forall>r \<in> set results. \<not> pb_reachable r) \<and> pick_best results = Ok (AllUnreachable (map pb_ip results))"
proof (cases "filter pb_reachable results = []")
  case True
  then show ?thesis by (auto simp: pick_best_def filter_empty_conv)
next
  case False
  let ?s = "sort_key (\<lambda>r. the (pb_latency r)) (filter pb_reachable results)"
  obtain b rest where s: "?s = b # rest" using False by (cases ?s) (auto simp flip: set_empty)
  have "set ?s = set (filter pb_reachable results)" by simp
  then have b: "b \<in> set results" "pb_reachable b" unfolding s by auto
  have "sorted (map (\<lambda>r. the (pb_latency r)) ?s)" by (rule sorted_sort_key)
  then have "\<forall>r \<in> set ?s. the (pb_latency b) \<le> the (pb_latency r)" unfolding s by auto
  then have "\<forall>r \<in> set results. pb_reachable r \<longrightarrow> the (pb_latency b) \<le> the (pb_latency r)" by simp
  then show ?thesis using b False s by (auto simp: pick_best_def)
qed

lemma probe_all_ips:
  assumes "\<forall>xs. length (timing xs) = length xs"
  shows "map pb_ip (fst (probe_all_with_ipv6_handling timing ck ips p)) =
    ips_to_probe (ck_start ck) ips p"
proof -
  have fun_eq: "pb_ip \<circ> (\<lambda>(ip, l). \<lparr>pb_ip = ip, pb_latency = l, pb_reachable = g l\<rparr>) = fst"
    for g :: "nat option \<Rightarrow> bool"
    by auto
  show ?thesis
    using assms by (simp add: probe_all_with_ipv6_handling_def Let_def fun_eq)
qed

text \<open>
  With at least one candidate the choice of the best address never fails, even if
  no candidate can be reached: it is the cached one, or else a candidate, the first one probed
  if none is reachable.
\<close>

theorem best_ip_never_fails:
  assumes "\<forall>xs. length (timing xs) = length xs" and "ips \<noteq> []"
    and "select_best_ip ops timing ck domain ips p = (r, p')"
  shows "\<exists>ip. r = Ok ip \<and> (ecache_peek (pr_best_ip_cache p) domain = Some ip \<or> ip \<in> set ips)"
proof -
  obtain found cache where get: "ecache_get ops (ck_start ck) (ck_start ck) domain
      (pr_best_ip_cache p) = (found, cache)" by fastforce
  show ?thesis
  proof (cases found)
    case (Some ip)
    then show ?thesis
      using assms(2,3) get ecache_get_value [of ops "ck_start ck" "ck_start ck" domain
          "pr_best_ip_cache p" ip]
      by (auto simp: select_best_ip_def)
  next
    case None
    obtain results q where probe: "probe_all_with_ipv6_handling timing ck ips
        (p\<lparr>pr_best_ip_cache := cache\<rparr>) = (results, q)" by fastforce
    have ips: "map pb_ip results = ips_to_probe (ck_start ck) ips (p\<lparr>pr_best_ip_cache := cache\<rparr>)"
      using probe_all_ips [OF assms(1)] probe by (metis fst_conv)
    have ne: "results \<noteq> []" using ips set_ips_to_probe(2) assms(2) by (metis list.map(1))
    have sub: "pb_ip ` set results \<subseteq> set ips" using ips set_ips_to_probe(1) by (metis set_map)
    show ?thesis
      using pick_best_total [OF ne]
    proof (elim disjE bexE conjE)
      fix b assume "b \<in> set results" "pick_best results = Ok (BestIp (pb_ip b))"
      then show ?thesis using assms(2,3) get None probe sub by (auto simp: select_best_ip_def)
    next
      assume "pick_best results = Ok (AllUnreachable (map pb_ip results))"
      then show ?thesis using assms(2,3) get None probe sub ne
        by (cases results) (auto simp: select_best_ip_def)
    qed
  qed
qed

theorem best_ip_never_fails_witness:
  "\<exists>ip. fst (select_best_ip list_lru_ops (map (\<lambda>_. None)) \<lparr>ck_base = 0, ck_start = 0, ck_end = 9\<rparr>
     ''github.com'' [V4 1 1 1 1, V4 2 2 2 2] sample_prober) = Ok ip \<and> ip \<in> {V4 1 1 1 1, V4 2 2 2 2}"
proof -
  obtain r p' where r: "select_best_ip list_lru_ops (map (\<lambda>_. None)) \<lparr>ck_base = 0, ck_start = 0, ck_end = 9\<rparr>
     ''github.com'' [V4 1 1 1 1, V4 2 2 2 2] sample_prober = (r, p')" by fastforce
  have "ecache_peek (pr_best_ip_cache sample_prober) ''github.com'' = None"
    by (simp add: sample_prober_def prober_new_def ecache_with_ttl_def ecache_peek_def)
  then show ?thesis using best_ip_never_fails [OF _ _ r] r by simp
qed

end
