(* ===== verification/Dns_Resolver.thy ===== *)
theory Dns_Resolver
  imports Doh_Client Ip_Prober
begin

text \<open>
  The DNS resolver (\<open>src/dns/resolver.rs\<close>): the DoH client, the filter and the prober behind
  a cache of ranked address lists. \<open>entry.ips[0]\<close> of a cached entry is an index that panics
  on an empty list; the resolver never stores one.
\<close>

section \<open>State\<close>

record 'l dns_resolver =
  rv_doh :: "'l doh_client"
  rv_prober :: "'l ip_prober"
  rv_cache :: "(string, ip_addr list, 'l) ecache"
  rv_probe_interval :: nat

datatype resolver_error = DohFailed doh_error | EmptyAnswer | NoUsableIp

text \<open>What a call finds outside: the network, the probes, the clock.\<close>

record resolver_env =
  re_net :: doh_net
  re_probe :: "ip_addr list \<Rightarrow> completion list"
  re_clock :: clock

definition resolver_new ::
    "(string, 'l) lru_ops \<Rightarrow> (string \<Rightarrow> ip_addr option) \<Rightarrow> (string \<Rightarrow> ip_addr list option)
     \<Rightarrow> dns_config \<Rightarrow> 'l dns_resolver" where
  "resolver_new ops parse_v6 system_lookup config =
     \<lparr>rv_doh = preresolve_doh_hosts parse_v6 system_lookup
        (doh_new ops (dc_doh_endpoints config) (dc_dns_mapping config)),
      rv_prober = prober_new ops config,
      rv_cache = ecache_with_ttl ops
        (case dc_max_cache_entries config of None \<Rightarrow> 500 | Some n \<Rightarrow> n) ''dns_cache''
        (secs (dc_cache_ttl_secs config)),
      rv_probe_interval = secs (dc_probe_interval_secs config)\<rparr>"

section \<open>Operations\<close>

definition cache_lookup ::
    "(string, 'l) lru_ops \<Rightarrow> resolver_env \<Rightarrow> string \<Rightarrow> 'l dns_resolver
     \<Rightarrow> ip_addr list option \<times> 'l dns_resolver" where
  "cache_lookup ops env domain r =
     (let (found, cache) = ecache_get ops (ck_start (re_clock env)) (ck_start (re_clock env)) domain
            (rv_cache r)
      in (found, r\<lparr>rv_cache := cache\<rparr>))"

definition cache_store ::
    "(string, 'l) lru_ops \<Rightarrow> resolver_env \<Rightarrow> string \<Rightarrow> ip_addr list \<Rightarrow> 'l dns_resolver
     \<Rightarrow> 'l dns_resolver" where
  "cache_store ops env domain ips r =
     r\<lparr>rv_cache := ecache_insert ops (ck_base (re_clock env)) (ck_end (re_clock env))
         (ck_end (re_clock env)) domain ips (rv_cache r)\<rparr>"

text \<open>Filtering and ranking, which the operations share.\<close>

definition rank ::
    "(string, 'l) lru_ops \<Rightarrow> resolver_env \<Rightarrow> string \<Rightarrow> ip_addr list \<Rightarrow> 'l dns_resolver
     \<Rightarrow> ip_addr list \<times> 'l dns_resolver" where
  "rank ops env domain ips r =
     (let (ranked, prober) = select_ranked_ips ops (re_probe env) (re_clock env) domain
            (filter_ips ips PublicOnly) (rv_prober r)
      in (ranked, r\<lparr>rv_prober := prober\<rparr>))"

definition resolve ::
    "(string, 'l) lru_ops \<Rightarrow> resolver_env \<Rightarrow> string \<Rightarrow> 'l dns_resolver
     \<Rightarrow> (resolver_error, ip_addr) outcome \<times> 'l dns_resolver" where
  "resolve ops env domain r =
     (case cache_lookup ops env domain r of
        (Some ips, r1) \<Rightarrow> (case ips of [] \<Rightarrow> Panic | ip # _ \<Rightarrow> Ok ip, r1)
      | (None, r1) \<Rightarrow>
          (case doh_resolve ops (re_net env) domain (rv_doh r1) of
             (Err e, doh) \<Rightarrow> (Err (DohFailed e), r1\<lparr>rv_doh := doh\<rparr>)
           | (Panic, doh) \<Rightarrow> (Panic, r1\<lparr>rv_doh := doh\<rparr>)
           | (Ok answer, doh) \<Rightarrow>
               let r2 = r1\<lparr>rv_doh := doh\<rparr>; ips = dr_ips answer
               in if ips = [] then (Err EmptyAnswer, r2)
                  else
                    let (ranked, r3) = rank ops env domain ips r2
                    in if ranked = [] then
                         (if ips \<noteq> [] then (Ok (hd ips), cache_store ops env domain ips r3)
                          else (Err NoUsableIp, r3))
                       else (Ok (hd ranked), cache_store ops env domain ranked r3)))"

definition get_candidates ::
    "(string, 'l) lru_ops \<Rightarrow> resolver_env \<Rightarrow> string \<Rightarrow> 'l dns_resolver
     \<Rightarrow> (resolver_error, ip_addr list) outcome \<times> 'l dns_resolver" where
  "get_candidates ops env domain r =
     (case cache_lookup ops env domain r of
        (Some ips, r1) \<Rightarrow> (Ok ips, r1)
      | (None, r1) \<Rightarrow>
          (case doh_resolve ops (re_net env) domain (rv_doh r1) of
             (Err e, doh) \<Rightarrow> (Ok [], r1\<lparr>rv_doh := doh\<rparr>)
           | (Panic, doh) \<Rightarrow> (Panic, r1\<lparr>rv_doh := doh\<rparr>)
           | (Ok answer, doh) \<Rightarrow>
               let r2 = r1\<lparr>rv_doh := doh\<rparr>; ips = dr_ips answer
               in if ips \<noteq> [] then
                    let (ranked, r3) = rank ops env domain ips r2;
                        cached = (if ranked = [] then ips else ranked)
                    in (Ok cached, cache_store ops env domain cached r3)
                  else (Ok [], r2)))"

definition resolve_best ::
    "(string, 'l) lru_ops \<Rightarrow> resolver_env \<Rightarrow> string \<Rightarrow> 'l dns_resolver
     \<Rightarrow> (resolver_error, ip_addr) outcome \<times> 'l dns_resolver" where
  "resolve_best ops env domain r = resolve ops env domain r"

definition probe_interval :: "'l dns_resolver \<Rightarrow> nat" where
  "probe_interval r = rv_probe_interval r"

definition MAX_DOMAINS :: nat where
  "MAX_DOMAINS = 50"

text \<open>The fifty domains used last, the most recent one first.\<close>

definition domains_to_reprobe :: "'l dns_resolver \<Rightarrow> string list" where
  "domains_to_reprobe r =
     take MAX_DOMAINS (rev (map fst (sort_key snd
       (map (\<lambda>(k, e). (k, e_last_accessed e)) (ecache_dashmap (rv_cache r))))))"

text \<open>One task of the timed reprobing; \<open>False\<close> is a panic.\<close>

definition reprobe_one ::
    "(string, 'l) lru_ops \<Rightarrow> resolver_env \<Rightarrow> string \<Rightarrow> 'l dns_resolver \<Rightarrow> bool \<times> 'l dns_resolver" where
  "reprobe_one ops env domain r =
     (case doh_resolve ops (re_net env) domain (rv_doh r) of
        (Err e, doh) \<Rightarrow> (True, r\<lparr>rv_doh := doh\<rparr>)
      | (Panic, doh) \<Rightarrow> (False, r\<lparr>rv_doh := doh\<rparr>)
      | (Ok answer, doh) \<Rightarrow>
          let r1 = r\<lparr>rv_doh := doh\<rparr>; ips = dr_ips answer
          in if ips = [] then (True, r1)
             else
               let (ranked, prober) = force_reprobe_ranked ops (re_probe env) (re_clock env) domain
                     (filter_ips ips PublicOnly) (rv_prober r1);
                   r2 = r1\<lparr>rv_prober := prober\<rparr>
               in (True, if ranked \<noteq> [] then cache_store ops env domain ranked r2 else r2))"

text \<open>The tasks run at most four at a time; \<open>arrange\<close> is the order in which they finish.\<close>

fun reprobe_list ::
    "(string, 'l) lru_ops \<Rightarrow> (string \<Rightarrow> resolver_env) \<Rightarrow> string list \<Rightarrow> 'l dns_resolver
     \<Rightarrow> bool \<times> 'l dns_resolver" where
  "reprobe_list ops env [] r = (True, r)"
| "reprobe_list ops env (domain # domains) r =
     (case reprobe_one ops (env domain) domain r of
        (True, r') \<Rightarrow> reprobe_list ops env domains r'
      | (False, r') \<Rightarrow> (False, r'))"

definition reprobe_all ::
    "(string, 'l) lru_ops \<Rightarrow> (string \<Rightarrow> resolver_env) \<Rightarrow> (string list \<Rightarrow> string list)
     \<Rightarrow> 'l dns_resolver \<Rightarrow> bool \<times> 'l dns_resolver" where
  "reprobe_all ops env arrange r = reprobe_list ops env (arrange (domains_to_reprobe r)) r"

definition resolve_international ::
    "(string, 'l) lru_ops \<Rightarrow> resolver_env \<Rightarrow> string \<Rightarrow> 'l dns_resolver
     \<Rightarrow> (resolver_error, ip_addr list) outcome \<times> 'l dns_resolver" where
  "resolve_international ops env domain r =
     (case doh_resolve_international ops (re_net env) domain (rv_doh r) of
        (Err e, doh) \<Rightarrow> (Err (DohFailed e), r\<lparr>rv_doh := doh\<rparr>)
      | (Panic, doh) \<Rightarrow> (Panic, r\<lparr>rv_doh := doh\<rparr>)
      | (Ok answer, doh) \<Rightarrow>
          let r1 = r\<lparr>rv_doh := doh\<rparr>; ips = dr_ips answer
          in if ips = [] then (Err EmptyAnswer, r1)
             else
               let (ranked, r2) = rank ops env domain ips r1
               in if ranked = [] then (Ok ips, cache_store ops env domain ips r2)
                  else (Ok ranked, cache_store ops env domain ranked r2))"

definition resolver_invalidate ::
    "(string, 'l) lru_ops \<Rightarrow> string \<Rightarrow> 'l dns_resolver \<Rightarrow> 'l dns_resolver" where
  "resolver_invalidate ops domain r =
     r\<lparr>rv_cache := snd (ecache_remove ops domain (rv_cache r)),
       rv_prober := prober_invalidate ops domain (rv_prober r)\<rparr>"

definition resolver_invalidate_all :: "(string, 'l) lru_ops \<Rightarrow> 'l dns_resolver \<Rightarrow> 'l dns_resolver" where
  "resolver_invalidate_all ops r =
     r\<lparr>rv_cache := ecache_clear ops (rv_cache r), rv_prober := prober_invalidate_all ops (rv_prober r)\<rparr>"

section \<open>Cached lists are never empty\<close>

definition resolver_inv :: "('l \<Rightarrow> string list) \<Rightarrow> 'l dns_resolver \<Rightarrow> bool" where
  "resolver_inv order r \<longleftrightarrow>
     cache_inv order (rv_cache r) \<and> all_values (ecache_peek (rv_cache r)) (\<lambda>domain ips. ips \<noteq> [])"

datatype resolver_op =
  Resolve resolver_env string
  | Candidates resolver_env string
  | International resolver_env string
  | Reprobe "string \<Rightarrow> resolver_env" "string list \<Rightarrow> string list"
  | Invalidate string
  | InvalidateAll

fun resolver_step :: "(string, 'l) lru_ops \<Rightarrow> resolver_op \<Rightarrow> 'l dns_resolver \<Rightarrow> 'l dns_resolver" where
  "resolver_step ops (Resolve env d) r = snd (resolve ops env d r)"
| "resolver_step ops (Candidates env d) r = snd (get_candidates ops env d r)"
| "resolver_step ops (International env d) r = snd (resolve_international ops env d r)"
| "resolver_step ops (Reprobe env arrange) r = snd (reprobe_all ops env arrange r)"
| "resolver_step ops (Invalidate d) r = resolver_invalidate ops d r"
| "resolver_step ops InvalidateAll r = resolver_invalidate_all ops r"

locale resolver_index = lru_index ops order
  for ops :: "(string, 'l) lru_ops" and order :: "'l \<Rightarrow> string list"
begin

lemma inv_lookup:
  assumes "resolver_inv order r" and "cache_lookup ops env domain r = (found, r')"
  shows "resolver_inv order r'" and "found = Some ips \<Longrightarrow> ips \<noteq> []" and "rv_doh r' = rv_doh r"
proof -
  let ?get = "ecache_get ops (ck_start (re_clock env)) (ck_start (re_clock env)) domain (rv_cache r)"
  have get: "found = fst ?get" "r' = r\<lparr>rv_cache := snd ?get\<rparr>"
    using assms(2) by (auto simp: cache_lookup_def split: prod.splits)
  have inv: "cache_inv order (rv_cache r)"
    "all_values (ecache_peek (rv_cache r)) (\<lambda>domain ips. ips \<noteq> [])"
    using assms(1) by (simp_all add: resolver_inv_def)
  show "resolver_inv order r'"
    using ec.all_get [OF inv] ec.get_inv [OF inv(1)] by (simp add: get resolver_inv_def)
  show "rv_doh r' = rv_doh r" by (simp add: get)
  assume "found = Some ips"
  then show "ips \<noteq> []" using ec.all_get_value [OF inv] get(1) by metis
qed

lemma inv_store:
  "resolver_inv order r \<Longrightarrow> ips \<noteq> [] \<Longrightarrow> resolver_inv order (cache_store ops env domain ips r)"
  by (simp add: resolver_inv_def cache_store_def ec.all_ins inv_insert)

lemma inv_other [simp]:
  "resolver_inv order (r\<lparr>rv_doh := d\<rparr>) = resolver_inv order r"
  "resolver_inv order (r\<lparr>rv_prober := p\<rparr>) = resolver_inv order r"
  by (simp_all add: resolver_inv_def)

lemma inv_rank:
  "rank ops env domain ips r = (ranked, r') \<Longrightarrow> resolver_inv order r' = resolver_inv order r"
  by (auto simp: rank_def split: prod.splits)

lemma inv_resolve:
  assumes "resolver_inv order r"
  shows "resolver_inv order (snd (resolve ops env domain r))"
    and "fst (resolve ops env domain r) = Panic \<Longrightarrow>
      fst (doh_resolve ops (re_net env) domain (rv_doh r)) = Panic"
proof -
  obtain found r1 where l: "cache_lookup ops env domain r = (found, r1)" by fastforce
  note r1 = inv_lookup [OF assms l]
  obtain answer doh where a: "doh_resolve ops (re_net env) domain (rv_doh r) = (answer, doh)"
    by fastforce
  obtain ranked r3 where k: "rank ops env domain (dr_ips (case answer of Ok x \<Rightarrow> x))
      (r1\<lparr>rv_doh := doh\<rparr>) = (ranked, r3)" by fastforce
  have r3: "resolver_inv order r3" using inv_rank [OF k] r1(1) by simp
  show "resolver_inv order (snd (resolve ops env domain r))"
    using r1 a k r3 by (cases found; cases answer) (auto simp: resolve_def l Let_def intro: inv_store)
  assume "fst (resolve ops env domain r) = Panic"
  then show "fst (doh_resolve ops (re_net env) domain (rv_doh r)) = Panic"
    using r1 a k by (cases found; cases answer)
      (auto simp: resolve_def l Let_def split: list.splits if_splits)
qed

lemma inv_candidates:
  assumes "resolver_inv order r"
  shows "resolver_inv order (snd (get_candidates ops env domain r))"
proof -
  obtain found r1 where l: "cache_lookup ops env domain r = (found, r1)" by fastforce
  note r1 = inv_lookup [OF assms l]
  obtain answer doh where a: "doh_resolve ops (re_net env) domain (rv_doh r) = (answer, doh)"
    by fastforce
  obtain ranked r3 where k: "rank ops env domain (dr_ips (case answer of Ok x \<Rightarrow> x))
      (r1\<lparr>rv_doh := doh\<rparr>) = (ranked, r3)" by fastforce
  have "resolver_inv order r3" using inv_rank [OF k] r1(1) by simp
  then show ?thesis
    using r1 a k by (cases found; cases answer) (auto simp: get_candidates_def l Let_def intro: inv_store)
qed

lemma inv_international:
  assumes "resolver_inv order r"
  shows "resolver_inv order (snd (resolve_international ops env domain r))"
proof -
  obtain answer doh where a: "doh_resolve_international ops (re_net env) domain (rv_doh r) = (answer, doh)"
    by fastforce
  obtain ranked r3 where k: "rank ops env domain (dr_ips (case answer of Ok x \<Rightarrow> x))
      (r\<lparr>rv_doh := doh\<rparr>) = (ranked, r3)" by fastforce
  have "resolver_inv order r3" using inv_rank [OF k] assms by simp
  then show ?thesis
    using assms a k by (cases answer) (auto simp: resolve_international_def Let_def intro: inv_store)
qed

lemma inv_reprobe_one:
  assumes "resolver_inv order r"
  shows "resolver_inv order (snd (reprobe_one ops env domain r))"
  using assms
  by (auto simp: reprobe_one_def Let_def inv_store split: prod.splits outcome.splits)

lemma inv_reprobe: "resolver_inv order r \<Longrightarrow> resolver_inv order (snd (reprobe_list ops env ds r))"
proof (induction ds arbitrary: r)
  case (Cons d ds)
  obtain ok r' where o: "reprobe_one ops (env d) d r = (ok, r')" by fastforce
  have "resolver_inv order r'" using inv_reprobe_one [OF Cons.prems, of "env d" d] o by simp
  with Cons.IH show ?case by (cases ok) (simp_all add: o)
qed simp

lemma inv_step: "resolver_inv order r \<Longrightarrow> resolver_inv order (resolver_step ops a r)"
proof (cases a)
  case (Invalidate d)
  assume "resolver_inv order r"
  with Invalidate show ?thesis
    by (auto simp: resolver_inv_def resolver_invalidate_def intro: ec.all_rem ec.rem_inv)
next
  case InvalidateAll
  assume "resolver_inv order r"
  with InvalidateAll show ?thesis
    by (simp add: resolver_inv_def resolver_invalidate_all_def ec.all_clr ec.clr_inv)
qed (simp_all add: inv_resolve inv_candidates inv_international inv_reprobe reprobe_all_def)

lemma inv_start: "resolver_inv order (resolver_new ops v6 lookup config)"
  by (simp add: resolver_inv_def resolver_new_def inv_with_ttl)
    (simp add: all_values_def ecache_peek_def ecache_with_ttl_def)

lemma inv_run_resolver:
  "resolver_inv order (fold (resolver_step ops) as (resolver_new ops v6 lookup config))"
proof -
  have "resolver_inv order r \<Longrightarrow> resolver_inv order (fold (resolver_step ops) as r)" for r
    by (induction as arbitrary: r) (simp_all add: inv_step)
  then show ?thesis using inv_start by blast
qed

end

interpretation list_resolver: resolver_index list_lru_ops "\<lambda>l. l"
  by (rule resolver_index.intro) (rule list_lru.lru_index_axioms)


section \<open>The answer of a resolution\<close>

lemma rank_fst:
  "fst (rank ops env domain ips r) =
     fst (select_ranked_ips ops (re_probe env) (re_clock env) domain (filter_ips ips PublicOnly)
       (rv_prober r))"
  by (simp add: rank_def split: prod.splits)

text \<open>A concrete resolver with one endpoint and an address that can be reached.\<close>

definition sample_resolver :: "string list dns_resolver" where
  "sample_resolver = (resolver_new list_lru_ops (\<lambda>_. None) (\<lambda>_. None) default_dns)
     \<lparr>rv_doh := sample_client\<rparr>"

definition sample_env :: "nat \<Rightarrow> resolver_env" where
  "sample_env t = \<lparr>re_net = sample_net, re_probe = map (\<lambda>ip. (ip, Some 5, 9)),
     re_clock = \<lparr>ck_base = 0, ck_start = t, ck_end = t + 9\<rparr>\<rparr>"


lemma sample_rank:
  assumes "5 < pr_probe_timeout (rv_prober r)"
  shows "fst (rank list_lru_ops (sample_env t) domain [V4 140 82 121 3] r) = [V4 140 82 121 3]"
proof -
  have "filter_ips [V4 140 82 121 3] PublicOnly = [V4 140 82 121 3]"
    by (simp add: filter_ips_def keeps_ip_def v4_is_documentation_def is_reserved_ipv4_def)
  then show ?thesis
    using assms by (simp add: rank_fst select_ranked_ips_fst ips_to_probe_def probe_race_def keep_result_def
        below_timeout_def sample_env_def Let_def MIN_RESULTS_FOR_FAST_RETURN_def)
qed

lemma sample_resolver_run:
  "fst (cache_lookup list_lru_ops (sample_env t) ''github.com'' sample_resolver) = None"
  "fst (resolve list_lru_ops (sample_env t) ''github.com'' sample_resolver) = Ok (V4 140 82 121 3)"
proof -
  let ?ip = "V4 140 82 121 3"
  have look: "cache_lookup list_lru_ops (sample_env t) ''github.com'' sample_resolver = (None, sample_resolver)"
    by (simp add: cache_lookup_def sample_resolver_def resolver_new_def ecache_with_ttl_def ecache_get_def)
  then show "fst (cache_lookup list_lru_ops (sample_env t) ''github.com'' sample_resolver) = None" by simp
  obtain d where doh: "doh_resolve list_lru_ops (re_net (sample_env t)) ''github.com''
      (rv_doh sample_resolver) = (Ok \<lparr>dr_ips = [?ip], dr_doh_servers = [''alidns'']\<rparr>, d)"
    using sample_resolution by (auto simp: sample_env_def sample_resolver_def)
  have "fst (rank list_lru_ops (sample_env t) ''github.com'' [?ip] (sample_resolver\<lparr>rv_doh := d\<rparr>)) = [?ip]"
    by (rule sample_rank) (simp add: sample_resolver_def resolver_new_def prober_new_def default_dns_def)
  then show "fst (resolve list_lru_ops (sample_env t) ''github.com'' sample_resolver) = Ok ?ip"
    using look doh by (simp add: resolve_def Let_def case_prod_beta)
qed

lemma cache_lookup_miss:
  assumes "cache_lookup ops env domain r = (None, r1)"
  shows "rv_doh r1 = rv_doh r" "rv_prober r1 = rv_prober r"
    "ec_max_entries (rv_cache r1) = ec_max_entries (rv_cache r)"
    "ec_ttl (rv_cache r1) = ec_ttl (rv_cache r)"
  using assms by (auto simp: cache_lookup_def ecache_get_def ecache_drop_def
    split: prod.splits option.splits if_splits)

lemma resolve_miss:
  assumes "cache_lookup ops env domain r = (None, r1)"
    and "doh_resolve ops (re_net env) domain (rv_doh r) = (Ok answer, doh)"
    and "resolve ops env domain r = (Ok ip, r')"
  obtains ranked r3 where "rank ops env domain (dr_ips answer) (r1\<lparr>rv_doh := doh\<rparr>) = (ranked, r3)"
    and "ip = hd (if ranked = [] then dr_ips answer else ranked)"
    and "r' = cache_store ops env domain (if ranked = [] then dr_ips answer else ranked) r3"
    and "dr_ips answer \<noteq> []"
proof -
  obtain ranked r3 where "rank ops env domain (dr_ips answer) (r1\<lparr>rv_doh := doh\<rparr>) = (ranked, r3)"
    by fastforce
  with assms show thesis
    by (intro that) (auto simp: resolve_def cache_lookup_miss [OF assms(1)] Let_def split: if_splits)
qed



text \<open>
  What a resolution found is what the following calls use: as long as the cached
  entry lives, the candidates of the domain start with the address that was answered.
\<close>

theorem candidates_start_with_answer:
  assumes "lru_index ops order" and "cache_inv order (rv_cache r)"
    and "1 \<le> ec_max_entries (rv_cache r)" and "ec_ttl (rv_cache r) = Some ttl"
    and "fst (cache_lookup ops env domain r) = None"
    and "doh_resolve ops (re_net env) domain (rv_doh r) = (Ok answer, doh)"
    and "resolve ops env domain r = (Ok ip, r')"
    and "ck_start (re_clock env') - ck_end (re_clock env) \<le> ttl"
  shows "\<exists>rest. fst (get_candidates ops env' domain r') = Ok (ip # rest)"
proof -
  obtain r1 where miss: "cache_lookup ops env domain r = (None, r1)"
    using assms(5) by (metis prod.collapse)
  obtain ranked r3 where rank: "rank ops env domain (dr_ips answer) (r1\<lparr>rv_doh := doh\<rparr>) = (ranked, r3)"
    and ip: "ip = hd (if ranked = [] then dr_ips answer else ranked)" and ne: "dr_ips answer \<noteq> []"
    and r': "r' = cache_store ops env domain (if ranked = [] then dr_ips answer else ranked) r3"
    using resolve_miss [OF miss assms(6,7)] by metis
  let ?stored = "if ranked = [] then dr_ips answer else ranked"
  have stored: "?stored = ip # tl ?stored" using ip ne by (metis list.collapse)
  have r1: "cache_inv order (rv_cache r1)"
    using miss lru_index.inv_get [OF assms(1,2)]
    by (auto simp: cache_lookup_def split: prod.splits) (metis snd_conv)
  have r3: "rv_cache r3 = rv_cache r1" using rank by (auto simp: rank_def split: prod.splits)
  have "fst (ecache_get ops (ck_start (re_clock env')) (ck_start (re_clock env')) domain (rv_cache r')) =
      Some ?stored"
    unfolding r' cache_store_def using r1 assms(1,3,4,8) r3 cache_lookup_miss(3,4) [OF miss]
    by (simp add: insert_then_get)
  then have "fst (cache_lookup ops env' domain r') = Some ?stored"
    by (simp add: cache_lookup_def case_prod_beta)
  then have "fst (get_candidates ops env' domain r') = Ok ?stored"
    by (cases "cache_lookup ops env' domain r'") (simp add: get_candidates_def)
  with stored show ?thesis by metis
qed

theorem candidates_start_with_answer_witness:
  "\<exists>rest. fst (get_candidates list_lru_ops (sample_env 1000) ''github.com''
     (snd (resolve list_lru_ops (sample_env 3) ''github.com'' sample_resolver))) =
     Ok (V4 140 82 121 3 # rest)"
proof -
  obtain d where doh: "doh_resolve list_lru_ops (re_net (sample_env 3)) ''github.com''
      (rv_doh sample_resolver) = (Ok \<lparr>dr_ips = [V4 140 82 121 3], dr_doh_servers = [''alidns'']\<rparr>, d)"
    using sample_resolution by (auto simp: sample_env_def sample_resolver_def)
  obtain r' where r: "resolve list_lru_ops (sample_env 3) ''github.com'' sample_resolver =
      (Ok (V4 140 82 121 3), r')"
    using sample_resolver_run(2) [of 3] by (metis prod.collapse)
  have cache: "rv_cache sample_resolver = ecache_with_ttl list_lru_ops 1000 ''dns_cache'' (secs 300)"
    by (simp add: sample_resolver_def resolver_new_def default_dns_def)
  have "\<exists>rest. fst (get_candidates list_lru_ops (sample_env 1000) ''github.com'' r') =
      Ok (V4 140 82 121 3 # rest)"
    by (rule candidates_start_with_answer [OF list_lru.lru_index_axioms _ _ _ sample_resolver_run(1) doh r,
          where ttl = "secs 300"])
      (simp_all add: cache list_lru.inv_with_ttl, simp_all add: ecache_with_ttl_def sample_env_def)
  then show ?thesis by (simp add: r)
qed

end
