(* ===== verification/Working_Ip_Store.thy ===== *)
theory Working_Ip_Store
  imports Ip_Filter
begin

text \<open>
  The store of addresses that worked (\<open>src/dns/working_ip_store.rs\<close>): per domain at most ten
  addresses, the last success first, written to a file at most every five seconds. What the
  file held at the start is the parameter \<open>loaded\<close> (\<open>None\<close> when it is missing or no JSON);
  a write goes to a thread of its own, so the model only notes which data is handed over.
\<close>

section \<open>State and operations\<close>

type_synonym ip_table = "(string, ip_addr list) assoc"

record ip_store =
  is_data :: ip_table
  is_last_persist :: nat
  is_written :: "ip_table list"

definition MAX_IPS_PER_DOMAIN :: nat where
  "MAX_IPS_PER_DOMAIN = 10"

definition PERSIST_INTERVAL :: nat where
  "PERSIST_INTERVAL = secs 5"

definition store_new :: "nat \<Rightarrow> ip_table option \<Rightarrow> ip_store" where
  "store_new now loaded =
     \<lparr>is_data = (case loaded of None \<Rightarrow> [] | Some m \<Rightarrow> m), is_last_persist = now, is_written = []\<rparr>"

definition store_get :: "ip_store \<Rightarrow> string \<Rightarrow> ip_addr list" where
  "store_get s domain = (case map_of (is_data s) domain of None \<Rightarrow> [] | Some ips \<Rightarrow> ips)"

definition store_persist :: "nat \<Rightarrow> ip_store \<Rightarrow> ip_store" where
  "store_persist now s = s\<lparr>is_last_persist := now, is_written := is_written s @ [is_data s]\<rparr>"

definition record_success :: "nat \<Rightarrow> string \<Rightarrow> ip_addr \<Rightarrow> ip_store \<Rightarrow> ip_store" where
  "record_success now domain ip s =
     (let ips = store_get s domain;
          s' = s\<lparr>is_data := AList.update domain
                  (take MAX_IPS_PER_DOMAIN (ip # remove1 ip ips)) (is_data s)\<rparr>
      in if PERSIST_INTERVAL \<le> now - is_last_persist s' then store_persist now s' else s')"

section \<open>The history it keeps\<close>

definition record_all :: "(nat \<times> string \<times> ip_addr) list \<Rightarrow> ip_store \<Rightarrow> ip_store" where
  "record_all h s = fold (\<lambda>(now, domain, ip). record_success now domain ip) h s"

definition successes_of :: "string \<Rightarrow> (nat \<times> string \<times> ip_addr) list \<Rightarrow> ip_addr list" where
  "successes_of domain h = map (\<lambda>(now, d, ip). ip) (filter (\<lambda>(now, d, ip). d = domain) h)"

lemma store_get_record:
  "store_get (record_success now d ip s) domain =
     (if domain = d then take MAX_IPS_PER_DOMAIN (ip # remove1 ip (store_get s d))
      else store_get s domain)"
proof -
  have "map_of (AList.update k v m) j = (if j = k then Some v else map_of m j)"
    for k v j and m :: ip_table
    by (simp add: AList.update_conv')
  then show ?thesis by (simp add: record_success_def store_persist_def store_get_def Let_def)
qed

lemma take_remove1:
  "distinct xs \<Longrightarrow> take (Suc n) (x # remove1 x (take (Suc n) xs)) = take (Suc n) (x # remove1 x xs)"
proof (induction xs arbitrary: n)
  case (Cons y xs)
  show ?case
  proof (cases "x = y")
    case True
    with Cons.prems show ?thesis by simp
  next
    case False
    with Cons show ?thesis by (cases n) simp_all
  qed
qed simp

lemma rev_remdups_snoc:
  "rev (remdups (xs @ [x])) = x # remove1 x (rev (remdups xs))"
proof -
  have "remdups (xs @ [x]) = filter (\<lambda>y. y \<noteq> x) (remdups xs) @ [x]"
    by (induction xs) auto
  then show ?thesis
    by (simp add: distinct_remove1_removeAll removeAll_filter_not_eq rev_filter eq_commute)
qed

text \<open>
  Starting with no file, the store lists for each domain the addresses of its
  successes from the last one to the first, each once, and of those the first ten.
\<close>

theorem store_is_recent_history:
  "store_get (record_all h (store_new now None)) domain =
     take 10 (rev (remdups (successes_of domain h)))"
proof (induction h rule: rev_induct)
  case Nil
  then show ?case by (simp add: record_all_def store_new_def store_get_def successes_of_def)
next
  case (snoc x h)
  obtain t d ip where x: "x = (t, d, ip)" by (cases x) auto
  let ?l = "rev (remdups (successes_of domain h))"
  have "take 10 (ip # remove1 ip (take 10 ?l)) = take 10 (ip # remove1 ip ?l)"
    using take_remove1 [of ?l 9 ip] by simp
  with snoc show ?case
    by (auto simp: record_all_def x store_get_record successes_of_def MAX_IPS_PER_DOMAIN_def
        rev_remdups_snoc)
qed

text \<open>
  Whatever the file held, the last success of a domain is the first address of
  its list, and the list has at most ten addresses.
\<close>

theorem last_success_first:
  "(\<exists>rest. store_get (record_success now domain ip s) domain = ip # rest \<and> length rest \<le> 9) \<and>
   (is_written (record_success now domain ip s) \<noteq> is_written s \<longleftrightarrow>
      5000000000 \<le> now - is_last_persist s)"
  by (simp add: store_get_record MAX_IPS_PER_DOMAIN_def)
    (simp add: record_success_def store_persist_def PERSIST_INTERVAL_def Let_def)

end
