(* ===== verification/Intercept_Matcher.thy ===== *)
theory Intercept_Matcher
  imports Config Rust_Text
begin

text \<open>
  The matcher of intercept rules (\<open>src/intercepts/matcher.rs\<close>): the path patterns, read from a
  regex-like text, and the three indexes of rules by domain (exact names, \<open>*.\<close> suffixes,
  patterns with a star elsewhere). A position in the path is modelled by what is left of it.
\<close>

section \<open>Path patterns\<close>

datatype seg_chunk = Wild | Lit string

datatype simple_pattern =
  StartsWith string
  | Exact string
  | MatchAll
  | Contains string
  | SegmentPrefix "seg_chunk list"

abbreviation wild_text :: string where
  "wild_text \<equiv> ''[^/]+''"

lemma wild_found: "find_sub rest wild_text = Some pos \<Longrightarrow> length rest - (pos + 5) < length rest"
  using find_sub_bound [of rest wild_text pos] by simp

function split_chunks :: "string \<Rightarrow> seg_chunk list" where
  "split_chunks rest =
     (case find_sub rest wild_text of
        Some pos \<Rightarrow>
          (if 0 < pos then [Lit (take pos rest)] else []) @ Wild # split_chunks (drop (pos + 5) rest)
      | None \<Rightarrow> if rest \<noteq> [] then [Lit rest] else [])"
  by pat_completeness auto
termination
  by (relation "measure length") (use wild_found in simp_all)

declare split_chunks.simps [simp del]

definition parse_segment_prefix :: "string \<Rightarrow> simple_pattern" where
  "parse_segment_prefix p =
     (let rest = (if ends_with p ''.*'' then take (length p - 2) p else p)
      in SegmentPrefix (split_chunks rest))"

definition from_pattern :: "string \<Rightarrow> simple_pattern" where
  "from_pattern pattern =
     (let anchored = starts_with pattern ''^'';
          p = dropWhile (\<lambda>c. c = CHR ''^'') pattern
      in if contains_sub p wild_text then parse_segment_prefix p
         else case strip_suffix p ''.*'' of
                Some literal \<Rightarrow>
                  if literal = [] then MatchAll
                  else if anchored then StartsWith literal
                  else Contains literal
              | None \<Rightarrow> if p = ''.*'' \<or> p = [] then MatchAll else Exact p)"

fun matches_segment_prefix :: "seg_chunk list \<Rightarrow> string \<Rightarrow> bool" where
  "matches_segment_prefix [] rest = True"
| "matches_segment_prefix (Wild # chunks) rest =
     (if rest = [] \<or> hd rest = CHR ''/'' then False
      else matches_segment_prefix chunks (dropWhile (\<lambda>c. c \<noteq> CHR ''/'') rest))"
| "matches_segment_prefix (Lit lit # chunks) rest =
     (if chunks = [] then
        (if length lit > length rest then False else starts_with rest lit)
      else if length lit > length rest then False
      else if take (length lit) rest \<noteq> lit then False
      else matches_segment_prefix chunks (drop (length lit) rest))"

fun pattern_matches :: "simple_pattern \<Rightarrow> string \<Rightarrow> bool" where
  "pattern_matches (StartsWith s) path = starts_with path s"
| "pattern_matches (Exact s) path = (path = s)"
| "pattern_matches MatchAll path = True"
| "pattern_matches (Contains s) path = contains_sub path s"
| "pattern_matches (SegmentPrefix chunks) path = matches_segment_prefix chunks path"

section \<open>The indexes\<close>

record exact_rule =
  xr_path_pattern :: "simple_pattern option"
  xr_action :: intercept_action

record suffix_rule =
  sr_suffix :: string
  sr_dot_suffix :: string
  sr_path_pattern :: "simple_pattern option"
  sr_action :: intercept_action

record wildcard_rule =
  wr_pattern :: string
  wr_star_pos :: nat
  wr_path_pattern :: "simple_pattern option"
  wr_action :: intercept_action

record intercept_matcher =
  im_exact :: "(string, exact_rule list) assoc"
  im_suffix :: "suffix_rule list"
  im_wildcard :: "wildcard_rule list"

definition add_rule :: "intercept_matcher \<Rightarrow> intercept_rule \<Rightarrow> intercept_matcher" where
  "add_rule m rule =
     (let path_pattern = map_option from_pattern (ir_from_pattern rule);
          from = to_lowercase (ir_from rule)
      in if starts_with from ''*.'' then
           let base = to_lowercase (drop 2 from)
           in m\<lparr>im_suffix := im_suffix m @
                 [\<lparr>sr_suffix = base, sr_dot_suffix = CHR ''.'' # base,
                   sr_path_pattern = path_pattern, sr_action = ir_action rule\<rparr>]\<rparr>
         else case find_sub from ''*'' of
                Some star_pos \<Rightarrow>
                  m\<lparr>im_wildcard := im_wildcard m @
                     [\<lparr>wr_pattern = from, wr_star_pos = star_pos,
                       wr_path_pattern = path_pattern, wr_action = ir_action rule\<rparr>]\<rparr>
              | None \<Rightarrow>
                  m\<lparr>im_exact := AList.update from
                     ((case map_of (im_exact m) from of None \<Rightarrow> [] | Some rs \<Rightarrow> rs) @
                      [\<lparr>xr_path_pattern = path_pattern, xr_action = ir_action rule\<rparr>])
                     (im_exact m)\<rparr>)"

definition matcher_new :: "intercept_rule list \<Rightarrow> intercept_matcher" where
  "matcher_new rules = foldl add_rule \<lparr>im_exact = [], im_suffix = [], im_wildcard = []\<rparr> rules"

definition path_matches :: "simple_pattern option \<Rightarrow> string \<Rightarrow> bool" where
  "path_matches pattern path = (case pattern of Some p \<Rightarrow> pattern_matches p path | None \<Rightarrow> True)"

definition wildcard_matches :: "wildcard_rule \<Rightarrow> string \<Rightarrow> bool" where
  "wildcard_matches rule domain =
     (let before = take (wr_star_pos rule) (wr_pattern rule);
          after = drop (wr_star_pos rule + 1) (wr_pattern rule)
      in starts_with domain before \<and> ends_with domain after \<and>
         length before + length after \<le> length domain)"

definition match_domain :: "intercept_matcher \<Rightarrow> string \<Rightarrow> string \<Rightarrow> intercept_action option" where
  "match_domain m domain path =
     (let domain_lower = to_lowercase domain;
          exact = (case map_of (im_exact m) domain_lower of None \<Rightarrow> [] | Some rules \<Rightarrow> rules)
      in case find (\<lambda>r. path_matches (xr_path_pattern r) path) exact of
           Some r \<Rightarrow> Some (xr_action r)
         | None \<Rightarrow>
             (case find (\<lambda>r. (domain_lower = sr_suffix r \<or> ends_with domain_lower (sr_dot_suffix r))
                       \<and> path_matches (sr_path_pattern r) path) (im_suffix m) of
                Some r \<Rightarrow> Some (sr_action r)
              | None \<Rightarrow>
                  map_option wr_action
                    (find (\<lambda>r. wildcard_matches r domain_lower \<and> path_matches (wr_path_pattern r) path)
                       (im_wildcard m))))"

section \<open>Patterns as regular expressions\<close>

text \<open>
  What a chunk list means as a regular expression that ends in \<open>.*\<close>: some way to cut the path
  into the literals and the non-empty slash-free segments, with anything behind.
\<close>

fun denotes :: "seg_chunk list \<Rightarrow> string \<Rightarrow> bool" where
  "denotes [] path = True"
| "denotes (Wild # chunks) path =
     (\<exists>w rest. path = w @ rest \<and> w \<noteq> [] \<and> CHR ''/'' \<notin> set w \<and> denotes chunks rest)"
| "denotes (Lit lit # chunks) path = (\<exists>rest. path = lit @ rest \<and> denotes chunks rest)"

fun well_separated :: "seg_chunk list \<Rightarrow> bool" where
  "well_separated [] = True"
| "well_separated (Lit lit # chunks) = well_separated chunks"
| "well_separated (Wild # chunks) =
     (case chunks of
        [] \<Rightarrow> True
      | Lit lit # _ \<Rightarrow> lit \<noteq> [] \<and> hd lit = CHR ''/'' \<and> well_separated chunks
      | Wild # _ \<Rightarrow> False)"

lemma match_lit:
  "matches_segment_prefix (Lit lit # chunks) path \<longleftrightarrow>
     (\<exists>rest. path = lit @ rest \<and> matches_segment_prefix chunks rest)"
proof (cases "chunks = []")
  case True
  then show ?thesis by (auto simp: starts_with_iff)
next
  case False
  show ?thesis
  proof
    assume "matches_segment_prefix (Lit lit # chunks) path"
    with False have "take (length lit) path = lit" "matches_segment_prefix chunks (drop (length lit) path)"
      by (auto split: if_splits)
    then show "\<exists>rest. path = lit @ rest \<and> matches_segment_prefix chunks rest"
      by (metis append_take_drop_id)
  qed (use False in auto)
qed

lemma segment_cut:
  assumes "path = w @ rest" "CHR ''/'' \<notin> set w" "rest = [] \<or> hd rest = CHR ''/''"
  shows "dropWhile (\<lambda>c. c \<noteq> CHR ''/'') path = rest"
  using assms by (cases rest) (auto simp: dropWhile_append)

lemma hd_denotes_lit: "denotes (Lit lit # chunks) rest \<Longrightarrow> lit \<noteq> [] \<Longrightarrow> rest \<noteq> [] \<and> hd rest = hd lit"
  by (cases lit) auto


definition release_chunks :: "seg_chunk list" where
  "release_chunks = [Lit ''/'', Wild, Lit ''/'', Wild, Lit ''/releases/download/'']"

lemma release_pattern:
  "from_pattern ''^/[^/]+/[^/]+/releases/download/.*'' = SegmentPrefix release_chunks"
  by (simp add: from_pattern_def parse_segment_prefix_def release_chunks_def contains_sub_def
      ends_with_def split_chunks.simps)


text \<open>
  A \<open>[^/]+\<close> that is followed by anything else than a slash swallows the whole
  segment and the pattern never matches: the rule \<open>^/[^/]+.zip\<close> is dead, although the regular
  expression it is written as has matches.
\<close>

theorem greedy_segment_never_matches:
  assumes "lit \<noteq> []" and "hd lit \<noteq> CHR ''/''"
  shows "\<not> pattern_matches (SegmentPrefix (before @ Wild # Lit lit # after)) path \<and>
    from_pattern ''^/[^/]+.zip'' = SegmentPrefix [Lit ''/'', Wild, Lit ''.zip''] \<and>
    denotes [Lit ''/'', Wild, Lit ''.zip''] ''/a.zip''"
proof (intro conjI)
  show "\<not> pattern_matches (SegmentPrefix (before @ Wild # Lit lit # after)) path"
  proof (induction before arbitrary: path)
    case Nil
    have "dropWhile (\<lambda>c. c \<noteq> CHR ''/'') path \<noteq> lit @ rest" for rest
      using assms hd_dropWhile [of "\<lambda>c. c \<noteq> CHR ''/''" path] by (metis append_is_Nil_conv hd_append2)
    then show ?case by (auto simp: match_lit simp del: matches_segment_prefix.simps(3))
  next
    case (Cons c before)
    then show ?case by (cases c) (auto simp: match_lit simp del: matches_segment_prefix.simps(3))
  qed
  show "from_pattern ''^/[^/]+.zip'' = SegmentPrefix [Lit ''/'', Wild, Lit ''.zip'']"
    by (simp add: from_pattern_def parse_segment_prefix_def contains_sub_def ends_with_def
        split_chunks.simps)
  show "denotes [Lit ''/'', Wild, Lit ''.zip''] ''/a.zip''"
    unfolding denotes.simps
    by (rule exI [of _ "''a.zip''"], simp, rule exI [of _ "''a''"], simp)
qed

theorem greedy_segment_never_matches_witness:
  "\<not> pattern_matches (from_pattern ''^/[^/]+.zip'') ''/a.zip''"
  using greedy_segment_never_matches [of "''.zip''" "[Lit ''/'']" "[]" "''/a.zip''"] by simp

section \<open>The indexes as a scan of the rules\<close>

definition rule_from :: "intercept_rule \<Rightarrow> string" where
  "rule_from r = to_lowercase (ir_from r)"

text \<open>The class of a rule: 0 for a plain name, 1 for \<open>*.\<close> and a suffix, 2 for another star.\<close>

definition rule_class :: "intercept_rule \<Rightarrow> nat" where
  "rule_class r =
     (if starts_with (rule_from r) ''*.'' then 1 else if CHR ''*'' \<in> set (rule_from r) then 2 else 0)"

definition domain_applies :: "intercept_rule \<Rightarrow> string \<Rightarrow> bool" where
  "domain_applies r d =
     (if rule_class r = 0 then d = rule_from r
      else if rule_class r = 1 then
        d = drop 2 (rule_from r) \<or> (\<exists>sub. d = sub @ CHR ''.'' # drop 2 (rule_from r))
      else \<exists>before after middle. rule_from r = before @ CHR ''*'' # after \<and> CHR ''*'' \<notin> set before \<and>
             d = before @ middle @ after)"

definition rule_applies :: "string \<Rightarrow> string \<Rightarrow> intercept_rule \<Rightarrow> bool" where
  "rule_applies domain path r =
     (domain_applies r (to_lowercase domain) \<and>
      path_matches (map_option from_pattern (ir_from_pattern r)) path)"

definition first_of_class :: "nat \<Rightarrow> intercept_rule list \<Rightarrow> string \<Rightarrow> string \<Rightarrow> intercept_rule option" where
  "first_of_class k rules domain path =
     find (\<lambda>r. rule_class r = k \<and> rule_applies domain path r) rules"

definition mk_exact :: "intercept_rule \<Rightarrow> exact_rule" where
  "mk_exact r = \<lparr>xr_path_pattern = map_option from_pattern (ir_from_pattern r), xr_action = ir_action r\<rparr>"

definition mk_suffix :: "intercept_rule \<Rightarrow> suffix_rule" where
  "mk_suffix r = \<lparr>sr_suffix = drop 2 (rule_from r), sr_dot_suffix = CHR ''.'' # drop 2 (rule_from r),
     sr_path_pattern = map_option from_pattern (ir_from_pattern r), sr_action = ir_action r\<rparr>"

definition mk_wildcard :: "intercept_rule \<Rightarrow> wildcard_rule" where
  "mk_wildcard r = \<lparr>wr_pattern = rule_from r, wr_star_pos = the (find_sub (rule_from r) ''*''),
     wr_path_pattern = map_option from_pattern (ir_from_pattern r), wr_action = ir_action r\<rparr>"

lemma find_star: "find_sub s ''*'' = None \<longleftrightarrow> CHR ''*'' \<notin> set s"
  by (induction s) auto

lemma to_lowercase_drop: "to_lowercase (drop n (to_lowercase s)) = drop n (to_lowercase s)"
  by (simp add: to_lowercase_def drop_map)

lemma add_rule_eq:
  "add_rule m r =
     (if rule_class r = 1 then m\<lparr>im_suffix := im_suffix m @ [mk_suffix r]\<rparr>
      else if rule_class r = 2 then m\<lparr>im_wildcard := im_wildcard m @ [mk_wildcard r]\<rparr>
      else m\<lparr>im_exact := AList.update (rule_from r)
             ((case map_of (im_exact m) (rule_from r) of None \<Rightarrow> [] | Some rs \<Rightarrow> rs) @ [mk_exact r])
             (im_exact m)\<rparr>)"
  using find_star [of "rule_from r"]
  by (auto simp: add_rule_def rule_class_def rule_from_def mk_suffix_def mk_wildcard_def mk_exact_def
      Let_def to_lowercase_drop split: option.splits)

definition exact_rules_of :: "intercept_matcher \<Rightarrow> string \<Rightarrow> exact_rule list" where
  "exact_rules_of m d = (case map_of (im_exact m) d of None \<Rightarrow> [] | Some rs \<Rightarrow> rs)"

lemma matcher_new_indexes:
  "im_suffix (matcher_new rules) = map mk_suffix (filter (\<lambda>r. rule_class r = 1) rules) \<and>
   im_wildcard (matcher_new rules) = map mk_wildcard (filter (\<lambda>r. rule_class r = 2) rules) \<and>
   exact_rules_of (matcher_new rules) d =
     map mk_exact (filter (\<lambda>r. rule_class r = 0 \<and> rule_from r = d) rules)"
proof (induction rules rule: rev_induct)
  case Nil
  then show ?case by (simp add: matcher_new_def exact_rules_of_def)
next
  case (snoc r rules)
  have step: "matcher_new (rules @ [r]) = add_rule (matcher_new rules) r"
    by (simp add: matcher_new_def)
  have cls: "rule_class r \<in> {0, 1, 2}" by (simp add: rule_class_def)
  have upd: "map_of (AList.update k v m) j = (if j = k then Some v else map_of m j)"
    for k j :: string and v :: "exact_rule list" and m
    by (simp add: AList.update_conv')
  from snoc cls show ?case
    unfolding step add_rule_eq by (auto simp: exact_rules_of_def upd)
qed

lemma find_map_filter:
  "find P (map f (filter Q xs)) = map_option f (find (\<lambda>x. Q x \<and> P (f x)) xs)"
  by (induction xs) auto

lemma first_occurrence_unique:
  "xs @ c # ys = xs' @ c # ys' \<Longrightarrow> c \<notin> set xs \<Longrightarrow> c \<notin> set xs' \<Longrightarrow> xs = xs' \<and> ys = ys'"
proof (induction xs arbitrary: xs')
  case Nil
  then show ?case by (cases xs') auto
next
  case (Cons x xs)
  then show ?case by (cases xs') auto
qed

lemma wildcard_mk:
  assumes "rule_class r = 2"
  shows "wildcard_matches (mk_wildcard r) d \<longleftrightarrow> domain_applies r d"
proof -
  have "CHR ''*'' \<in> set (rule_from r)" using assms by (auto simp: rule_class_def split: if_splits)
  then obtain bef aft where split: "rule_from r = bef @ CHR ''*'' # aft" "CHR ''*'' \<notin> set bef"
    by (meson split_list_first)
  have find: "find_sub (rule_from r) ''*'' = Some (length bef)"
    using split find_sub_singleton_append [of "CHR ''*''" bef aft] by simp
  have unique: "b = bef \<and> a = aft" if "rule_from r = b @ CHR ''*'' # a" "CHR ''*'' \<notin> set b" for a b
    using first_occurrence_unique [of b "CHR ''*''" a bef aft] that split by simp
  have "wildcard_matches (mk_wildcard r) d \<longleftrightarrow>
      starts_with d bef \<and> ends_with d aft \<and> length bef + length aft \<le> length d"
    using find by (simp add: wildcard_matches_def mk_wildcard_def split(1))
  also have "\<dots> \<longleftrightarrow> (\<exists>middle. d = bef @ middle @ aft)"
  proof
    assume a: "starts_with d bef \<and> ends_with d aft \<and> length bef + length aft \<le> length d"
    then obtain y z where "d = bef @ y" "d = z @ aft"
      unfolding starts_with_iff ends_with_iff by blast
    moreover from \<open>d = z @ aft\<close> a have "length bef \<le> length z" by simp
    ultimately have "\<exists>middle. z = bef @ middle" by (auto simp: append_eq_append_conv2)
    then obtain middle where "z = bef @ middle" by blast
    then show "\<exists>middle. d = bef @ middle @ aft" using \<open>d = z @ aft\<close> by simp
  qed (auto simp: ends_with_iff intro: exI [of _ "bef @ _"])
  also have "\<dots> \<longleftrightarrow> domain_applies r d"
  proof
    assume "\<exists>middle. d = bef @ middle @ aft"
    with split show "domain_applies r d" unfolding domain_applies_def assms by force
  next
    assume "domain_applies r d"
    then obtain b a m where "rule_from r = b @ CHR ''*'' # a" "CHR ''*'' \<notin> set b" "d = b @ m @ a"
      using assms by (auto simp: domain_applies_def)
    with unique show "\<exists>middle. d = bef @ middle @ aft" by blast
  qed
  finally show ?thesis .
qed

lemma match_domain_scan:
  "match_domain (matcher_new rules) domain path =
     map_option ir_action
       (case first_of_class 0 rules domain path of
          Some r \<Rightarrow> Some r
        | None \<Rightarrow> (case first_of_class 1 rules domain path of
                     Some r \<Rightarrow> Some r
                   | None \<Rightarrow> first_of_class 2 rules domain path))"
proof -
  let ?d = "to_lowercase domain"
  note ix = matcher_new_indexes [of rules ?d]
  have e: "find (\<lambda>r. path_matches (xr_path_pattern r) path)
      (case map_of (im_exact (matcher_new rules)) ?d of None \<Rightarrow> [] | Some rs \<Rightarrow> rs) =
      map_option mk_exact (first_of_class 0 rules domain path)"
    using ix unfolding exact_rules_of_def
    by (simp add: find_map_filter first_of_class_def rule_applies_def domain_applies_def mk_exact_def
        conj_ac eq_commute [of ?d] cong: conj_cong)
  have s: "find (\<lambda>r. (?d = sr_suffix r \<or> ends_with ?d (sr_dot_suffix r)) \<and>
        path_matches (sr_path_pattern r) path) (im_suffix (matcher_new rules)) =
      map_option mk_suffix (first_of_class 1 rules domain path)"
    using ix
    by (simp add: find_map_filter first_of_class_def rule_applies_def domain_applies_def mk_suffix_def
        ends_with_iff cong: conj_cong)
  have w: "find (\<lambda>r. wildcard_matches r ?d \<and> path_matches (wr_path_pattern r) path)
        (im_wildcard (matcher_new rules)) =
      map_option mk_wildcard (first_of_class 2 rules domain path)"
    using ix
    by (simp add: find_map_filter first_of_class_def rule_applies_def wildcard_mk cong: conj_cong)
      (simp add: mk_wildcard_def)
  show ?thesis
    by (simp add: match_domain_def Let_def e s w mk_exact_def mk_suffix_def mk_wildcard_def
        option.map_comp comp_def split: option.splits)
qed

text \<open>
  Property C11. The three indexes answer like a scan of the configured rules: the first rule
  with exactly this name whose path pattern matches, or else the first suffix rule, or else
  the first rule with a star; and the case of the domain does not matter.
\<close>

theorem match_domain_is_scan:
  "match_domain (matcher_new rules) domain path =
     map_option ir_action
       (case first_of_class 0 rules domain path of
          Some r \<Rightarrow> Some r
        | None \<Rightarrow> (case first_of_class 1 rules domain path of
                     Some r \<Rightarrow> Some r
                   | None \<Rightarrow> first_of_class 2 rules domain path)) \<and>
   match_domain (matcher_new rules) (to_lowercase domain) path =
     match_domain (matcher_new rules) domain path"
  using match_domain_scan [of rules domain path] by (simp add: match_domain_def)

end
