(* ===== verification/Mirror_Health.thy ===== *)
theory Mirror_Health
  imports Complex_Main Prelude
begin

text \<open>
  The health of the mirrors (\<open>src/intercepts/mirror_health.rs\<close>): a mirror that fails several
  times in a row is switched off and comes back when the recovery time is over. Response times
  are \<open>f64\<close> numbers of the code; the model computes the moving average exactly, with rational
  numbers, and \<open>f64::MAX\<close> for a mirror without statistics is \<open>None\<close>.
\<close>

section \<open>State\<close>

record mirror_health =
  mh_consecutive_failures :: "32 word"
  mh_total_successes :: "64 word"
  mh_total_failures :: "64 word"
  mh_last_response_time :: "rat option"
  mh_avg_response_time :: rat
  mh_response_time_count :: "64 word"
  mh_disabled_at :: "nat option"

record mirror_tracker =
  mt_health :: "(string, mirror_health) assoc"
  mt_failure_threshold :: "32 word"
  mt_recovery_timeout :: nat

definition default_health :: mirror_health where
  "default_health =
     \<lparr>mh_consecutive_failures = 0, mh_total_successes = 0, mh_total_failures = 0,
      mh_last_response_time = None, mh_avg_response_time = 0, mh_response_time_count = 0,
      mh_disabled_at = None\<rparr>"

definition tracker_new :: "32 word \<Rightarrow> nat \<Rightarrow> mirror_tracker" where
  "tracker_new failure_threshold recovery_timeout_secs =
     \<lparr>mt_health = [], mt_failure_threshold = max failure_threshold 1,
      mt_recovery_timeout = secs recovery_timeout_secs\<rparr>"

definition default_tracker :: mirror_tracker where
  "default_tracker = tracker_new 3 300"

definition health_of :: "string \<Rightarrow> mirror_tracker \<Rightarrow> mirror_health" where
  "health_of mirror t =
     (case map_of (mt_health t) mirror of None \<Rightarrow> default_health | Some h \<Rightarrow> h)"

definition set_health :: "string \<Rightarrow> mirror_health \<Rightarrow> mirror_tracker \<Rightarrow> mirror_tracker" where
  "set_health mirror h t = t\<lparr>mt_health := AList.update mirror h (mt_health t)\<rparr>"

section \<open>Operations\<close>

definition mirror_success :: "string \<Rightarrow> rat \<Rightarrow> mirror_tracker \<Rightarrow> mirror_tracker" where
  "mirror_success mirror response_time t =
     (let h = health_of mirror t;
          avg = (if mh_response_time_count h = 0 then response_time
                 else 3 / 10 * response_time + 7 / 10 * mh_avg_response_time h)
      in set_health mirror
           (h\<lparr>mh_consecutive_failures := 0,
              mh_total_successes := mh_total_successes h + 1,
              mh_last_response_time := Some response_time,
              mh_avg_response_time := avg,
              mh_response_time_count := mh_response_time_count h + 1,
              mh_disabled_at := None\<rparr>) t)"

definition mirror_failure :: "nat \<Rightarrow> string \<Rightarrow> mirror_tracker \<Rightarrow> mirror_tracker" where
  "mirror_failure now mirror t =
     (let h = health_of mirror t;
          h1 = h\<lparr>mh_consecutive_failures := mh_consecutive_failures h + 1,
                 mh_total_failures := mh_total_failures h + 1\<rparr>
      in set_health mirror
           (if mt_failure_threshold t \<le> mh_consecutive_failures h1 \<and> mh_disabled_at h1 = None
            then h1\<lparr>mh_disabled_at := Some now\<rparr> else h1) t)"

text \<open>The check switches a mirror back on when its time is over, so it changes the state.\<close>

definition mirror_available :: "nat \<Rightarrow> string \<Rightarrow> mirror_tracker \<Rightarrow> bool \<times> mirror_tracker" where
  "mirror_available now mirror t =
     (case map_of (mt_health t) mirror of
        Some h \<Rightarrow>
          (case mh_disabled_at h of
             Some disabled_at \<Rightarrow>
               if mt_recovery_timeout t \<le> now - disabled_at
               then (True, set_health mirror (h\<lparr>mh_disabled_at := None, mh_consecutive_failures := 0\<rparr>) t)
               else (False, t)
           | None \<Rightarrow> (True, t))
      | None \<Rightarrow> (True, t))"

fun filter_available :: "nat \<Rightarrow> string list \<Rightarrow> mirror_tracker \<Rightarrow> string list \<times> mirror_tracker" where
  "filter_available now [] t = ([], t)"
| "filter_available now (m # ms) t =
     (let (ok, t1) = mirror_available now m t; (rest, t2) = filter_available now ms t1
      in (if ok then m # rest else rest, t2))"

text \<open>The average of a mirror; \<open>None\<close> is the largest value.\<close>

definition avg_of :: "mirror_tracker \<Rightarrow> string \<Rightarrow> rat option" where
  "avg_of t m = map_option mh_avg_response_time (map_of (mt_health t) m)"

fun faster :: "rat option \<Rightarrow> rat option \<Rightarrow> bool" where
  "faster (Some a) (Some b) = (a < b)"
| "faster (Some a) None = True"
| "faster None y = False"

text \<open>\<open>min_by\<close> keeps the first of equal elements.\<close>

definition fastest :: "mirror_tracker \<Rightarrow> string \<Rightarrow> string list \<Rightarrow> string" where
  "fastest t m ms = foldl (\<lambda>best x. if faster (avg_of t x) (avg_of t best) then x else best) m ms"

definition get_best_mirror :: "nat \<Rightarrow> string list \<Rightarrow> mirror_tracker \<Rightarrow> string option \<times> mirror_tracker" where
  "get_best_mirror now mirrors t =
     (let (available, t') = filter_available now mirrors t
      in (case available of
            [] \<Rightarrow> None
          | [m] \<Rightarrow> Some m
          | m # ms \<Rightarrow> Some (fastest t' m ms), t'))"

record mirror_stats =
  ms_mirror :: string
  ms_consecutive_failures :: "32 word"
  ms_total_successes :: "64 word"
  ms_total_failures :: "64 word"
  ms_avg_response_time :: rat
  ms_last_response_time :: "rat option"
  ms_is_disabled :: bool

definition stats_of :: "string \<Rightarrow> mirror_health \<Rightarrow> mirror_stats" where
  "stats_of mirror h =
     \<lparr>ms_mirror = mirror, ms_consecutive_failures = mh_consecutive_failures h,
      ms_total_successes = mh_total_successes h, ms_total_failures = mh_total_failures h,
      ms_avg_response_time = mh_avg_response_time h,
      ms_last_response_time = mh_last_response_time h,
      ms_is_disabled = (mh_disabled_at h \<noteq> None)\<rparr>"

definition get_stats :: "string \<Rightarrow> mirror_tracker \<Rightarrow> mirror_stats option" where
  "get_stats mirror t = map_option (stats_of mirror) (map_of (mt_health t) mirror)"

definition get_all_stats :: "mirror_tracker \<Rightarrow> mirror_stats list" where
  "get_all_stats t = map (\<lambda>(m, h). stats_of m h) (mt_health t)"

section \<open>Availability over time\<close>

lemma health_of_set [simp]:
  "health_of m (set_health m' h t) = (if m = m' then h else health_of m t)"
  by (simp add: health_of_def set_health_def AList.update_conv')

lemma set_health_fixed [simp]:
  "mt_failure_threshold (set_health m h t) = mt_failure_threshold t"
  "mt_recovery_timeout (set_health m h t) = mt_recovery_timeout t"
  by (simp_all add: set_health_def)

lemma available_iff:
  "fst (mirror_available now m t) \<longleftrightarrow>
     (case mh_disabled_at (health_of m t) of None \<Rightarrow> True | Some d \<Rightarrow> mt_recovery_timeout t \<le> now - d)"
  by (auto simp: mirror_available_def health_of_def default_health_def split: option.splits)

definition fail_all :: "string \<Rightarrow> nat list \<Rightarrow> mirror_tracker \<Rightarrow> mirror_tracker" where
  "fail_all m ts t = fold (\<lambda>now. mirror_failure now m) ts t"

lemma fail_all_state:
  assumes "mh_consecutive_failures (health_of m t) = 0" and "mh_disabled_at (health_of m t) = None"
    and "0 < mt_failure_threshold t" and "length ts < 2 ^ 32"
  shows "unat (mh_consecutive_failures (health_of m (fail_all m ts t))) = length ts \<and>
    mh_disabled_at (health_of m (fail_all m ts t)) =
      (if unat (mt_failure_threshold t) \<le> length ts
       then Some (ts ! (unat (mt_failure_threshold t) - 1)) else None) \<and>
    mt_failure_threshold (fail_all m ts t) = mt_failure_threshold t \<and>
    mt_recovery_timeout (fail_all m ts t) = mt_recovery_timeout t"
  using assms(4)
proof (induction ts rule: rev_induct)
  case Nil
  then show ?case using assms by (simp add: fail_all_def word_less_nat_alt)
next
  case (snoc now ts)
  let ?q = "fail_all m ts t"
  have IH: "unat (mh_consecutive_failures (health_of m ?q)) = length ts"
    "mh_disabled_at (health_of m ?q) = (if unat (mt_failure_threshold t) \<le> length ts
       then Some (ts ! (unat (mt_failure_threshold t) - 1)) else None)"
    "mt_failure_threshold ?q = mt_failure_threshold t" "mt_recovery_timeout ?q = mt_recovery_timeout t"
    using snoc by simp_all
  have suc: "unat (mh_consecutive_failures (health_of m ?q) + 1) = Suc (length ts)"
    using snoc.prems IH(1) by (simp add: unat_plus_if_size word_size)
  have step: "fail_all m (ts @ [now]) t = mirror_failure now m ?q" by (simp add: fail_all_def)
  have pos: "0 < unat (mt_failure_threshold t)" using assms(3) by (simp add: word_less_nat_alt)
  show ?case
    unfolding step mirror_failure_def Let_def
    using suc IH pos by (auto simp: word_le_nat_alt nth_append le_Suc_eq)
qed

text \<open>
  After a success, a mirror that has failed \<open>n\<close> times in a row is available
  exactly if \<open>n\<close> is below the threshold, or if the recovery time since the failure that reached
  the threshold is over; later failures do not prolong it.
\<close>

theorem mirror_switch:
  assumes "0 < mt_failure_threshold t" and "length ts < 2 ^ 32"
  shows "fst (mirror_available now m (fail_all m ts (mirror_success m rt t))) \<longleftrightarrow>
    length ts < unat (mt_failure_threshold t) \<or>
    mt_recovery_timeout t \<le> now - ts ! (unat (mt_failure_threshold t) - 1)"
proof -
  let ?t = "mirror_success m rt t"
  have "mh_consecutive_failures (health_of m ?t) = 0" "mh_disabled_at (health_of m ?t) = None"
    "mt_failure_threshold ?t = mt_failure_threshold t" "mt_recovery_timeout ?t = mt_recovery_timeout t"
    by (simp_all add: mirror_success_def Let_def)
  with fail_all_state [of m ?t ts] assms show ?thesis by (auto simp: available_iff)
qed

theorem mirror_switch_witness:
  "\<not> fst (mirror_available 100 ''m'' (fail_all ''m'' [1, 2, 3, 50] (mirror_success ''m'' 7 default_tracker)))"
  using mirror_switch [of default_tracker "[1, 2, 3, 50]" 100 "''m''" 7]
  by (simp add: default_tracker_def tracker_new_def max_def)

section \<open>The choice of a mirror\<close>

lemma available_keeps:
  "m' \<noteq> m \<Longrightarrow> health_of m' (snd (mirror_available now m t)) = health_of m' t"
  "avg_of (snd (mirror_available now m t)) m' = avg_of t m'"
  "mt_recovery_timeout (snd (mirror_available now m t)) = mt_recovery_timeout t"
  by (auto simp: mirror_available_def avg_of_def set_health_def health_of_def AList.update_conv'
      split: option.splits)

lemma available_idem:
  "fst (mirror_available now m' (snd (mirror_available now m t))) = fst (mirror_available now m' t)"
proof (cases "m' = m")
  case True
  then show ?thesis
    by (auto simp: mirror_available_def set_health_def AList.update_conv' split: option.splits)
next
  case False
  then show ?thesis by (simp add: available_iff available_keeps split: option.splits)
qed

lemma filter_available_spec:
  "fst (filter_available now ms t) = filter (\<lambda>m. fst (mirror_available now m t)) ms \<and>
   avg_of (snd (filter_available now ms t)) = avg_of t"
proof (induction ms arbitrary: t)
  case (Cons m ms)
  obtain ok t1 where a: "mirror_available now m t = (ok, t1)" by fastforce
  obtain rest t2 where f: "filter_available now ms t1 = (rest, t2)" by fastforce
  have "fst (mirror_available now m' t1) = fst (mirror_available now m' t)" "avg_of t1 m' = avg_of t m'" for m'
    using available_idem [of now m' m t] available_keeps(2) [of now m t m'] a by simp_all
  with Cons.IH [of t1] show ?case by (auto simp: a f)
qed simp

lemma faster_irrefl: "\<not> faster a a"
  by (cases a) auto

lemma not_faster_trans: "\<not> faster x b \<Longrightarrow> \<not> faster b a \<Longrightarrow> \<not> faster x a"
  by (cases x; cases a; cases b) auto

lemma faster_not_faster: "faster a b \<Longrightarrow> \<not> faster b a"
  by (cases a; cases b) auto

lemma fastest_Cons:
  "fastest t m (y # ms) = fastest t (if faster (avg_of t y) (avg_of t m) then y else m) ms"
  by (simp add: fastest_def)

lemma fastest_spec:
  "fastest t m ms \<in> set (m # ms) \<and>
   (\<forall>x \<in> set (m # ms). \<not> faster (avg_of t x) (avg_of t (fastest t m ms)))"
proof (induction ms arbitrary: m)
  case Nil
  then show ?case by (simp add: fastest_def faster_irrefl)
next
  case (Cons y ms)
  let ?b = "if faster (avg_of t y) (avg_of t m) then y else m"
  have b: "\<not> faster (avg_of t y) (avg_of t ?b)" "\<not> faster (avg_of t m) (avg_of t ?b)"
    using faster_not_faster faster_irrefl by simp_all
  note IH = Cons.IH [of ?b]
  have "\<not> faster (avg_of t ?b) (avg_of t (fastest t ?b ms))" using IH by simp
  then have "\<not> faster (avg_of t y) (avg_of t (fastest t ?b ms))"
    "\<not> faster (avg_of t m) (avg_of t (fastest t ?b ms))"
    using b not_faster_trans by blast+
  moreover have "fastest t ?b ms \<in> set (m # y # ms)" using IH by (auto split: if_splits)
  ultimately show ?case
    unfolding fastest_Cons using IH by (metis list.set_intros(2) set_ConsD)
qed

text \<open>
  The best mirror is one of those that are available, none of those has a smaller
  average response time, and there is one unless every mirror is switched off.
\<close>

theorem best_mirror_sound:
  "(case fst (get_best_mirror now mirrors t) of
      None \<Rightarrow> (\<forall>m \<in> set mirrors. \<not> fst (mirror_available now m t))
    | Some b \<Rightarrow> b \<in> set mirrors \<and> fst (mirror_available now b t) \<and>
        (\<forall>m \<in> set mirrors. fst (mirror_available now m t) \<longrightarrow> \<not> faster (avg_of t m) (avg_of t b)))"
proof -
  obtain av t' where f: "filter_available now mirrors t = (av, t')" by fastforce
  have av: "av = filter (\<lambda>m. fst (mirror_available now m t)) mirrors" "avg_of t' = avg_of t"
    using filter_available_spec [of now mirrors t] f by simp_all
  have irr: "\<not> faster a a" for a by (cases a) auto
  show ?thesis
  proof (cases av)
    case Nil
    then show ?thesis using av(1) by (auto simp: get_best_mirror_def f filter_empty_conv)
  next
    case (Cons m ms)
    have mem: "x \<in> set (m # ms) \<longleftrightarrow> x \<in> set mirrors \<and> fst (mirror_available now x t)" for x
      using av(1) Cons by (metis (mono_tags, lifting) mem_Collect_eq set_filter)
    have best: "fst (get_best_mirror now mirrors t) = Some (fastest t m ms)"
      using Cons av(2) by (cases ms) (simp_all add: get_best_mirror_def f fastest_def)
    show ?thesis
      unfolding best option.case using fastest_spec [of t m ms] mem by blast
  qed
qed

theorem best_mirror_sound_witness:
  "fst (get_best_mirror 100 [''a'', ''b''] (mirror_success ''b'' 5 (mirror_success ''a'' 9 default_tracker))) = Some ''b''
   \<and> \<not> faster (avg_of (mirror_success ''b'' 5 (mirror_success ''a'' 9 default_tracker)) ''a'')
        (avg_of (mirror_success ''b'' 5 (mirror_success ''a'' 9 default_tracker)) ''b'')"
proof -
  let ?t = "mirror_success ''b'' 5 (mirror_success ''a'' 9 default_tracker)"
  have best: "fst (get_best_mirror 100 [''a'', ''b''] ?t) = Some ''b''"
    by (simp add: get_best_mirror_def mirror_available_def mirror_success_def Let_def set_health_def
        health_of_def default_tracker_def tracker_new_def default_health_def fastest_def avg_of_def)
  have "fst (mirror_available 100 ''a'' ?t)"
    by (simp add: mirror_available_def mirror_success_def Let_def set_health_def
        health_of_def default_tracker_def tracker_new_def default_health_def)
  with best_mirror_sound [where now = 100 and mirrors = "[''a'', ''b'']" and t = ?t] best show ?thesis by auto
qed

end
