(* ===== verification/Domain_Rules.thy ===== *)
theory Domain_Rules
  imports Rust_Text
begin

text \<open>
  The routing rules by domain (\<open>src/rules/builtin.rs\<close>): patterns that match a name exactly, with
  its subdomains, or by its beginning, in three lists that are asked in the order block, proxy,
  direct.
\<close>

section \<open>Patterns\<close>

datatype match_type = MatchExact | MatchSuffix | MatchPrefix

datatype domain_action = ActProxy | ActDirect | ActBlock

record domain_pattern =
  dp_pattern :: string
  dp_match_type :: match_type

record domain_rules =
  du_proxy :: "domain_pattern list"
  du_direct :: "domain_pattern list"
  du_block :: "domain_pattern list"

definition pat_exact :: "string \<Rightarrow> domain_pattern" where
  "pat_exact domain = \<lparr>dp_pattern = to_lowercase domain, dp_match_type = MatchExact\<rparr>"

definition pat_suffix :: "string \<Rightarrow> domain_pattern" where
  "pat_suffix domain = \<lparr>dp_pattern = to_lowercase domain, dp_match_type = MatchSuffix\<rparr>"

definition pat_prefix :: "string \<Rightarrow> domain_pattern" where
  "pat_prefix pattern = \<lparr>dp_pattern = to_lowercase pattern, dp_match_type = MatchPrefix\<rparr>"

definition domain_matches :: "domain_pattern \<Rightarrow> string \<Rightarrow> bool" where
  "domain_matches p domain =
     (case dp_match_type p of
        MatchExact \<Rightarrow> domain = dp_pattern p
      | MatchSuffix \<Rightarrow> domain = dp_pattern p \<or> ends_with domain (CHR ''.'' # dp_pattern p)
      | MatchPrefix \<Rightarrow> starts_with domain (dp_pattern p))"

section \<open>Rules\<close>

definition github_defaults :: domain_rules where
  "github_defaults =
     \<lparr>du_proxy =
        [pat_suffix ''github.com'',
         pat_suffix ''github.io'',
         pat_exact ''api.github.com'',
         pat_suffix ''githubusercontent.com'',
         pat_suffix ''githubassets.com'',
         pat_suffix ''github.dev'',
         pat_exact ''codespaces.githubusercontent.com'',
         pat_suffix ''objects.githubusercontent.com'',
         pat_exact ''media.githubusercontent.com'',
         pat_exact ''camo.githubusercontent.com'',
         pat_exact ''avatars.githubusercontent.com'',
         pat_exact ''cloud.githubusercontent.com'',
         pat_exact ''raw.githubusercontent.com'',
         pat_exact ''uploads.github.com'',
         pat_exact ''status.github.com'',
         pat_exact ''education.github.com'',
         pat_exact ''desktop.githubusercontent.com'',
         pat_suffix ''steampowered.com'',
         pat_suffix ''steamstatic.com'',
         pat_exact ''steamserver.net''],
      du_direct = [], du_block = []\<rparr>"

definition classify :: "domain_rules \<Rightarrow> string \<Rightarrow> domain_action" where
  "classify rules domain =
     (let domain_lower = to_lowercase domain
      in if list_ex (\<lambda>p. domain_matches p domain_lower) (du_block rules) then ActBlock
         else if list_ex (\<lambda>p. domain_matches p domain_lower) (du_proxy rules) then ActProxy
         else if list_ex (\<lambda>p. domain_matches p domain_lower) (du_direct rules) then ActDirect
         else ActDirect)"

definition add_proxy :: "domain_pattern \<Rightarrow> domain_rules \<Rightarrow> domain_rules" where
  "add_proxy p rules = rules\<lparr>du_proxy := du_proxy rules @ [p]\<rparr>"

definition add_direct :: "domain_pattern \<Rightarrow> domain_rules \<Rightarrow> domain_rules" where
  "add_direct p rules = rules\<lparr>du_direct := du_direct rules @ [p]\<rparr>"

section \<open>What the defaults route through the proxy\<close>

definition subdomain_of :: "string \<Rightarrow> string \<Rightarrow> bool" where
  "subdomain_of domain base \<longleftrightarrow> domain = base \<or> (\<exists>sub. domain = sub @ CHR ''.'' # base)"

lemma suffix_matches [simp]:
  "domain_matches (pat_suffix base) d \<longleftrightarrow> subdomain_of d (to_lowercase base)"
  by (simp add: domain_matches_def pat_suffix_def subdomain_of_def ends_with_iff)

lemma exact_matches [simp]: "domain_matches (pat_exact base) d \<longleftrightarrow> d = to_lowercase base"
  by (simp add: domain_matches_def pat_exact_def)

lemma subdomain_trans: "subdomain_of d (sub @ CHR ''.'' # base) \<Longrightarrow> subdomain_of d base"
  by (auto simp: subdomain_of_def)

definition default_zones :: "string list" where
  "default_zones = [''github.com'', ''github.io'', ''githubusercontent.com'', ''githubassets.com'',
     ''github.dev'', ''steampowered.com'', ''steamstatic.com'']"

text \<open>
  With the built-in rules a domain goes through the proxy exactly if it is one of
  seven zones, lies under one of them behind a dot, or is \<open>steamserver.net\<close>; the other built-in
  entries add nothing, no domain is blocked, and the case of the letters does not matter.
\<close>

theorem default_routing:
  "classify github_defaults domain =
     (if (\<exists>zone \<in> set default_zones. subdomain_of (to_lowercase domain) zone) \<or>
         to_lowercase domain = ''steamserver.net''
      then ActProxy else ActDirect)"
proof -
  have lower: "to_lowercase z = z" if "z \<in> {''github.com'', ''github.io'', ''api.github.com'',
      ''githubusercontent.com'', ''githubassets.com'', ''github.dev'',
      ''codespaces.githubusercontent.com'', ''objects.githubusercontent.com'',
      ''media.githubusercontent.com'', ''camo.githubusercontent.com'',
      ''avatars.githubusercontent.com'', ''cloud.githubusercontent.com'',
      ''raw.githubusercontent.com'', ''uploads.github.com'', ''status.github.com'',
      ''education.github.com'', ''desktop.githubusercontent.com'', ''steampowered.com'',
      ''steamstatic.com'', ''steamserver.net''}" for z
    using that by (elim insertE emptyE) (simp_all add: to_lowercase_def lower_char_def)
  have sub: "subdomain_of (s @ CHR ''.'' # base) base" for s base
    by (auto simp: subdomain_of_def)
  let ?d = "to_lowercase domain"
  have gh: "subdomain_of ''api.github.com'' ''github.com''" "subdomain_of ''uploads.github.com'' ''github.com''"
    "subdomain_of ''status.github.com'' ''github.com''" "subdomain_of ''education.github.com'' ''github.com''"
    using sub [of "''api''" "''github.com''"] sub [of "''uploads''" "''github.com''"]
      sub [of "''status''" "''github.com''"] sub [of "''education''" "''github.com''"] by simp_all
  have uc: "subdomain_of ''codespaces.githubusercontent.com'' ''githubusercontent.com''"
    "subdomain_of ''media.githubusercontent.com'' ''githubusercontent.com''"
    "subdomain_of ''camo.githubusercontent.com'' ''githubusercontent.com''"
    "subdomain_of ''avatars.githubusercontent.com'' ''githubusercontent.com''"
    "subdomain_of ''cloud.githubusercontent.com'' ''githubusercontent.com''"
    "subdomain_of ''raw.githubusercontent.com'' ''githubusercontent.com''"
    "subdomain_of ''desktop.githubusercontent.com'' ''githubusercontent.com''"
    using sub [of "''codespaces''" "''githubusercontent.com''"] sub [of "''media''" "''githubusercontent.com''"]
      sub [of "''camo''" "''githubusercontent.com''"] sub [of "''avatars''" "''githubusercontent.com''"]
      sub [of "''cloud''" "''githubusercontent.com''"] sub [of "''raw''" "''githubusercontent.com''"]
      sub [of "''desktop''" "''githubusercontent.com''"] by simp_all
  have obj: "subdomain_of ?d ''objects.githubusercontent.com'' \<Longrightarrow> subdomain_of ?d ''githubusercontent.com''"
    using subdomain_trans [of ?d "''objects''" "''githubusercontent.com''"] by simp
  have "list_ex (\<lambda>p. domain_matches p ?d) (du_proxy github_defaults) \<longleftrightarrow>
      (\<exists>zone \<in> set default_zones. subdomain_of ?d zone) \<or> ?d = ''steamserver.net''"
    using obj gh uc by (auto simp: github_defaults_def default_zones_def lower)
  then show ?thesis by (simp add: classify_def github_defaults_def)
qed

theorem default_routing_witness:
  "classify github_defaults ''API.GitHub.com'' = ActProxy \<and>
   classify github_defaults ''evilgithub.com'' = ActDirect"
proof -
  have l: "to_lowercase ''API.GitHub.com'' = ''api'' @ CHR ''.'' # ''github.com''"
    "to_lowercase ''evilgithub.com'' = ''evilgithub.com''"
    by code_simp+
  have "subdomain_of (to_lowercase ''API.GitHub.com'') ''github.com''"
    unfolding l(1) by (auto simp: subdomain_of_def)
  moreover have "\<not> ends_with ''evilgithub.com'' (CHR ''.'' # zone) \<and> ''evilgithub.com'' \<noteq> zone"
    if "zone \<in> set default_zones" for zone
    using that by (auto simp: default_zones_def ends_with_def)
  ultimately show ?thesis
    using default_routing [of "''API.GitHub.com''"] default_routing [of "''evilgithub.com''"] l(2)
    by (auto simp: default_zones_def subdomain_of_def ends_with_iff)
qed

text \<open>
  A block entry is stronger than every other list, and adding a proxy or a direct
  entry never changes the class of a domain that a stronger list has.
\<close>

theorem classify_priority:
  "classify (add_proxy p rules) domain =
     (if classify rules domain = ActBlock then ActBlock
      else if domain_matches p (to_lowercase domain) then ActProxy else classify rules domain) \<and>
   classify (add_direct p rules) domain = classify rules domain"
  by (auto simp: classify_def add_proxy_def add_direct_def Let_def)

end
