(* ===== verification/Http_Text.thy ===== *)
theory Http_Text
  imports Rust_Text
begin

text \<open>
  The pure functions of the proxy on HTTP text (\<open>src/proxy/handler.rs\<close>: request recognition,
  target parsing, the three rewritings of a request, the responses the proxy makes itself, the
  header parsing and the injection of the mirror script) and the PAC file
  (\<open>src/system/pac.rs\<close>). Requests and responses are byte strings.
\<close>

section \<open>Requests\<close>

definition is_http_method :: "string \<Rightarrow> bool" where
  "is_http_method bytes =
     (case bytes of
        [] \<Rightarrow> False
      | b # _ \<Rightarrow>
          if b = CHR ''G'' then starts_with bytes ''GET''
          else if b = CHR ''P'' then
            starts_with bytes ''POST'' \<or> starts_with bytes ''PUT'' \<or> starts_with bytes ''PATCH''
          else if b = CHR ''D'' then starts_with bytes ''DELETE''
          else if b = CHR ''H'' then starts_with bytes ''HEAD''
          else if b = CHR ''O'' then starts_with bytes ''OPTIONS''
          else False)"

definition find_bytes :: "string \<Rightarrow> string \<Rightarrow> nat option" where
  "find_bytes haystack needle = find_sub haystack needle"

definition contains_header_end :: "string \<Rightarrow> bool" where
  "contains_header_end buf = (find_bytes buf header_sep \<noteq> None)"

definition find_header_end :: "string \<Rightarrow> nat option" where
  "find_header_end buf = find_sub buf header_sep"

definition is_pac_request :: "string \<Rightarrow> bool" where
  "is_pac_request first_line =
     (case split_whitespace first_line of
        method # path # _ \<Rightarrow> method = ''GET'' \<and> (path = ''/pac'' \<or> ends_with path ''/pac'')
      | _ \<Rightarrow> False)"

definition parse_request_path :: "string \<Rightarrow> string option" where
  "parse_request_path line =
     (let parts = split_whitespace line in if 2 \<le> length parts then Some (parts ! 1) else None)"

definition parse_u16 :: "string \<Rightarrow> nat option" where
  "parse_u16 s = parse_uint 65535 s"

definition parse_connect_target :: "string \<Rightarrow> (string \<times> nat) option" where
  "parse_connect_target line =
     (let parts = split_whitespace line
      in if length parts < 2 \<or> parts ! 0 \<noteq> ''CONNECT'' then None
         else
           let (port_text, before) = rsplit_once CHR '':'' (parts ! 1)
           in case parse_u16 port_text of
                None \<Rightarrow> None
              | Some port \<Rightarrow>
                  (case before of
                     None \<Rightarrow> None
                   | Some host \<Rightarrow> if host = [] then None else Some (host, port)))"

definition parse_http_target :: "string \<Rightarrow> (string \<times> nat) option" where
  "parse_http_target line =
     (let parts = split_whitespace line
      in if length parts < 2 then None
         else
           let url = parts ! 1
           in if \<not> starts_with url ''http://'' \<and> \<not> starts_with url ''https://'' then None
              else
                let without_scheme = (case strip_prefix url ''http://'' of
                      Some rest \<Rightarrow> rest
                    | None \<Rightarrow> the (strip_prefix url ''https://''));
                    host_port = hd (split_on CHR ''/'' without_scheme)
                in if CHR '':'' \<in> set host_port then
                     (let (port_text, before) = rsplit_once CHR '':'' host_port
                      in case parse_u16 port_text of
                           None \<Rightarrow> None
                         | Some port \<Rightarrow> map_option (\<lambda>host. (host, port)) before)
                   else if starts_with url ''https://'' then Some (host_port, 443)
                   else Some (host_port, 80))"

section \<open>Rewriting\<close>

text \<open>The path of an absolute URL, as the forwarder cuts it out.\<close>

definition url_path :: "string \<Rightarrow> string" where
  "url_path url =
     (case find_sub url ''//'' of
        None \<Rightarrow> url
      | Some idx \<Rightarrow>
          let after_scheme = drop (idx + 2) url
          in case find_sub after_scheme ''/'' of
               None \<Rightarrow> ''/''
             | Some slash_idx \<Rightarrow> drop slash_idx after_scheme)"

fun kept_lines :: "string list \<Rightarrow> string" where
  "kept_lines [] = []"
| "kept_lines (line # lines) =
     (if starts_with (to_lowercase line) ''proxy-'' then kept_lines lines
      else line @ crlf @ kept_lines lines)"

definition rewrite_http_request :: "string \<Rightarrow> string" where
  "rewrite_http_request request =
     (let (header_part, body_part) =
            (case find_sub request header_sep of
               Some pos \<Rightarrow> (take pos request, drop (pos + 4) request)
             | None \<Rightarrow> (request, []))
      in case str_lines header_part of
           [] \<Rightarrow> request
         | first_line # lines \<Rightarrow>
             let parts = split_whitespace first_line
             in if length parts < 3 then request
                else parts ! 0 @ SP # url_path (parts ! 1) @ SP # parts ! 2 @ crlf
                     @ kept_lines lines @ crlf @ body_part)"

definition mirror_request_line :: "string \<Rightarrow> string \<Rightarrow> string" where
  "mirror_request_line original_host line =
     (case split_whitespace line of
        method # path # version # _ \<Rightarrow>
          if starts_with path ''/'' then
            method @ '' /https://'' @ original_host @ path @ SP # version @ crlf
          else if starts_with path ''http://'' \<or> starts_with path ''https://'' then
            method @ '' /'' @ path @ SP # version @ crlf
          else line @ crlf
      | [method, path] \<Rightarrow>
          if starts_with path ''/'' then
            method @ '' /https://'' @ original_host @ path @ '' HTTP/1.1'' @ crlf
          else line @ crlf
      | _ \<Rightarrow> line @ crlf)"

definition mirror_header_line :: "string \<Rightarrow> string \<Rightarrow> string" where
  "mirror_header_line mirror_host line =
     (case find_sub line '':'' of
        Some pos \<Rightarrow>
          if to_lowercase (trim (take pos line)) = ''host'' then ''Host: '' @ mirror_host @ crlf
          else line @ crlf
      | None \<Rightarrow> line @ crlf)"

definition rewrite_request_for_mirror :: "string \<Rightarrow> string \<Rightarrow> string \<Rightarrow> string" where
  "rewrite_request_for_mirror original_data mirror_host original_host =
     (let header_end = (case find_sub original_data header_sep of
            Some p \<Rightarrow> p | None \<Rightarrow> length original_data);
          body = (if header_end + 4 < length original_data then drop (header_end + 4) original_data
                  else []);
          header_str = utf8_lossy (take header_end original_data)
      in (case str_lines header_str of
            [] \<Rightarrow> []
          | first # lines \<Rightarrow>
              mirror_request_line original_host first @
              concat (map (mirror_header_line mirror_host) lines))
         @ crlf @ body)"

section \<open>Responses\<close>

definition build_redirect_response :: "string \<Rightarrow> string" where
  "build_redirect_response target_url =
     ''HTTP/1.1 302 Found'' @ crlf @ ''Location: '' @ target_url @ crlf @ ''Content-Length: 0'' @ crlf
     @ ''Cache-Control: no-cache'' @ crlf @ ''Connection: close'' @ header_sep"

text \<open>\<open>CachedResource\<close> of \<open>src/cache/resource_cache.rs\<close>.\<close>

record cached_resource =
  cr_content_type :: string
  cr_data :: string
  cr_etag :: "string option"
  cr_last_modified :: "string option"

definition build_response_from_cache :: "cached_resource \<Rightarrow> string" where
  "build_response_from_cache cached =
     ''HTTP/1.1 200 OK'' @ crlf @ ''Content-Type: '' @ cr_content_type cached @ crlf
     @ ''Content-Length: '' @ show_nat (length (cr_data cached)) @ crlf
     @ (case cr_etag cached of None \<Rightarrow> [] | Some etag \<Rightarrow> ''ETag: '' @ etag @ crlf)
     @ (case cr_last_modified cached of None \<Rightarrow> [] | Some lm \<Rightarrow> ''Last-Modified: '' @ lm @ crlf)
     @ ''Connection: close'' @ header_sep @ cr_data cached"

fun scan_content_length :: "string list \<Rightarrow> nat option" where
  "scan_content_length [] = None"
| "scan_content_length (line # lines) =
     (if starts_with (to_lowercase line) ''content-length:''
      then parse_uint (u64_size - 1) (trim (drop 15 line)) else scan_content_length lines)"

definition parse_content_length :: "string \<Rightarrow> nat option" where
  "parse_content_length header = scan_content_length (drop 1 (str_lines (utf8_lossy header)))"

text \<open>The loop over the header lines: the last \<open>Content-Type\<close> and \<open>Content-Length\<close> count.\<close>

definition scan_header_line ::
    "string \<Rightarrow> string option \<times> nat option \<Rightarrow> string option \<times> nat option" where
  "scan_header_line line acc =
     (case acc of (content_type, content_length) \<Rightarrow>
        let line_lower = to_lowercase line
        in if starts_with line_lower ''content-type:'' then (Some (trim (drop 13 line)), content_length)
           else if starts_with line_lower ''content-length:''
           then (content_type, parse_uint (u64_size - 1) (trim (drop 15 line)))
           else (content_type, content_length))"

definition parse_response_headers :: "string \<Rightarrow> string option \<times> nat option" where
  "parse_response_headers response =
     (case find_header_end response of
        None \<Rightarrow> (None, None)
      | Some header_end \<Rightarrow>
          fold scan_header_line (drop 1 (str_lines (utf8_lossy (take header_end response)))) (None, None))"

section \<open>The mirror script\<close>

definition mirror_script :: \<open>string\<close> where
  \<open>mirror_script = join [LF]
     [[],
      ''<script>'',
      ''(function(){'',
      ''try {'',
      ''    const MIRROR = '' @ [CHR 0x27] @ ''https://v4.gh-proxy.org'' @ [CHR 0x27] @ '';'',
      ''    if (!document.body) return;'',
      ''    function rewriteLinks() {'',
      ''        try {'',
      ''            document.querySelectorAll('' @ [CHR 0x27] @ ''a[href*="/releases/download/"]'' @ [CHR 0x27] @ '').forEach(function(a) {'',
      ''                if (a.href && !a.href.includes(MIRROR)) {'',
      ''                    a.href = MIRROR + '' @ [CHR 0x27] @ ''/'' @ [CHR 0x27] @ '' + a.href;'',
      ''                }'',
      ''            });'',
      ''            document.querySelectorAll('' @ [CHR 0x27] @ ''a[href*="/archive/"]'' @ [CHR 0x27] @ '').forEach(function(a) {'',
      ''                if (a.href && !a.href.includes(MIRROR)) {'',
      ''                    a.href = MIRROR + '' @ [CHR 0x27] @ ''/'' @ [CHR 0x27] @ '' + a.href;'',
      ''                }'',
      ''            });'',
      ''        } catch(e) {}'',
      ''    }'',
      ''    rewriteLinks();'',
      ''    if (typeof MutationObserver !== '' @ [CHR 0x27] @ ''undefined'' @ [CHR 0x27] @ '') {'',
      ''        new MutationObserver(rewriteLinks).observe(document.body, {childList: true, subtree: true});'',
      ''    }'',
      ''} catch(e) {}'',
      ''})();'',
      ''</script>'',
      []]\<close>

definition inject_mirror_script :: "string \<Rightarrow> string" where
  "inject_mirror_script html =
     (if contains_sub html ''</body>'' then replace_all ''</body>'' (mirror_script @ ''</body>'') html
      else if contains_sub html ''</html>'' then replace_all ''</html>'' (mirror_script @ ''</html>'') html
      else html @ mirror_script)"

section \<open>The PAC file\<close>

definition generate_pac :: \<open>nat \<Rightarrow> string\<close> where
  \<open>generate_pac proxy_port = join [LF]
     [''// Hakimi Hub PAC - '' @ [CHR 0xE4, CHR 0xBB, CHR 0xA3, CHR 0xE7, CHR 0x90, CHR 0x86] @ '' GitHub '' @ [CHR 0xE5, CHR 0x92, CHR 0x8C] @ '' Steam '' @ [CHR 0xE5, CHR 0x9F, CHR 0x9F, CHR 0xE5, CHR 0x90, CHR 0x8D],
      ''function FindProxyForURL(url, host) {'',
      ''    // GitHub '' @ [CHR 0xE4, CHR 0xB8, CHR 0xBB, CHR 0xE7, CHR 0xAB, CHR 0x99] @ '' & API'',
      ''    if (dnsDomainIs(host, "github.com") ||'',
      ''        dnsDomainIs(host, "api.github.com") ||'',
      ''        dnsDomainIs(host, "codeload.github.com")) {'',
      ''        return "PROXY 127.0.0.1:'' @ show_nat proxy_port @ ''";'',
      ''    }'',
      [],
      ''    // GitHub '' @ [CHR 0xE8, CHR 0xB5, CHR 0x84, CHR 0xE6, CHR 0xBA, CHR 0x90, CHR 0xE5, CHR 0x9F, CHR 0x9F, CHR 0xE5, CHR 0x90, CHR 0x8D, CHR 0xEF, CHR 0xBC, CHR 0x88, CHR 0xE9, CHR 0x80, CHR 0x9A, CHR 0xE9, CHR 0x85, CHR 0x8D, CHR 0xE7, CHR 0xAC, CHR 0xA6, CHR 0xE5, CHR 0x8C, CHR 0xB9, CHR 0xE9, CHR 0x85, CHR 0x8D, CHR 0xEF, CHR 0xBC, CHR 0x89],
      ''    if (shExpMatch(host, "*.githubassets.com") ||'',
      ''        shExpMatch(host, "*.githubusercontent.com") ||'',
      ''        shExpMatch(host, "*.github.dev") ||'',
      ''        shExpMatch(host, "*.github.io")) {'',
      ''        return "PROXY 127.0.0.1:'' @ show_nat proxy_port @ ''";'',
      ''    }'',
      [],
      ''    // Steam '' @ [CHR 0xE4, CHR 0xB8, CHR 0xBB, CHR 0xE7, CHR 0xAB, CHR 0x99] @ '' & API'',
      ''    if (dnsDomainIs(host, "store.steampowered.com") ||'',
      ''        dnsDomainIs(host, "api.steampowered.com") ||'',
      ''        dnsDomainIs(host, "login.steampowered.com") ||'',
      ''        dnsDomainIs(host, "help.steampowered.com") ||'',
      ''        dnsDomainIs(host, "store-points.steampowered.com") ||'',
      ''        dnsDomainIs(host, "support.steampowered.com") ||'',
      ''        dnsDomainIs(host, "steamserver.net")) {'',
      ''        return "PROXY 127.0.0.1:'' @ show_nat proxy_port @ ''";'',
      ''    }'',
      [],
      ''    // Steam '' @ [CHR 0xE8, CHR 0xB5, CHR 0x84, CHR 0xE6, CHR 0xBA, CHR 0x90, CHR 0xE5, CHR 0x9F, CHR 0x9F, CHR 0xE5, CHR 0x90, CHR 0x8D, CHR 0xEF, CHR 0xBC, CHR 0x88, CHR 0xE9, CHR 0x80, CHR 0x9A, CHR 0xE9, CHR 0x85, CHR 0x8D, CHR 0xE7, CHR 0xAC, CHR 0xA6, CHR 0xE5, CHR 0x8C, CHR 0xB9, CHR 0xE9, CHR 0x85, CHR 0x8D, CHR 0xEF, CHR 0xBC, CHR 0x89],
      ''    if (shExpMatch(host, "*.steamstatic.com") ||'',
      ''        shExpMatch(host, "*.steampowered.com")) {'',
      ''        return "PROXY 127.0.0.1:'' @ show_nat proxy_port @ ''";'',
      ''    }'',
      [],
      ''    // '' @ [CHR 0xE5, CHR 0x85, CHR 0xB6, CHR 0xE4, CHR 0xBD, CHR 0x99, CHR 0xE5, CHR 0x85, CHR 0xA8, CHR 0xE9, CHR 0x83, CHR 0xA8, CHR 0xE7, CHR 0x9B, CHR 0xB4, CHR 0xE8, CHR 0xBF, CHR 0x9E],
      ''    return "DIRECT";'',
      ''}'']\<close>

definition pac_url :: "nat \<Rightarrow> string" where
  "pac_url proxy_port = ''http://127.0.0.1:'' @ show_nat proxy_port @ ''/pac''"

definition pac_response :: "nat \<Rightarrow> string" where
  "pac_response proxy_port =
     ''HTTP/1.1 200 OK'' @ crlf @ ''Content-Type: application/x-ns-proxy-autoconfig'' @ crlf
     @ ''Content-Length: '' @ show_nat (length (generate_pac proxy_port)) @ crlf
     @ ''Connection: close'' @ header_sep @ generate_pac proxy_port"

section \<open>Lines of a header\<close>

definition header_line :: "string \<Rightarrow> bool" where
  "header_line l \<longleftrightarrow> l \<noteq> [] \<and> LF \<notin> set l \<and> CR \<notin> set l"

lemma str_lines_join:
  "ls \<noteq> [] \<Longrightarrow> \<forall>l \<in> set ls. header_line l \<Longrightarrow> str_lines (join crlf ls) = ls"
proof (induction ls rule: induct_list012)
  case (2 l)
  then show ?case by (simp add: header_line_def str_lines_last)
next
  case (3 l l' ls)
  then have "str_lines (l @ CR # LF # join crlf (l' # ls)) = l # str_lines (join crlf (l' # ls))"
    by (intro str_lines_crlf) (simp add: header_line_def)
  with 3 show ?case by (simp add: crlf_def)
qed simp

text \<open>The blank line is where the lines end: it is not found before.\<close>

lemma no_sep_in_line:
  assumes "CR \<notin> set l"
  shows "j < length l \<Longrightarrow> \<not> starts_with (drop j (l @ rest)) header_sep"
proof -
  assume j: "j < length l"
  then have "drop j (l @ rest) = l ! j # drop (Suc j) l @ rest"
    by (simp add: Cons_nth_drop_Suc [symmetric])
  moreover have "l ! j \<noteq> CR" using assms j nth_mem by metis
  ultimately show ?thesis by (simp add: header_sep_def)
qed

lemma find_sep_line:
  assumes "CR \<notin> set l"
  shows "find_sub (l @ rest) header_sep = map_option ((+) (length l)) (find_sub rest header_sep)"
  using assms
proof (induction l)
  case Nil
  show ?case by (cases "find_sub rest header_sep") simp_all
next
  case (Cons c l)
  then have "\<not> starts_with (c # l @ rest) header_sep" by (auto simp: header_sep_def)
  with Cons show ?case by (simp add: option.map_comp comp_def)
qed

lemma find_sep_join:
  "ls \<noteq> [] \<Longrightarrow> \<forall>l \<in> set ls. header_line l \<Longrightarrow>
   find_sub (join crlf ls @ header_sep @ body) header_sep = Some (length (join crlf ls))"
proof (induction ls rule: induct_list012)
  case (2 l)
  have "find_sub (header_sep @ body) header_sep = Some 0"
    by (simp add: header_sep_def)
  with 2 show ?case by (simp add: find_sep_line header_line_def)
next
  case (3 l l' ls)
  obtain c t where l': "join crlf (l' # ls) @ header_sep @ body = c # t" "c \<noteq> CR"
    using 3(4) by (cases l'; cases ls) (auto simp: header_line_def)
  have "find_sub (crlf @ join crlf (l' # ls) @ header_sep @ body) header_sep =
      map_option ((+) 2) (find_sub (join crlf (l' # ls) @ header_sep @ body) header_sep)"
    unfolding l' using l'(2) by (simp add: crlf_def header_sep_def option.map_comp comp_def)
  moreover have "find_sub (join crlf (l' # ls) @ header_sep @ body) header_sep =
      Some (length (join crlf (l' # ls)))"
    using 3 by (intro 3(2)) auto
  ultimately have "find_sub (crlf @ join crlf (l' # ls) @ header_sep @ body) header_sep =
      Some (2 + length (join crlf (l' # ls)))" by simp
  then show ?case
    using 3(4) find_sep_line [of l "crlf @ join crlf (l' # ls) @ header_sep @ body"]
    by (simp add: header_line_def crlf_def)
qed simp

definition word :: "string \<Rightarrow> bool" where
  "word w \<longleftrightarrow> w \<noteq> [] \<and> (\<forall>c \<in> set w. \<not> is_ws c)"

lemma word_header_line: "word w \<Longrightarrow> LF \<notin> set w \<and> CR \<notin> set w"
  by (auto simp: word_def is_ws_def)

lemma request_line_is_header:
  "word a \<Longrightarrow> word b \<Longrightarrow> word c \<Longrightarrow> header_line (a @ SP # b @ SP # c)"
  by (auto simp: header_line_def dest: word_header_line)

lemma split_request_line:
  "word a \<Longrightarrow> word b \<Longrightarrow> word c \<Longrightarrow> split_whitespace (a @ SP # b @ SP # c) = [a, b, c]"
  by (auto simp: word_def intro!: split_whitespace_three)

text \<open>A request of the form of RFC 9112: a request line, header lines, a blank line, a body.\<close>

definition request :: "string \<Rightarrow> string \<Rightarrow> string \<Rightarrow> string list \<Rightarrow> string \<Rightarrow> string" where
  "request meth target version headers body =
     join crlf ((meth @ SP # target @ SP # version) # headers) @ header_sep @ body"

lemma kept_lines_filter:
  "kept_lines ls =
     concat (map (\<lambda>l. l @ crlf) (filter (\<lambda>l. \<not> starts_with (to_lowercase l) ''proxy-'') ls))"
  by (induction ls) auto

lemma join_crlf_sep: "ls \<noteq> [] \<Longrightarrow> join crlf ls @ header_sep = concat (map (\<lambda>l. l @ crlf) ls) @ crlf"
  by (induction ls rule: induct_list012) (auto simp: crlf_def header_sep_def)

lemma url_path_absolute:
  assumes "CHR ''/'' \<notin> set scheme" and "CHR ''/'' \<notin> set authority"
    and "path = [] \<or> hd path = CHR ''/''"
  shows "url_path (scheme @ ''//'' @ authority @ path) = (if path = [] then ''/'' else path)"
proof -
  have one: "\<not> starts_with (drop j (scheme @ ''//'' @ authority @ path)) ''//''"
    if "j < length scheme" for j
  proof -
    have "drop j (scheme @ ''//'' @ authority @ path) = scheme ! j # drop (Suc j) scheme @ ''//'' @ authority @ path"
      using that by (simp add: Cons_nth_drop_Suc [symmetric])
    moreover have "scheme ! j \<noteq> CHR ''/''" using assms(1) that nth_mem by metis
    ultimately show ?thesis by simp
  qed
  have idx: "find_sub (scheme @ ''//'' @ authority @ path) ''//'' = Some (length scheme)"
    using one by (rule find_sub_append)
  have slash: "find_sub (authority @ path) ''/'' = (if path = [] then None else Some (length authority))"
  proof (cases path)
    case Nil
    have "find_sub xs ''/'' = None" if "CHR ''/'' \<notin> set xs" for xs
      using that by (induction xs) auto
    with Nil assms(2) show ?thesis by simp
  next
    case (Cons c p)
    with assms(2,3) show ?thesis by (simp add: find_sub_singleton_append)
  qed
  have rest: "drop (length scheme + 2) (scheme @ ''//'' @ authority @ path) = authority @ path"
    by simp
  show ?thesis
    unfolding url_path_def idx option.case Let_def rest slash by simp
qed

text \<open>What the rewriting makes of a well-formed request, for any target.\<close>

lemma rewrite_request:
  assumes "word meth" and "word target" and "word version" and "\<forall>l \<in> set headers. header_line l"
  shows "rewrite_http_request (request meth target version headers body) =
    request meth (url_path target) version
      (filter (\<lambda>l. \<not> starts_with (to_lowercase l) ''proxy-'') headers) body"
proof -
  let ?line = "meth @ SP # target @ SP # version"
  have lines: "\<forall>l \<in> set (?line # headers). header_line l"
    using request_line_is_header [OF assms(1,2,3)] assms(4) by simp
  have sep: "find_sub (request meth target version headers body) header_sep =
      Some (length (join crlf (?line # headers)))"
    unfolding request_def using find_sep_join [OF _ lines] by blast
  have parts: "take (length (join crlf (?line # headers))) (request meth target version headers body) =
      join crlf (?line # headers)"
    "drop (length (join crlf (?line # headers)) + 4) (request meth target version headers body) = body"
    by (simp_all add: request_def header_sep_def del: join.simps)
  have lines_eq: "str_lines (join crlf (?line # headers)) = ?line # headers"
    by (rule str_lines_join [OF _ lines]) simp
  have "rewrite_http_request (request meth target version headers body) =
      meth @ SP # url_path target @ SP # version @ crlf @ kept_lines headers @ crlf @ body"
    unfolding rewrite_http_request_def sep option.case parts prod.case lines_eq list.case Let_def
      split_request_line [OF assms(1,2,3)] by simp
  also have "\<dots> = request meth (url_path target) version
      (filter (\<lambda>l. \<not> starts_with (to_lowercase l) ''proxy-'') headers) body"
    using join_crlf_sep [of "(meth @ SP # url_path target @ SP # version) #
        filter (\<lambda>l. \<not> starts_with (to_lowercase l) ''proxy-'') headers"]
    unfolding request_def append_assoc [symmetric]
    by (simp add: kept_lines_filter del: join.simps)
  finally show ?thesis .
qed


text \<open>
  A request for an absolute URL is forwarded with the same method, version and
  body, the path of the URL (\<open>/\<close> if it has none) as its target, and all of its header lines in
  their order but those whose name starts with \<open>Proxy-\<close>, in any case.
\<close>

theorem forwarded_request:
  assumes "word meth" and "word version" and "word (scheme @ ''//'' @ authority @ path)"
    and "CHR ''/'' \<notin> set scheme" and "CHR ''/'' \<notin> set authority"
    and "path = [] \<or> hd path = CHR ''/''" and "\<forall>l \<in> set headers. header_line l"
  shows "rewrite_http_request (request meth (scheme @ ''//'' @ authority @ path) version headers body) =
    request meth (if path = [] then ''/'' else path) version
      (filter (\<lambda>l. \<not> starts_with (to_lowercase l) ''proxy-'') headers) body"
  using rewrite_request [OF assms(1,3,2,7)] url_path_absolute [OF assms(4,5,6)] by simp

theorem forwarded_request_witness:
  "rewrite_http_request (request ''GET'' ''http://example.com/a?b'' ''HTTP/1.1''
     [''Host: example.com'', ''Proxy-Connection: keep-alive''] ''xy'') =
   request ''GET'' ''/a?b'' ''HTTP/1.1'' [''Host: example.com''] ''xy''"
proof -
  have p: "\<not> starts_with (to_lowercase ''Host: example.com'') ''proxy-''"
    "starts_with (to_lowercase ''Proxy-Connection: keep-alive'') ''proxy-''" by code_simp+
  have "rewrite_http_request (request ''GET'' (''http:'' @ ''//'' @ ''example.com'' @ ''/a?b'') ''HTTP/1.1''
     [''Host: example.com'', ''Proxy-Connection: keep-alive''] ''xy'') =
   request ''GET'' (if ''/a?b'' = [] then ''/'' else ''/a?b'') ''HTTP/1.1''
     (filter (\<lambda>l. \<not> starts_with (to_lowercase l) ''proxy-'') [''Host: example.com'', ''Proxy-Connection: keep-alive'']) ''xy''"
    by (rule forwarded_request) (simp_all add: word_def is_ws_def header_line_def)
  with p show ?thesis by simp
qed

section \<open>Requests for a mirror\<close>

definition is_host_line :: "string \<Rightarrow> bool" where
  "is_host_line l =
     (case find_sub l '':'' of None \<Rightarrow> False | Some pos \<Rightarrow> to_lowercase (trim (take pos l)) = ''host'')"

definition with_host :: "string \<Rightarrow> string list \<Rightarrow> string list" where
  "with_host h = map (\<lambda>l. if is_host_line l then ''Host: '' @ h else l)"

lemma mirror_header_lines:
  "concat (map (mirror_header_line h) ls) = concat (map (\<lambda>l. l @ crlf) (with_host h ls))"
  by (induction ls) (auto simp: mirror_header_line_def with_host_def is_host_line_def split: option.splits)

lemma mirror_line_relative:
  assumes "word meth" and "word path" and "word version" and "hd path = CHR ''/''"
  shows "mirror_request_line host (meth @ SP # path @ SP # version) =
    (meth @ SP # (''/https://'' @ host @ path) @ SP # version) @ crlf"
proof -
  have "starts_with path ''/''" using assms(2,4) by (cases path) (auto simp: word_def)
  then show ?thesis by (simp add: mirror_request_line_def split_request_line [OF assms(1,2,3)])
qed

lemma mirror_of_lines:
  assumes "\<forall>l \<in> set (line # headers). header_line l" and "valid_utf8 (join crlf (line # headers))"
    and "header_end = length (join crlf (line # headers))"
  shows "(case str_lines (utf8_lossy (take header_end (join crlf (line # headers) @ rest))) of
        [] \<Rightarrow> []
      | first # lines \<Rightarrow> mirror_request_line host first @ concat (map (mirror_header_line mirror) lines)) =
    mirror_request_line host line @ concat (map (\<lambda>l. l @ crlf) (with_host mirror headers))"
proof -
  have "str_lines (join crlf (line # headers)) = line # headers"
    by (rule str_lines_join [OF _ assms(1)]) simp
  then show ?thesis
    by (simp add: assms(3) utf8_lossy_valid [OF assms(2)] mirror_header_lines del: join.simps)
qed

text \<open>
  A request for a path is rewritten for the mirror into one for
  \<open>/https://<host><path>\<close> with the mirror in every \<open>Host\<close> line; the method, the version, the
  other header lines and the body are kept.
\<close>

theorem mirror_request:
  assumes "word meth" and "word path" and "word version" and "hd path = CHR ''/''"
    and "\<forall>l \<in> set headers. header_line l"
    and "valid_utf8 (join crlf ((meth @ SP # path @ SP # version) # headers))"
  shows "rewrite_request_for_mirror (request meth path version headers body) mirror host =
    request meth (''/https://'' @ host @ path) version (with_host mirror headers) body"
proof -
  let ?line = "meth @ SP # path @ SP # version"
  let ?line' = "meth @ SP # (''/https://'' @ host @ path) @ SP # version"
  let ?head = "join crlf (?line # headers)"
  have lines: "\<forall>l \<in> set (?line # headers). header_line l"
    using request_line_is_header [OF assms(1,2,3)] assms(5) by simp
  have sep: "find_sub (request meth path version headers body) header_sep = Some (length ?head)"
    unfolding request_def using find_sep_join [OF _ lines] by blast
  have body: "(if length ?head + 4 < length (request meth path version headers body)
      then drop (length ?head + 4) (request meth path version headers body) else []) = body"
    by (simp add: request_def header_sep_def del: join.simps)
  have "rewrite_request_for_mirror (request meth path version headers body) mirror host =
      (mirror_request_line host ?line @ concat (map (\<lambda>l. l @ crlf) (with_host mirror headers)))
      @ crlf @ body"
    using mirror_of_lines [OF lines assms(6) refl, where rest = "header_sep @ body" and host = host and mirror = mirror]
    unfolding rewrite_request_for_mirror_def Let_def sep option.case body
    unfolding request_def by (simp del: join.simps)
  also have "\<dots> = (concat (map (\<lambda>l. l @ crlf) (?line' # with_host mirror headers)) @ crlf) @ body"
    unfolding mirror_line_relative [OF assms(1-4)] by simp
  also have "\<dots> = request meth (''/https://'' @ host @ path) version (with_host mirror headers) body"
    unfolding request_def append_assoc [symmetric]
    by (subst join_crlf_sep [symmetric]) simp_all
  finally show ?thesis .
qed

theorem mirror_request_witness:
  "rewrite_request_for_mirror (request ''GET'' ''/o/r/archive/v1.zip'' ''HTTP/1.1''
     [''HOST: github.com'', ''Accept: text/html''] []) ''v4.gh-proxy.org'' ''github.com'' =
   request ''GET'' ''/https://github.com/o/r/archive/v1.zip'' ''HTTP/1.1''
     [''Host: v4.gh-proxy.org'', ''Accept: text/html''] []"
proof -
  have l: "to_lowercase ''HOST'' = ''host''" "to_lowercase ''Accept'' = ''accept''" by code_simp+
  have "with_host ''v4.gh-proxy.org'' [''HOST: github.com'', ''Accept: text/html''] =
      [''Host: v4.gh-proxy.org'', ''Accept: text/html'']"
    by (simp add: with_host_def is_host_line_def trim_id is_ws_def l)
  moreover have "rewrite_request_for_mirror (request ''GET'' ''/o/r/archive/v1.zip'' ''HTTP/1.1''
     [''HOST: github.com'', ''Accept: text/html''] []) ''v4.gh-proxy.org'' ''github.com'' =
     request ''GET'' (''/https://'' @ ''github.com'' @ ''/o/r/archive/v1.zip'') ''HTTP/1.1''
     (with_host ''v4.gh-proxy.org'' [''HOST: github.com'', ''Accept: text/html'']) []"
    by (rule mirror_request) (simp_all add: word_def is_ws_def header_line_def valid_utf8_ascii crlf_def)
  ultimately show ?thesis by simp
qed

lemma no_sep_join:
  "\<forall>l \<in> set ls. header_line l \<Longrightarrow> find_sub (join crlf ls) header_sep = None"
proof (induction ls rule: induct_list012)
  case 1
  then show ?case by (simp add: header_sep_def)
next
  case (2 l)
  then show ?case using find_sep_line [of l "[]"] by (simp add: header_line_def header_sep_def)
next
  case (3 l l' ls)
  obtain c t where l': "join crlf (l' # ls) = c # t" "c \<noteq> CR"
    using 3(3) by (cases l'; cases ls) (auto simp: header_line_def)
  have "find_sub (join crlf (l' # ls)) header_sep = None" using 3 by simp
  then have "find_sub (crlf @ join crlf (l' # ls)) header_sep = None"
    unfolding l' using l'(2) by (simp add: crlf_def header_sep_def)
  then show ?case
    using 3(3) find_sep_line [of l "crlf @ join crlf (l' # ls)"]
    by (simp add: header_line_def crlf_def)
qed

text \<open>
  The mirror rewriting does not notice that the header of the request has not
  arrived completely: it ends what it has with a blank line, so a request that is cut after
  some header lines gives the same bytes as a complete request with these lines alone, and
  what arrives later reaches the mirror behind the end of the request.
\<close>

theorem mirror_completes_cut_request:
  assumes "\<forall>l \<in> set (line # headers). header_line l"
    and "valid_utf8 (join crlf (line # headers))"
  shows "rewrite_request_for_mirror (join crlf (line # headers)) mirror host =
    rewrite_request_for_mirror (join crlf (line # headers) @ header_sep) mirror host"
proof -
  let ?head = "join crlf (line # headers)"
  have sep: "find_sub (?head @ header_sep) header_sep = Some (length ?head)"
    using find_sep_join [OF _ assms(1), of "[]"] by simp
  have body: "(if length ?head + 4 < length (?head @ header_sep) then drop (length ?head + 4) (?head @ header_sep)
      else []) = []" "(if length ?head + 4 < length ?head then drop (length ?head + 4) ?head else []) = []"
    by (simp_all add: header_sep_def del: join.simps)
  show ?thesis
    using mirror_of_lines [OF assms refl, where rest = "[]" and host = host and mirror = mirror]
      mirror_of_lines [OF assms refl, where rest = header_sep and host = host and mirror = mirror]
    unfolding rewrite_request_for_mirror_def Let_def sep no_sep_join [OF assms(1)] option.case body
    by (simp del: join.simps)
qed

theorem mirror_completes_cut_request_witness:
  "rewrite_request_for_mirror (''GET /a HTTP/1.1'' @ crlf @ ''Host: github.com'') ''m'' ''github.com'' =
   rewrite_request_for_mirror (''GET /a HTTP/1.1'' @ crlf @ ''Host: github.com'' @ header_sep) ''m'' ''github.com''"
  using mirror_completes_cut_request [of "''GET /a HTTP/1.1''" "[''Host: github.com'']" "''m''" "''github.com''"]
  by (simp add: header_line_def valid_utf8_ascii crlf_def)

section \<open>Targets\<close>

lemma parse_connect_line:
  assumes "word host" and "word version"
  shows "parse_connect_target (''CONNECT'' @ SP # (host @ CHR '':'' # show_nat port) @ SP # version) =
    (if port \<le> 65535 then Some (host, port) else None)"
proof -
  have "word (host @ CHR '':'' # show_nat port)" and "word ''CONNECT''"
    using assms(1) show_nat_no_ws by (auto simp: word_def is_ws_def)
  from split_request_line [OF this(2,1) assms(2)]
  have "split_whitespace (''CONNECT'' @ SP # (host @ CHR '':'' # show_nat port) @ SP # version) =
      [''CONNECT'', host @ CHR '':'' # show_nat port, version]" .
  moreover have "host \<noteq> []" using assms(1) by (simp add: word_def)
  ultimately show ?thesis
    by (simp add: parse_connect_target_def rsplit_once_append show_nat_no_colon parse_u16_def
        parse_show_nat)
qed

text \<open>
  A \<open>CONNECT\<close> line is understood exactly as it is written: any host without
  white space, colons included, and a port of 16 bits; a larger port is refused.
\<close>

theorem connect_target_roundtrip:
  assumes "word host" and "word version"
  shows "parse_connect_target (''CONNECT'' @ SP # (host @ CHR '':'' # show_nat port) @ SP # version) =
    (if port \<le> 65535 then Some (host, port) else None)"
  using assms by (rule parse_connect_line)

theorem connect_target_roundtrip_witness:
  "parse_connect_target (''CONNECT'' @ SP # (''[::1]'' @ CHR '':'' # show_nat 443) @ SP # ''HTTP/1.1'') =
   Some (''[::1]'', 443)"
  by (subst connect_target_roundtrip) (simp_all add: word_def is_ws_def)

section \<open>Cached responses\<close>

lemma scan_header_values:
  "scan_header_line (''Content-Type: '' @ v) acc = (Some (trim v), snd acc)"
  "scan_header_line (''Content-Length: '' @ v) acc = (fst acc, parse_uint (u64_size - 1) (trim v))"
  "scan_header_line (''ETag: '' @ v) acc = acc"
  "scan_header_line (''Last-Modified: '' @ v) acc = acc"
  "scan_header_line ''Connection: close'' acc = acc"
proof -
  have low: "to_lowercase ''Content-Type: '' = ''content-type: ''"
    "to_lowercase ''Content-Length: '' = ''content-length: ''" "to_lowercase ''ETag: '' = ''etag: ''"
    "to_lowercase ''Last-Modified: '' = ''last-modified: ''"
    "to_lowercase ''Connection: close'' = ''connection: close''" by code_simp+
  show "scan_header_line (''Content-Type: '' @ v) acc = (Some (trim v), snd acc)"
    "scan_header_line (''Content-Length: '' @ v) acc = (fst acc, parse_uint (u64_size - 1) (trim v))"
    "scan_header_line (''ETag: '' @ v) acc = acc" "scan_header_line (''Last-Modified: '' @ v) acc = acc"
    "scan_header_line ''Connection: close'' acc = acc"
    unfolding scan_header_line_def Let_def to_lowercase_append low
    by (simp_all add: trim_space case_prod_beta)
qed

definition cached_ok :: "cached_resource \<Rightarrow> bool" where
  "cached_ok c \<longleftrightarrow> length (cr_data c) < u64_size \<and>
     (\<forall>s \<in> {cr_content_type c} \<union> set_option (cr_etag c) \<union> set_option (cr_last_modified c).
        LF \<notin> set s \<and> CR \<notin> set s \<and> ascii s)"

definition cached_lines :: "cached_resource \<Rightarrow> string list" where
  "cached_lines c =
     [''HTTP/1.1 200 OK'', ''Content-Type: '' @ cr_content_type c,
      ''Content-Length: '' @ show_nat (length (cr_data c))]
     @ (case cr_etag c of None \<Rightarrow> [] | Some e \<Rightarrow> [''ETag: '' @ e])
     @ (case cr_last_modified c of None \<Rightarrow> [] | Some l \<Rightarrow> [''Last-Modified: '' @ l])
     @ [''Connection: close'']"

lemma cached_response_lines:
  "build_response_from_cache c = join crlf (cached_lines c) @ header_sep @ cr_data c"
  by (simp add: build_response_from_cache_def cached_lines_def split: option.split)

lemma set_join_crlf: "set (join crlf ls) \<subseteq> set crlf \<union> (\<Union>l \<in> set ls. set l)"
  by (induction ls rule: induct_list012) auto

lemma ascii_join:
  assumes "\<forall>l \<in> set ls. ascii l"
  shows "ascii (join crlf ls)"
proof
  fix c
  assume "c \<in> set (join crlf ls)"
  then consider "c \<in> set crlf" | l where "l \<in> set ls" and "c \<in> set l"
    using set_join_crlf [of ls] by blast
  then show "code c < 128"
  proof cases
    case 1
    then show ?thesis by (auto simp: crlf_def)
  next
    case 2
    then show ?thesis using assms by blast
  qed
qed

lemma scan_optional:
  "fold scan_header_line (case e of None \<Rightarrow> [] | Some v \<Rightarrow> [''ETag: '' @ v]) acc = acc"
  "fold scan_header_line (case e of None \<Rightarrow> [] | Some v \<Rightarrow> [''Last-Modified: '' @ v]) acc = acc"
  by (cases e, simp_all only: option.case fold_simps scan_header_values)+

lemma scan_cached_lines:
  "fold scan_header_line (drop 1 (cached_lines c)) acc =
     (Some (trim (cr_content_type c)), parse_uint (u64_size - 1) (trim (show_nat (length (cr_data c)))))"
proof -
  define content_type where "content_type = ''Content-Type: '' @ cr_content_type c"
  define content_length where "content_length = ''Content-Length: '' @ show_nat (length (cr_data c))"
  define etag where "etag = (case cr_etag c of None \<Rightarrow> [] | Some e \<Rightarrow> [''ETag: '' @ e])"
  define modified where
    "modified = (case cr_last_modified c of None \<Rightarrow> [] | Some l \<Rightarrow> [''Last-Modified: '' @ l])"
  have lines: "drop 1 (cached_lines c) = [content_type] @ [content_length] @ etag @ modified @ [''Connection: close'']"
    unfolding cached_lines_def content_type_def content_length_def etag_def modified_def by simp
  show ?thesis
    unfolding lines fold_append comp_apply fold_simps
    unfolding content_type_def content_length_def etag_def modified_def scan_header_values scan_optional
    by simp
qed

lemma cached_lines_are_lines:
  assumes "cached_ok c" and "l \<in> set (cached_lines c)"
  shows "header_line l" and "ascii l"
proof -
  have digits: "LF \<notin> set (show_nat n)" "CR \<notin> set (show_nat n)" "ascii (show_nat n)" for n
    using show_nat_no_ws [of n] show_nat_is_digit [of n] by (auto simp: is_ws_def list_all_iff is_digit_def)
  have plain: "LF \<notin> set s \<and> CR \<notin> set s \<and> ascii s"
    if "s = cr_content_type c \<or> cr_etag c = Some s \<or> cr_last_modified c = Some s" for s
    using assms(1) that unfolding cached_ok_def by fastforce
  let ?good = "\<lambda>l. header_line l \<and> ascii l"
  have "\<forall>l \<in> set [''HTTP/1.1 200 OK'', ''Content-Type: '' @ cr_content_type c,
      ''Content-Length: '' @ show_nat (length (cr_data c))]. ?good l"
    using plain [of "cr_content_type c"] digits by (simp add: header_line_def)
  moreover have "\<forall>l \<in> set (case cr_etag c of None \<Rightarrow> [] | Some e \<Rightarrow> [''ETag: '' @ e]). ?good l"
    proof (cases "cr_etag c")
    case (Some e)
    then show ?thesis using plain [of e] by (simp add: header_line_def)
  qed simp
  moreover have "\<forall>l \<in> set (case cr_last_modified c of None \<Rightarrow> [] | Some l \<Rightarrow> [''Last-Modified: '' @ l]). ?good l"
    proof (cases "cr_last_modified c")
    case (Some m)
    then show ?thesis using plain [of m] by (simp add: header_line_def)
  qed simp
  moreover have "\<forall>l \<in> set [''Connection: close'']. ?good l" by (simp add: header_line_def)
  ultimately have "\<forall>l \<in> set (cached_lines c). ?good l"
    unfolding cached_lines_def set_append ball_Un by blast
  then show "header_line l" and "ascii l" using assms(2) by blast+
qed

text \<open>
  The response the proxy builds from its cache has the type and the length it
  was stored with, read back by the header parser of the proxy itself, and the stored bytes
  follow the first blank line.
\<close>

theorem cached_response_roundtrip:
  assumes "cached_ok c"
  shows "parse_response_headers (build_response_from_cache c) =
      (Some (trim (cr_content_type c)), Some (length (cr_data c))) \<and>
    (\<exists>pos. find_header_end (build_response_from_cache c) = Some pos \<and>
       drop (pos + 4) (build_response_from_cache c) = cr_data c)"
proof -
  let ?head = "join crlf (cached_lines c)"
  have ne: "cached_lines c \<noteq> []" by (simp add: cached_lines_def)
  have lines: "\<forall>l \<in> set (cached_lines c). header_line l" "\<forall>l \<in> set (cached_lines c). ascii l"
    using cached_lines_are_lines [OF assms] by blast+
  have sep: "find_sub (?head @ header_sep @ cr_data c) header_sep = Some (length ?head)"
    by (rule find_sep_join [OF ne lines(1)])
  then have pos: "find_header_end (build_response_from_cache c) = Some (length ?head)"
    unfolding find_header_end_def cached_response_lines .
  have head: "take (length ?head) (build_response_from_cache c) = ?head"
    unfolding cached_response_lines by simp
  have "parse_uint (u64_size - 1) (trim (show_nat (length (cr_data c)))) = Some (length (cr_data c))"
    using assms unfolding cached_ok_def by (simp add: trim_no_ws show_nat_no_ws parse_show_nat)
  then have "parse_response_headers (build_response_from_cache c) =
      (Some (trim (cr_content_type c)), Some (length (cr_data c)))"
    unfolding parse_response_headers_def pos option.case head
      utf8_lossy_ascii [OF ascii_join [OF lines(2)]] str_lines_join [OF ne lines(1)]
      scan_cached_lines by (rule arg_cong)
  moreover have "drop (length ?head + 4) (build_response_from_cache c) = cr_data c"
    unfolding cached_response_lines by (simp add: header_sep_def)
  ultimately show ?thesis using pos by blast
qed

theorem cached_response_roundtrip_witness:
  "parse_response_headers (build_response_from_cache \<lparr>cr_content_type = ''image/png'', cr_data = ''abc'',
     cr_etag = Some ''x'', cr_last_modified = None\<rparr>) = (Some ''image/png'', Some 3)"
  using cached_response_roundtrip [of "\<lparr>cr_content_type = ''image/png'', cr_data = ''abc'',
     cr_etag = Some ''x'', cr_last_modified = None\<rparr>"]
  by (simp add: cached_ok_def trim_no_ws is_ws_def)

end
