(* ===== verification/Stream_Resolver.thy ===== *)
theory Stream_Resolver
  imports Doh_Client
begin

text \<open>
  The streaming resolver (\<open>src/dns/stream_resolver.rs\<close>): every endpoint is asked on its own, up
  to three times, and its IPv4 addresses are sent as soon as they are there. How many messages
  the receiver takes before it is dropped is the parameter \<open>taken\<close>; \<open>nets host k\<close> is what the
  \<open>k\<close>-th attempt at a host meets. The tasks share the connection pool; they are run one after
  the other in the order in which they finish.
\<close>

section \<open>Messages and tasks\<close>

record stream_result =
  st_ip :: ip_addr
  st_source :: string

definition DOH_MAX_RETRIES :: nat where
  "DOH_MAX_RETRIES = 3"

definition stream_extract_host :: "string \<Rightarrow> string option" where
  "stream_extract_host url =
     (case (case strip_prefix url ''https://'' of
              None \<Rightarrow> strip_prefix url ''http://''
            | Some rest \<Rightarrow> Some rest) of
        None \<Rightarrow> None
      | Some without_scheme \<Rightarrow>
          Some (hd (split_on CHR '':'' (hd (split_on CHR ''/'' without_scheme)))))"

text \<open>A send to a dropped receiver fails and ends the task.\<close>

fun send_ips :: "nat \<Rightarrow> string \<Rightarrow> ip_addr list \<Rightarrow> stream_result list" where
  "send_ips taken host [] = []"
| "send_ips taken host (ip # ips) =
     (if is_ipv4 ip then
        (case taken of
           0 \<Rightarrow> []
         | Suc n \<Rightarrow> \<lparr>st_ip = ip, st_source = host\<rparr> # send_ips n host ips)
      else send_ips taken host ips)"

fun query_attempts ::
    "(string, 'l) lru_ops \<Rightarrow> (nat \<Rightarrow> doh_net) \<Rightarrow> nat \<Rightarrow> nat list \<Rightarrow> string \<Rightarrow> string \<Rightarrow> 'l doh_client
     \<Rightarrow> (doh_error, stream_result list) outcome \<times> 'l doh_client" where
  "query_attempts ops nets taken [] host domain d = (Ok [], d)"
| "query_attempts ops nets taken (k # ks) host domain d =
     (case query_single_host ops (nets k) host domain d of
        (Ok ips, d') \<Rightarrow>
          if ips \<noteq> [] then (Ok (send_ips taken host ips), d')
          else query_attempts ops nets taken ks host domain d'
      | (Err e, d') \<Rightarrow> query_attempts ops nets taken ks host domain d'
      | (Panic, d') \<Rightarrow> (Panic, d'))"

fun resolve_stream ::
    "(string, 'l) lru_ops \<Rightarrow> (string \<Rightarrow> nat \<Rightarrow> doh_net) \<Rightarrow> nat \<Rightarrow> string \<Rightarrow> doh_endpoint list \<Rightarrow> 'l doh_client
     \<Rightarrow> (doh_error, stream_result list) outcome \<times> 'l doh_client" where
  "resolve_stream ops nets taken domain [] d = (Ok [], d)"
| "resolve_stream ops nets taken domain (ep # endpoints) d =
     (case stream_extract_host (de_url ep) of
        None \<Rightarrow> resolve_stream ops nets taken domain endpoints d
      | Some host \<Rightarrow>
          (case query_attempts ops (nets host) taken [1..<DOH_MAX_RETRIES + 1] host domain d of
             (Ok sent, d') \<Rightarrow>
               (case resolve_stream ops nets (taken - length sent) domain endpoints d' of
                  (Ok rest, d'') \<Rightarrow> (Ok (sent @ rest), d'')
                | (Err e, d'') \<Rightarrow> (Err e, d'')
                | (Panic, d'') \<Rightarrow> (Panic, d''))
           | (Err e, d') \<Rightarrow> (Err e, d')
           | (Panic, d') \<Rightarrow> (Panic, d')))"

section \<open>What is sent\<close>

lemma send_ips_eq:
  "send_ips taken host ips = map (\<lambda>ip. \<lparr>st_ip = ip, st_source = host\<rparr>) (take taken (filter is_ipv4 ips))"
  by (induction taken host ips rule: send_ips.induct) (auto split: nat.split)

text \<open>The state after attempts that did not bring an address.\<close>

fun after_failures ::
    "(string, 'l) lru_ops \<Rightarrow> (nat \<Rightarrow> doh_net) \<Rightarrow> nat list \<Rightarrow> string \<Rightarrow> string \<Rightarrow> 'l doh_client \<Rightarrow> 'l doh_client" where
  "after_failures ops nets [] host domain d = d"
| "after_failures ops nets (k # ks) host domain d =
     after_failures ops nets ks host domain (snd (query_single_host ops (nets k) host domain d))"

lemma query_attempts_cases:
  assumes "query_attempts ops nets taken ks host domain d = (out, d')"
  shows "(\<exists>us k vs. ks = us @ k # vs \<and>
      (\<exists>ips. query_single_host ops (nets k) host domain (after_failures ops nets us host domain d) = (Ok ips, d') \<and>
         ips \<noteq> [] \<and> out = Ok (send_ips taken host ips))) \<or>
    (out = Ok [] \<and> d' = after_failures ops nets ks host domain d) \<or> out = Panic"
  using assms
proof (induction ks arbitrary: d)
  case (Cons k ks)
  obtain r d1 where q: "query_single_host ops (nets k) host domain d = (r, d1)" by fastforce
  show ?case
  proof (cases "\<exists>ips. r = Ok ips \<and> ips \<noteq> []")
    case True
    then obtain ips where "r = Ok ips" "ips \<noteq> []" by blast
    then have "query_single_host ops (nets k) host domain (after_failures ops nets [] host domain d) = (Ok ips, d')"
      "out = Ok (send_ips taken host ips)"
      using Cons.prems q by auto
    then show ?thesis using \<open>ips \<noteq> []\<close> by (metis append_Nil)
  next
    case False
    show ?thesis
    proof (cases "r = Panic")
      case True
      then show ?thesis using Cons.prems q by simp
    next
      case False
      then have rec: "query_attempts ops nets taken ks host domain d1 = (out, d')"
        using Cons.prems q \<open>\<not> (\<exists>ips. r = Ok ips \<and> ips \<noteq> [])\<close> by (cases r) auto
      have after: "after_failures ops nets (k # us) host domain d = after_failures ops nets us host domain d1" for us
        by (simp add: q)
      from Cons.IH [OF rec] consider us j vs ips where "ks = us @ j # vs"
          "query_single_host ops (nets j) host domain (after_failures ops nets us host domain d1) = (Ok ips, d')"
          "ips \<noteq> []" "out = Ok (send_ips taken host ips)"
        | "out = Ok []" "d' = after_failures ops nets ks host domain d1" | "out = Panic"
        by blast
      then show ?thesis
      proof cases
        case 1
        then have "k # ks = (k # us) @ j # vs" by simp
        then show ?thesis using 1 after by metis
      qed (use after in auto)
    qed
  qed
qed simp

lemma stream_messages:
  "resolve_stream ops nets taken domain endpoints d = (Ok sent, d') \<Longrightarrow>
   length sent \<le> taken \<and>
   (\<forall>m \<in> set sent. is_ipv4 (st_ip m) \<and>
      (\<exists>e \<in> set endpoints. stream_extract_host (de_url e) = Some (st_source m)) \<and>
      (\<exists>k \<in> {1..3}. \<exists>c ips c'. query_single_host ops (nets (st_source m) k) (st_source m) domain c = (Ok ips, c') \<and>
         st_ip m \<in> set ips))"
proof (induction endpoints arbitrary: taken d sent)
  case (Cons e es)
  show ?case
  proof (cases "stream_extract_host (de_url e)")
    case None
    then show ?thesis using Cons by auto
  next
    case (Some host)
    obtain out d1 where q: "query_attempts ops (nets host) taken [1..<DOH_MAX_RETRIES + 1] host domain d = (out, d1)"
      by fastforce
    obtain first where out: "out = Ok first" using Cons.prems q Some by (cases out) auto
    obtain res d2 where r: "resolve_stream ops nets (taken - length first) domain es d1 = (res, d2)" by fastforce
    obtain rest where res: "res = Ok rest" "d2 = d'" and sent: "sent = first @ rest"
      using Cons.prems q Some out r by (cases res) auto
    have len: "length first \<le> taken" and from_host: "\<forall>m \<in> set first. is_ipv4 (st_ip m) \<and> st_source m = host \<and>
        (\<exists>k \<in> {1..3}. \<exists>c ips c'. query_single_host ops (nets host k) host domain c = (Ok ips, c') \<and> st_ip m \<in> set ips)"
    proof -
      from query_attempts_cases [OF q] out consider us k vs ips where
          "[1..<DOH_MAX_RETRIES + 1] = us @ k # vs"
          "query_single_host ops (nets host k) host domain (after_failures ops (nets host) us host domain d) = (Ok ips, d1)"
          "first = send_ips taken host ips" | "first = []"
        by auto
      then have "length first \<le> taken \<and> (\<forall>m \<in> set first. is_ipv4 (st_ip m) \<and> st_source m = host \<and>
        (\<exists>k \<in> {1..3}. \<exists>c ips c'. query_single_host ops (nets host k) host domain c = (Ok ips, c') \<and> st_ip m \<in> set ips))"
      proof cases
        case 1
        have "k \<in> set [1..<DOH_MAX_RETRIES + 1]" unfolding 1(1) by simp
        then have "k \<in> {1..3}" by (auto simp: DOH_MAX_RETRIES_def)
        moreover have "set (take taken (filter is_ipv4 ips)) \<subseteq> {ip \<in> set ips. is_ipv4 ip}"
          using set_take_subset [of taken "filter is_ipv4 ips"] by auto
        ultimately have good: "(\<exists>k \<in> {1..3}. \<exists>c ips c'. query_single_host ops (nets host k) host domain c = (Ok ips, c') \<and> ip \<in> set ips) \<and>
          is_ipv4 ip" if "ip \<in> set (take taken (filter is_ipv4 ips))" for ip
          using 1(2) that by blast
        show ?thesis
        proof (intro conjI ballI)
          show "length first \<le> taken" by (simp add: 1(3) send_ips_eq)
          fix m
          assume "m \<in> set first"
          then obtain ip where ip: "ip \<in> set (take taken (filter is_ipv4 ips))" and m: "m = \<lparr>st_ip = ip, st_source = host\<rparr>"
            unfolding 1(3) send_ips_eq by auto
          show "is_ipv4 (st_ip m)" and "st_source m = host" using good [OF ip] m by simp_all
          show "\<exists>k \<in> {1..3}. \<exists>c ips c'. query_single_host ops (nets host k) host domain c = (Ok ips, c') \<and> st_ip m \<in> set ips"
            using good [OF ip] unfolding m stream_result.select_convs by (rule conjunct1)
        qed
      qed simp
      then show "length first \<le> taken" and "\<forall>m \<in> set first. is_ipv4 (st_ip m) \<and> st_source m = host \<and>
        (\<exists>k \<in> {1..3}. \<exists>c ips c'. query_single_host ops (nets host k) host domain c = (Ok ips, c') \<and> st_ip m \<in> set ips)"
        by blast+
    qed
    note rest_ok = Cons.IH [OF r [unfolded res]]
    have "length sent \<le> taken" using conjunct1 [OF rest_ok] len unfolding sent by simp
    moreover have "\<forall>m \<in> set first. is_ipv4 (st_ip m) \<and>
      (\<exists>e \<in> set (e # es). stream_extract_host (de_url e) = Some (st_source m)) \<and>
      (\<exists>k \<in> {1..3}. \<exists>c ips c'. query_single_host ops (nets (st_source m) k) (st_source m) domain c = (Ok ips, c') \<and>
         st_ip m \<in> set ips)"
      using from_host Some by auto
    moreover have "\<exists>e \<in> set (e # es). stream_extract_host (de_url e) = Some (st_source m)" if "m \<in> set rest" for m
      using rest_ok that by auto
    ultimately show ?thesis using rest_ok unfolding sent set_append ball_Un by blast
  qed
qed simp

text \<open>
  Each address the stream brings is an IPv4 address that one of at most three
  queries of the named endpoint answered with, and never more messages are sent than the
  receiver takes.
\<close>

theorem stream_brings_ipv4_answers:
  assumes "resolve_stream ops nets taken domain endpoints d = (Ok sent, d')"
  shows "length sent \<le> taken \<and>
   (\<forall>m \<in> set sent. is_ipv4 (st_ip m) \<and>
      (\<exists>e \<in> set endpoints. stream_extract_host (de_url e) = Some (st_source m)) \<and>
      (\<exists>k \<in> {1..3}. \<exists>c ips c'. query_single_host ops (nets (st_source m) k) (st_source m) domain c = (Ok ips, c') \<and>
         st_ip m \<in> set ips))"
  using assms by (rule stream_messages)

lemma sample_stream:
  "\<exists>d'. resolve_stream list_lru_ops (\<lambda>_ _. sample_net) 5 ''github.com'' [sample_endpoint False] sample_client =
     (Ok [\<lparr>st_ip = V4 140 82 121 3, st_source = ''dns.alidns.com''\<rparr>], d')"
proof -
  let ?host = "''dns.alidns.com''"
  obtain ws rs where conn: "dn_connect sample_net (V4 223 5 5 5) ?host = Some (ws, rs)"
    by (simp add: sample_net_def)
  obtain s' where q: "execute_queries sample_net
      \<lparr>ts_host = ?host, ts_sent = [], ts_writes = ws, ts_reads = rs\<rparr> ?host ''github.com'' =
      (Ok [V4 140 82 121 3], s')"
    using sample_execute [OF conn] by blast
  have host: "stream_extract_host (de_url (sample_endpoint False)) = Some ?host"
    using extract_host_https [of ?host "''dns-query''"]
    by (simp add: stream_extract_host_def extract_host_def sample_endpoint_def endpoint_def)
  have "connection_for list_lru_ops sample_net ?host sample_client =
      (Ok \<lparr>ts_host = ?host, ts_sent = [], ts_writes = ws, ts_reads = rs\<rparr>, sample_client)"
    using conn by (simp add: connection_for_def acquire_connection_def sample_client_of_def doh_new_def
        create_new_connection_def get_doh_server_ip_def)
  then have "\<exists>d'. query_single_host list_lru_ops sample_net ?host ''github.com'' sample_client =
      (Ok [V4 140 82 121 3], d')"
    by (simp add: query_single_host_def q)
  then show ?thesis
    using host by (auto simp: DOH_MAX_RETRIES_def upt_conv_Cons)
qed

theorem stream_brings_ipv4_answers_witness:
  "\<exists>sent d'. resolve_stream list_lru_ops (\<lambda>_ _. sample_net) 5 ''github.com'' [sample_endpoint False] sample_client =
     (Ok sent, d') \<and> sent \<noteq> [] \<and> (\<exists>m \<in> set sent. is_ipv4 (st_ip m))"
proof -
  obtain d' where s: "resolve_stream list_lru_ops (\<lambda>_ _. sample_net) 5 ''github.com'' [sample_endpoint False] sample_client =
     (Ok [\<lparr>st_ip = V4 140 82 121 3, st_source = ''dns.alidns.com''\<rparr>], d')"
    using sample_stream by blast
  from stream_brings_ipv4_answers [OF s] s show ?thesis by auto
qed

end
