(* ===== verification/Metrics.thy ===== *)
theory Metrics
  imports Prelude "HOL-Library.Word"
begin

text \<open>
  The counters of the proxy (\<open>src/proxy/metrics.rs\<close>): atomic 64-bit counters, which wrap, so each
  operation is one atomic update. The rate divides as \<open>f64\<close> in the source; here the quotient is
  exact before it is cut off, and the conversion to \<open>u64\<close> saturates as in the source.
\<close>

record metrics =
  mx_active :: "64 word"
  mx_total :: "64 word"
  mx_sent :: "64 word"
  mx_received :: "64 word"
  mx_instant_sent :: "64 word"
  mx_instant_received :: "64 word"
  mx_last_reset :: nat
  mx_mitm :: "64 word"
  mx_tunnel :: "64 word"
  mx_direct :: "64 word"
  mx_doh :: "64 word"
  mx_direct_fallbacks :: "64 word"
  mx_routing_hits :: "64 word"
  mx_routing_misses :: "64 word"

record metrics_snapshot =
  sn_active :: "64 word"
  sn_total :: "64 word"
  sn_sent :: "64 word"
  sn_received :: "64 word"
  sn_mitm :: "64 word"
  sn_tunnel :: "64 word"
  sn_direct :: "64 word"
  sn_doh :: "64 word"
  sn_direct_fallbacks :: "64 word"
  sn_routing_hits :: "64 word"
  sn_routing_misses :: "64 word"

text \<open>Times are in nanoseconds.\<close>

definition metrics_new :: "nat \<Rightarrow> metrics" where
  "metrics_new now =
     \<lparr>mx_active = 0, mx_total = 0, mx_sent = 0, mx_received = 0, mx_instant_sent = 0,
      mx_instant_received = 0, mx_last_reset = now, mx_mitm = 0, mx_tunnel = 0, mx_direct = 0,
      mx_doh = 0, mx_direct_fallbacks = 0, mx_routing_hits = 0, mx_routing_misses = 0\<rparr>"

definition inc_active :: "metrics \<Rightarrow> metrics" where
  "inc_active x = x\<lparr>mx_active := mx_active x + 1, mx_total := mx_total x + 1\<rparr>"

definition dec_active :: "metrics \<Rightarrow> metrics" where
  "dec_active x = x\<lparr>mx_active := mx_active x - 1\<rparr>"

definition add_bytes_sent :: "64 word \<Rightarrow> metrics \<Rightarrow> metrics" where
  "add_bytes_sent n x = x\<lparr>mx_sent := mx_sent x + n, mx_instant_sent := mx_instant_sent x + n\<rparr>"

definition add_bytes_received :: "64 word \<Rightarrow> metrics \<Rightarrow> metrics" where
  "add_bytes_received n x =
     x\<lparr>mx_received := mx_received x + n, mx_instant_received := mx_instant_received x + n\<rparr>"

definition inc_mitm :: "metrics \<Rightarrow> metrics" where
  "inc_mitm x = x\<lparr>mx_mitm := mx_mitm x + 1\<rparr>"

definition inc_tunnel :: "metrics \<Rightarrow> metrics" where
  "inc_tunnel x = x\<lparr>mx_tunnel := mx_tunnel x + 1\<rparr>"

definition inc_direct :: "metrics \<Rightarrow> metrics" where
  "inc_direct x = x\<lparr>mx_direct := mx_direct x + 1\<rparr>"

definition inc_doh :: "metrics \<Rightarrow> metrics" where
  "inc_doh x = x\<lparr>mx_doh := mx_doh x + 1\<rparr>"

definition inc_direct_fallback :: "metrics \<Rightarrow> metrics" where
  "inc_direct_fallback x = x\<lparr>mx_direct_fallbacks := mx_direct_fallbacks x + 1\<rparr>"

definition inc_routing_cache_hit :: "metrics \<Rightarrow> metrics" where
  "inc_routing_cache_hit x = x\<lparr>mx_routing_hits := mx_routing_hits x + 1\<rparr>"

definition inc_routing_cache_miss :: "metrics \<Rightarrow> metrics" where
  "inc_routing_cache_miss x = x\<lparr>mx_routing_misses := mx_routing_misses x + 1\<rparr>"

definition snapshot :: "metrics \<Rightarrow> metrics_snapshot" where
  "snapshot x =
     \<lparr>sn_active = mx_active x, sn_total = mx_total x, sn_sent = mx_sent x, sn_received = mx_received x,
      sn_mitm = mx_mitm x, sn_tunnel = mx_tunnel x, sn_direct = mx_direct x, sn_doh = mx_doh x,
      sn_direct_fallbacks = mx_direct_fallbacks x, sn_routing_hits = mx_routing_hits x,
      sn_routing_misses = mx_routing_misses x\<rparr>"

text \<open>Bytes per second over the time since the last reset, which counts as one millisecond at least.\<close>

definition byte_rate :: "64 word \<Rightarrow> nat \<Rightarrow> 64 word" where
  "byte_rate n elapsed = of_nat (min (2 ^ 64 - 1) (unat n * 10 ^ 9 div max elapsed (10 ^ 6)))"

definition get_rate_and_reset :: "nat \<Rightarrow> metrics \<Rightarrow> (64 word \<times> 64 word) \<times> metrics" where
  "get_rate_and_reset now x =
     (let elapsed = now - mx_last_reset x
      in ((byte_rate (mx_instant_sent x) elapsed, byte_rate (mx_instant_received x) elapsed),
          x\<lparr>mx_instant_sent := 0, mx_instant_received := 0, mx_last_reset := now\<rparr>))"

section \<open>Lemmas\<close>

named_theorems metrics_simps \<open>updates of the counters\<close>

lemmas [metrics_simps] = inc_active_def dec_active_def add_bytes_sent_def add_bytes_received_def

lemma add_bytes_sent_0 [simp]: "add_bytes_sent 0 x = x"
  by (simp add: add_bytes_sent_def)

lemma add_bytes_received_0 [simp]: "add_bytes_received 0 x = x"
  by (simp add: add_bytes_received_def)

lemma add_bytes_sent_add: "add_bytes_sent n (add_bytes_sent k x) = add_bytes_sent (n + k) x"
  by (simp add: add_bytes_sent_def ac_simps)

lemma add_bytes_received_add: "add_bytes_received n (add_bytes_received k x) = add_bytes_received (n + k) x"
  by (simp add: add_bytes_received_def ac_simps)

lemma add_bytes_commute: "add_bytes_sent n (add_bytes_received k x) = add_bytes_received k (add_bytes_sent n x)"
  by (simp add: add_bytes_sent_def add_bytes_received_def)

text \<open>The rate over one second is the number of bytes, and no rate exceeds what was counted.\<close>

lemma byte_rate_le: "unat (byte_rate n elapsed) * max elapsed (10 ^ 6) \<le> unat n * 10 ^ 9"
proof -
  have "unat (byte_rate n elapsed) = min (2 ^ 64 - 1) (unat n * 10 ^ 9 div max elapsed (10 ^ 6))"
    by (simp add: byte_rate_def unat_of_nat min_def)
  also have "\<dots> \<le> unat n * 10 ^ 9 div max elapsed (10 ^ 6)"
    by (rule min.cobounded2)
  finally have "unat (byte_rate n elapsed) * max elapsed (10 ^ 6)
      \<le> unat n * 10 ^ 9 div max elapsed (10 ^ 6) * max elapsed (10 ^ 6)"
    by (rule mult_le_mono1)
  then show ?thesis
    using div_times_less_eq_dividend order_trans by blast
qed

lemma byte_rate_second: "byte_rate n (secs 1) = n"
proof -
  have "unat n \<le> 2 ^ 64 - 1" using unsigned_less [of n, where ?'a = nat] by simp
  then show ?thesis by (simp add: byte_rate_def min_def)
qed

end
