(* ===== verification/Wire.thy ===== *)
theory Wire
  imports Metrics Http_Text
begin

text \<open>
  A connection as the handler sees it, and the loops of \<open>src/proxy/handler.rs\<close> on connections:
  reading a header, reading a body to its length, to its last chunk or to the end, passing a body
  on, and the counted copy in both directions. What a peer sends is a list of events: a chunk, a
  pause in which a time limit that is set runs out, or a failure of the read; at the end of the list the
  connection is closed. A peer takes what is written to it, or only a number of bytes more before a
  write fails. \<open>copy_bidirectional\<close> of tokio is not modelled here, it is a parameter of the handler.
\<close>

section \<open>Connections\<close>

datatype read_event = Arrived string | Pause | Broken

record endpoint =
  ep_reads :: "read_event list"
  ep_written :: string
  ep_room :: "nat option"

datatype wire_result = Got string | ReadFailed | ReadTimedOut

text \<open>One read into a buffer of \<open>n\<close> bytes; without a time limit a pause is waited for.\<close>

fun next_read :: "bool \<Rightarrow> nat \<Rightarrow> read_event list \<Rightarrow> wire_result \<times> read_event list" where
  "next_read timed n [] = (Got [], [])"
| "next_read timed n (Pause # es) = (if timed then (ReadTimedOut, es) else next_read timed n es)"
| "next_read timed n (Broken # es) = (ReadFailed, es)"
| "next_read timed n (Arrived s # es) =
     (Got (take n s), if length s \<le> n then es else Arrived (drop n s) # es)"

definition read_some :: "bool \<Rightarrow> nat \<Rightarrow> endpoint \<Rightarrow> wire_result \<times> endpoint" where
  "read_some timed n ep =
     (let (r, es) = next_read timed n (ep_reads ep) in (r, ep\<lparr>ep_reads := es\<rparr>))"

definition peek_some :: "nat \<Rightarrow> endpoint \<Rightarrow> wire_result" where
  "peek_some n ep = fst (next_read False n (ep_reads ep))"

definition write_all :: "string \<Rightarrow> endpoint \<Rightarrow> bool \<times> endpoint" where
  "write_all s ep =
     (case ep_room ep of
        None \<Rightarrow> (True, ep\<lparr>ep_written := ep_written ep @ s\<rparr>)
      | Some k \<Rightarrow>
          if length s \<le> k then
            (True, ep\<lparr>ep_written := ep_written ep @ s, ep_room := Some (k - length s)\<rparr>)
          else (False, ep\<lparr>ep_written := ep_written ep @ take k s, ep_room := Some 0\<rparr>))"

text \<open>How much there is still to read: it bounds the number of reads that are not at the end.\<close>

fun event_size :: "read_event \<Rightarrow> nat" where
  "event_size (Arrived s) = length s + 1"
| "event_size Pause = 1"
| "event_size Broken = 1"

definition pending :: "read_event list \<Rightarrow> nat" where
  "pending es = sum_list (map event_size es)"

lemma pending_simps [simp]:
  "pending [] = 0" "pending (e # es) = event_size e + pending es"
  by (simp_all add: pending_def)

lemma next_read_pending: "next_read timed n es = (r, es') \<Longrightarrow> pending es' \<le> pending es"
  by (induction timed n es rule: next_read.induct) (auto split: if_splits)

lemma next_read_less:
  "next_read timed n es = (r, es') \<Longrightarrow> 0 < n \<Longrightarrow> es \<noteq> [] \<Longrightarrow> r \<noteq> Got [] \<Longrightarrow> pending es' < pending es"
  by (induction timed n es rule: next_read.induct) (auto split: if_splits dest: next_read_pending)

lemma next_read_Got_less:
  assumes "next_read timed n es = (Got s, es')" and "s \<noteq> []"
  shows "pending es' < pending es"
  using assms by (induction timed n es rule: next_read.induct) (auto split: if_splits)

lemma next_read_stop_less:
  assumes "next_read timed n es = (r, es')" and "r = ReadFailed \<or> r = ReadTimedOut"
  shows "pending es' < pending es"
  using assms by (induction timed n es rule: next_read.induct) (auto split: if_splits)

lemma next_read_length: "next_read timed n es = (Got s, es') \<Longrightarrow> length s \<le> n"
  by (induction timed n es rule: next_read.induct) (auto split: if_splits)

text \<open>The bytes that a peer sends before its connection is closed or breaks.\<close>

fun sent_bytes :: "read_event list \<Rightarrow> string" where
  "sent_bytes [] = []"
| "sent_bytes (Arrived s # es) = (if s = [] then [] else s @ sent_bytes es)"
| "sent_bytes (Pause # es) = sent_bytes es"
| "sent_bytes (Broken # es) = []"

lemma next_read_sent:
  "next_read timed n es = (Got s, es') \<Longrightarrow> 0 < n \<Longrightarrow> s \<noteq> [] \<Longrightarrow> sent_bytes es = s @ sent_bytes es'"
  by (induction timed n es rule: next_read.induct) (auto split: if_splits)

lemma next_read_end: "next_read timed n es = (Got [], es') \<Longrightarrow> 0 < n \<Longrightarrow> sent_bytes es = []"
  by (induction timed n es rule: next_read.induct) (auto split: if_splits)

lemma next_read_failed: "next_read False n es = (ReadFailed, es') \<Longrightarrow> sent_bytes es = []"
  by (induction False n es rule: next_read.induct) (auto split: if_splits)

lemma next_read_no_timeout [simp]: "next_read False n es \<noteq> (ReadTimedOut, es')"
  by (induction False n es rule: next_read.induct) auto

lemma write_all_out: "write_all s ep = (ok, ep') \<Longrightarrow>
    (\<exists>k. ep_written ep' = ep_written ep @ take k s) \<and> ep_reads ep' = ep_reads ep"
  by (auto simp: write_all_def split: option.splits if_splits intro: exI [of _ "length s"])

lemma write_all_ok: "write_all s ep = (True, ep') \<Longrightarrow> ep_written ep' = ep_written ep @ s"
  by (auto simp: write_all_def split: option.splits if_splits)

lemma write_all_reads [simp]: "ep_reads (snd (write_all s ep)) = ep_reads ep"
  by (auto simp: write_all_def split: option.splits)

lemma write_all_unbounded [simp]:
  "ep_room ep = None \<Longrightarrow> write_all s ep = (True, ep\<lparr>ep_written := ep_written ep @ s\<rparr>)"
  by (simp add: write_all_def)

lemma read_some_next:
  "read_some timed n ep = (r, ep') \<Longrightarrow>
     next_read timed n (ep_reads ep) = (r, ep_reads ep') \<and> ep_written ep' = ep_written ep \<and> ep_room ep' = ep_room ep"
  by (auto simp: read_some_def split_beta intro: prod_eqI)

lemma read_some_less:
  "read_some timed n ep = (Got s, ep') \<Longrightarrow> s \<noteq> [] \<Longrightarrow> pending (ep_reads ep') < pending (ep_reads ep)"
  using next_read_Got_less read_some_next by blast

lemmas read_some_measure = read_some_less [OF sym]

section \<open>Reading a header\<close>

datatype header_stop = HeaderAt nat | HeaderClosed | HeaderFailed | HeaderTimedOut | HeaderTooLong

text \<open>Read with a buffer of \<open>n\<close> bytes until the blank line is there or more than \<open>limit\<close> bytes are.\<close>

function read_head :: "bool \<Rightarrow> nat \<Rightarrow> nat \<Rightarrow> string \<Rightarrow> endpoint \<Rightarrow> header_stop \<times> string \<times> endpoint" where
  "read_head timed n limit buf ep =
     (case read_some timed n ep of
        (ReadFailed, ep1) \<Rightarrow> (HeaderFailed, buf, ep1)
      | (ReadTimedOut, ep1) \<Rightarrow> (HeaderTimedOut, buf, ep1)
      | (Got s, ep1) \<Rightarrow>
          if s = [] then (HeaderClosed, buf, ep1)
          else (case find_header_end (buf @ s) of
                  Some pos \<Rightarrow> (HeaderAt pos, buf @ s, ep1)
                | None \<Rightarrow>
                    if limit < length (buf @ s) then (HeaderTooLong, buf @ s, ep1)
                    else read_head timed n limit (buf @ s) ep1))"
  by pat_completeness auto

termination read_head
  by (relation "measure (\<lambda>(timed, n, limit, buf, ep). pending (ep_reads ep))")
    (auto dest: read_some_measure)

declare read_head.simps [simp del]

section \<open>Reading a body\<close>

text \<open>A body of known length: \<open>remaining\<close> bytes more, or less if the connection ends.\<close>

function read_length :: "nat \<Rightarrow> string \<Rightarrow> endpoint \<Rightarrow> string \<times> endpoint" where
  "read_length remaining body ep =
     (if remaining = 0 then (body, ep)
      else
        (case read_some False (min 8192 remaining) ep of
           (Got s, ep1) \<Rightarrow> if s = [] then (body, ep1) else read_length (remaining - length s) (body @ s) ep1
         | (_, ep1) \<Rightarrow> (body, ep1)))"
  by pat_completeness auto

termination read_length
  by (relation "measure (\<lambda>(remaining, body, ep). pending (ep_reads ep))") (auto dest: read_some_measure)

declare read_length.simps [simp del]

definition body_limit :: nat where
  "body_limit = 2 * 1024 * 1024"

definition last_chunk :: string where
  "last_chunk = ''0'' @ header_sep"

text \<open>A chunked body: until the mark of the last chunk is somewhere in it.\<close>

function read_chunks :: "string \<Rightarrow> endpoint \<Rightarrow> string \<times> endpoint" where
  "read_chunks body ep =
     (case read_some True 8192 ep of
        (Got s, ep1) \<Rightarrow>
          if s = [] then (body, ep1)
          else if contains_sub (body @ s) last_chunk then (body @ s, ep1)
          else if body_limit < length (body @ s) then (body @ s, ep1)
          else read_chunks (body @ s) ep1
      | (_, ep1) \<Rightarrow> (body, ep1))"
  by pat_completeness auto

termination read_chunks
  by (relation "measure (\<lambda>(body, ep). pending (ep_reads ep))") (auto dest: read_some_measure)

declare read_chunks.simps [simp del]

text \<open>A body without a length: until the end or a pause.\<close>

function read_to_end :: "string \<Rightarrow> endpoint \<Rightarrow> string \<times> endpoint" where
  "read_to_end body ep =
     (case read_some True 8192 ep of
        (Got s, ep1) \<Rightarrow>
          if s = [] then (body, ep1)
          else if body_limit < length (body @ s) then (body @ s, ep1)
          else read_to_end (body @ s) ep1
      | (_, ep1) \<Rightarrow> (body, ep1))"
  by pat_completeness auto

termination read_to_end
  by (relation "measure (\<lambda>(body, ep). pending (ep_reads ep))") (auto dest: read_some_measure)

declare read_to_end.simps [simp del]

section \<open>Passing data on\<close>

text \<open>
  The rest of a body of known length is passed on to the client while it is read. The flag says if
  all writes went through.
\<close>

function forward_body ::
    "nat \<Rightarrow> string \<Rightarrow> endpoint \<Rightarrow> endpoint \<Rightarrow> metrics \<Rightarrow> bool \<times> string \<times> endpoint \<times> endpoint \<times> metrics" where
  "forward_body total_body body client server mx =
     (if total_body \<le> length body then (True, body, client, server, mx)
      else
        (case read_some False (min 8192 (total_body - length body)) server of
           (Got s, server1) \<Rightarrow>
             if s = [] then (True, body, client, server1, mx)
             else
               (case write_all s client of
                  (False, client1) \<Rightarrow> (False, body @ s, client1, server1, mx)
                | (True, client1) \<Rightarrow>
                    forward_body total_body (body @ s) client1 server1
                      (add_bytes_received (of_nat (length s)) mx))
         | (_, server1) \<Rightarrow> (True, body, client, server1, mx)))"
  by pat_completeness auto

termination forward_body
  by (relation "measure (\<lambda>(total_body, body, client, server, mx). pending (ep_reads server))")
    (auto dest: read_some_measure)

declare forward_body.simps [simp del]

datatype copy_error = CopyReadFailed | CopyWriteFailed

text \<open>
  The counted copy. Which of the two reads is served first, when both could be, is the \<open>schedule\<close>.
\<close>

function copy_with_metrics ::
    "(nat \<Rightarrow> bool) \<Rightarrow> nat \<Rightarrow> nat \<Rightarrow> nat \<Rightarrow> endpoint \<Rightarrow> endpoint \<Rightarrow> metrics
     \<Rightarrow> (copy_error, nat \<times> nat) outcome \<times> endpoint \<times> endpoint \<times> metrics" where
  "copy_with_metrics schedule i a_to_b b_to_a a b mx =
     (if schedule i then
        (case read_some False 32768 a of
           (Got s, a1) \<Rightarrow>
             if s = [] then (Ok (a_to_b, b_to_a), a1, b, mx)
             else
               (case write_all s b of
                  (True, b1) \<Rightarrow>
                    copy_with_metrics schedule (i + 1) (a_to_b + length s) b_to_a a1 b1
                      (add_bytes_sent (of_nat (length s)) mx)
                | (False, b1) \<Rightarrow> (Err CopyWriteFailed, a1, b1, add_bytes_sent (of_nat (length s)) mx))
         | (_, a1) \<Rightarrow> (Err CopyReadFailed, a1, b, mx))
      else
        (case read_some False 32768 b of
           (Got s, b1) \<Rightarrow>
             if s = [] then (Ok (a_to_b, b_to_a), a, b1, mx)
             else
               (case write_all s a of
                  (True, a1) \<Rightarrow>
                    copy_with_metrics schedule (i + 1) a_to_b (b_to_a + length s) a1 b1
                      (add_bytes_received (of_nat (length s)) mx)
                | (False, a1) \<Rightarrow> (Err CopyWriteFailed, a1, b1, add_bytes_received (of_nat (length s)) mx))
         | (_, b1) \<Rightarrow> (Err CopyReadFailed, a, b1, mx)))"
  by pat_completeness auto

lemma write_all_pending [dest]:
  "(ok, ep') = write_all s ep \<Longrightarrow> ep_reads ep' = ep_reads ep"
  by (metis snd_conv write_all_reads)

termination copy_with_metrics
  by (relation "measure (\<lambda>(schedule, i, a_to_b, b_to_a, a, b, mx). pending (ep_reads a) + pending (ep_reads b))")
    (auto dest!: read_some_measure write_all_pending)

declare copy_with_metrics.simps [simp del]

section \<open>What the loops keep\<close>

lemma read_some_Got:
  assumes "read_some timed n ep = (Got s, ep')" and "0 < n"
  shows "sent_bytes (ep_reads ep) = s @ (if s = [] then [] else sent_bytes (ep_reads ep'))"
  using read_some_next [OF assms(1)] assms(2)
  by (cases "s = []") (auto dest: next_read_sent next_read_end)

lemma read_some_Failed: "read_some False n ep = (ReadFailed, ep') \<Longrightarrow> sent_bytes (ep_reads ep) = []"
  using read_some_next next_read_failed by blast

lemma read_some_no_timeout [simp]: "read_some False n ep \<noteq> (ReadTimedOut, ep')"
  using read_some_next next_read_no_timeout by blast

lemma read_head_result:
  assumes "read_head timed n limit buf ep = (stop, buf', ep')"
  shows "(\<exists>s. buf' = buf @ s) \<and> ep_written ep' = ep_written ep \<and> ep_room ep' = ep_room ep
    \<and> (\<forall>pos. stop = HeaderAt pos \<longrightarrow> find_header_end buf' = Some pos)"
  using assms
proof (induction timed n limit buf ep rule: read_head.induct)
  case (1 timed n limit buf ep)
  obtain r ep1 where r: "read_some timed n ep = (r, ep1)"
    by (cases "read_some timed n ep")
  note ep1 = read_some_next [OF r]
  show ?case
  proof (cases r)
    case (Got s)
    show ?thesis
    proof (cases "s = [] \<or> find_header_end (buf @ s) \<noteq> None \<or> limit < length (buf @ s)")
      case True
      with 1(2) r Got ep1 show ?thesis
        by (subst (asm) read_head.simps) (auto split: if_splits option.splits)
    next
      case False
      with 1(2) r Got have "read_head timed n limit (buf @ s) ep1 = (stop, buf', ep')"
        by (subst (asm) read_head.simps) simp
      with 1(1) [OF r [symmetric] Got] False ep1 show ?thesis by auto
    qed
  next
    case ReadFailed
    with 1(2) r ep1 show ?thesis by (subst (asm) read_head.simps) auto
  next
    case ReadTimedOut
    with 1(2) r ep1 show ?thesis by (subst (asm) read_head.simps) auto
  qed
qed

lemma read_head_sent:
  assumes "read_head timed n limit buf ep = (stop, buf', ep')" and "0 < n"
  shows "\<exists>s rest. buf' = buf @ s \<and> sent_bytes (ep_reads ep) = s @ rest"
  using assms
proof (induction timed n limit buf ep rule: read_head.induct)
  case (1 timed n limit buf ep)
  obtain r ep1 where r: "read_some timed n ep = (r, ep1)"
    by (cases "read_some timed n ep")
  show ?case
  proof (cases "\<exists>s. r = Got s \<and> s \<noteq> []")
    case True
    then obtain s where s: "r = Got s" "s \<noteq> []" by blast
    have sent: "sent_bytes (ep_reads ep) = s @ sent_bytes (ep_reads ep1)"
      using read_some_Got [of timed n ep s ep1] r s 1(3) by simp
    show ?thesis
    proof (cases "find_header_end (buf @ s) \<noteq> None \<or> limit < length (buf @ s)")
      case True
      with 1(2) r s have "buf' = buf @ s"
        by (subst (asm) read_head.simps) (auto split: if_splits option.splits)
      with sent show ?thesis by blast
    next
      case False
      with 1(2) r s have "read_head timed n limit (buf @ s) ep1 = (stop, buf', ep')"
        by (subst (asm) read_head.simps) simp
      with 1(1) [OF r [symmetric] s] False 1(3) obtain t rest where
        "buf' = (buf @ s) @ t" "sent_bytes (ep_reads ep1) = t @ rest" by fastforce
      with sent show ?thesis by (intro exI [of _ "s @ t"] exI [of _ rest]) simp
    qed
  next
    case False
    with 1(2) r have "buf' = buf"
      by (subst (asm) read_head.simps) (auto split: wire_result.splits)
    then show ?thesis by simp
  qed
qed

lemma read_head_no_end:
  assumes "read_head timed n limit buf ep = (stop, buf', ep')" and "find_header_end buf = None"
    and "\<And>pos. stop \<noteq> HeaderAt pos"
  shows "find_header_end buf' = None"
  using assms
proof (induction timed n limit buf ep rule: read_head.induct)
  case (1 timed n limit buf ep)
  obtain r ep1 where r: "read_some timed n ep = (r, ep1)"
    by (cases "read_some timed n ep")
  show ?case
  proof (cases "\<exists>s. r = Got s \<and> s \<noteq> [] \<and> find_header_end (buf @ s) = None \<and> \<not> limit < length (buf @ s)")
    case True
    then obtain s where s: "r = Got s" "s \<noteq> []" "find_header_end (buf @ s) = None" "\<not> limit < length (buf @ s)"
      by blast
    with 1(2) r have "read_head timed n limit (buf @ s) ep1 = (stop, buf', ep')"
      by (subst (asm) read_head.simps) simp
    with 1(1) [OF r [symmetric] s] s(3) 1(4) show ?thesis by blast
  next
    case False
    with 1(2-4) r show ?thesis
      by (subst (asm) read_head.simps) (auto split: wire_result.splits if_splits option.splits)
  qed
qed

text \<open>The last read decides, so a header that is found has at most one buffer more than the limit.\<close>

lemma read_head_length:
  assumes "read_head timed n limit buf ep = (stop, buf', ep')" and "length buf \<le> limit"
  shows "length buf' \<le> limit + n"
  using assms
proof (induction timed n limit buf ep rule: read_head.induct)
  case (1 timed n limit buf ep)
  obtain r ep1 where r: "read_some timed n ep = (r, ep1)"
    by (cases "read_some timed n ep")
  show ?case
  proof (cases r)
    case (Got s)
    have len: "length s \<le> n"
      using read_some_next [OF r] next_read_length Got by blast
    show ?thesis
    proof (cases "s = [] \<or> find_header_end (buf @ s) \<noteq> None \<or> limit < length (buf @ s)")
      case True
      with 1(2,3) r Got len show ?thesis
        by (subst (asm) read_head.simps) (auto split: if_splits option.splits)
    next
      case False
      with 1(2) r Got have "read_head timed n limit (buf @ s) ep1 = (stop, buf', ep')"
        by (subst (asm) read_head.simps) simp
      with 1(1) [OF r [symmetric] Got] False show ?thesis by auto
    qed
  next
    case ReadFailed
    with 1(2,3) r show ?thesis by (subst (asm) read_head.simps) auto
  next
    case ReadTimedOut
    with 1(2,3) r show ?thesis by (subst (asm) read_head.simps) auto
  qed
qed

lemma forward_body_result:
  assumes "forward_body total_body body client server mx = (ok, body', client', server', mx')"
  shows "\<exists>s. body' = body @ s \<and> (length body \<le> total_body \<longrightarrow> length body' \<le> total_body)
    \<and> ep_reads client' = ep_reads client \<and> ep_written server' = ep_written server
    \<and> (ok \<longrightarrow> ep_written client' = ep_written client @ s
              \<and> mx' = add_bytes_received (of_nat (length s)) mx)"
  using assms
proof (induction total_body body client server mx rule: forward_body.induct)
  case (1 total_body body client server mx)
  show ?case
  proof (cases "total_body \<le> length body")
    case True
    with 1(2) show ?thesis by (subst (asm) forward_body.simps) (auto intro: exI [of _ "[]"])
  next
    case False
    obtain r server1 where r: "read_some False (min 8192 (total_body - length body)) server = (r, server1)"
      by (cases "read_some False (min 8192 (total_body - length body)) server")
    note srv = read_some_next [OF r]
    show ?thesis
    proof (cases "\<exists>s. r = Got s \<and> s \<noteq> []")
      case True
      then obtain s where s: "r = Got s" "s \<noteq> []" by blast
      have len: "length s \<le> total_body - length body"
        using srv next_read_length s(1) by fastforce
      obtain w client1 where w: "write_all s client = (w, client1)" by (cases "write_all s client")
      show ?thesis
      proof (cases w)
        case True
        then have wT: "w = True" by simp
        with 1(2) False r s w have
          rec: "forward_body total_body (body @ s) client1 server1 (add_bytes_received (of_nat (length s)) mx)
             = (ok, body', client', server', mx')"
          by (subst (asm) forward_body.simps) simp
        from 1(1) [OF False r [symmetric] s w [symmetric] wT rec] obtain t where
          t: "body' = (body @ s) @ t" "length (body @ s) \<le> total_body \<longrightarrow> length body' \<le> total_body"
            "ep_reads client' = ep_reads client1" "ep_written server' = ep_written server1"
            "ok \<longrightarrow> ep_written client' = ep_written client1 @ t
               \<and> mx' = add_bytes_received (of_nat (length t)) (add_bytes_received (of_nat (length s)) mx)"
          by blast
        have "ep_written client1 = ep_written client @ s" using w True write_all_ok by simp
        moreover have "ep_reads client1 = ep_reads client" using write_all_pending [OF w [symmetric]] .
        ultimately show ?thesis
          using t len srv by (intro exI [of _ "s @ t"]) (auto simp: add_bytes_received_add ac_simps)
      next
        case False
        with 1(2) \<open>\<not> total_body \<le> length body\<close> r s w have
          "ok = False" "body' = body @ s" "client' = client1" "server' = server1"
          by (subst (asm) forward_body.simps; simp)+
        with srv len write_all_pending [OF w [symmetric]] show ?thesis by auto
      qed
    next
      case none: False
      with 1(2) False r srv have "ok" "body' = body" "client' = client" "server' = server1" "mx' = mx"
        by (subst (asm) forward_body.simps; cases r; auto)+
      with srv show ?thesis by (auto intro: exI [of _ "[]"])
    qed
  qed
qed

lemma ex4I: "P w x y z \<Longrightarrow> \<exists>(w :: string) (x :: string) (y :: string) (z :: string). P w x y z"
  by blast

text \<open>
  A counted copy passes on a prefix of what each side sends and counts it. When it ends without an
  error, the side that was read last has sent everything, but the other need not have.
\<close>

lemma copy_result:
  assumes "copy_with_metrics schedule i p q a b mx = (out, a', b', mx')"
  shows "\<exists>xs ys xs' ys'. sent_bytes (ep_reads a) = xs @ xs' \<and> sent_bytes (ep_reads b) = ys @ ys'
     \<and> (\<forall>p' q'. out = Ok (p', q') \<longrightarrow> p' = p + length xs \<and> q' = q + length ys
           \<and> ep_written a' = ep_written a @ ys \<and> ep_written b' = ep_written b @ xs
           \<and> (xs' = [] \<or> ys' = []))
     \<and> mx' = add_bytes_sent (of_nat (length xs)) (add_bytes_received (of_nat (length ys)) mx)"
  using assms
proof (induction schedule i p q a b mx rule: copy_with_metrics.induct)
  case (1 schedule i p q a b mx)
  show ?case
  proof (cases "schedule i")
    case True
    obtain r a1 where r: "read_some False 32768 a = (r, a1)" by (cases "read_some False 32768 a")
    note a1 = read_some_next [OF r]
    show ?thesis
    proof (cases r)
      case (Got s)
      have sent: "sent_bytes (ep_reads a) = s @ (if s = [] then [] else sent_bytes (ep_reads a1))"
        using r Got by (intro read_some_Got) auto
      show ?thesis
      proof (cases "s = []")
        case True
        with 1(3) \<open>schedule i\<close> r Got have "out = Ok (p, q)" "a' = a1" "b' = b" "mx' = mx"
          by (subst (asm) copy_with_metrics.simps; simp)+
        with sent True a1 show ?thesis
          by (intro ex4I [of _ "[]" "[]" "[]" "sent_bytes (ep_reads b)"]) simp
      next
        case False
        obtain w b1 where w: "write_all s b = (w, b1)" by (cases "write_all s b")
        have b1: "ep_reads b1 = ep_reads b" using write_all_pending [OF w [symmetric]] .
        show ?thesis
        proof (cases w)
          case True
          then have wT: "w = True" by simp
          with 1(3) \<open>schedule i\<close> r Got False w have
            rec: "copy_with_metrics schedule (i + 1) (p + length s) q a1 b1 (add_bytes_sent (of_nat (length s)) mx)
              = (out, a', b', mx')"
            by (subst (asm) copy_with_metrics.simps) simp
          from 1(1) [OF \<open>schedule i\<close> r [symmetric] Got False w [symmetric] wT rec] obtain xs ys xs' ys' where
            h: "sent_bytes (ep_reads a1) = xs @ xs'" "sent_bytes (ep_reads b1) = ys @ ys'"
              "\<forall>p' q'. out = Ok (p', q') \<longrightarrow> p' = p + length s + length xs \<and> q' = q + length ys
                 \<and> ep_written a' = ep_written a1 @ ys \<and> ep_written b' = ep_written b1 @ xs
                 \<and> (xs' = [] \<or> ys' = [])"
              "mx' = add_bytes_sent (of_nat (length xs))
                 (add_bytes_received (of_nat (length ys)) (add_bytes_sent (of_nat (length s)) mx))"
            by blast
          have "ep_written b1 = ep_written b @ s" using w True write_all_ok by simp
          with h sent False a1 b1 show ?thesis
            by (intro ex4I [of _ "s @ xs" ys xs' ys'])
              (auto simp: add_bytes_commute [symmetric] add_bytes_sent_add ac_simps)
        next
          case wf: False
          with 1(3) \<open>schedule i\<close> r Got False w have
            "out = Err CopyWriteFailed" "mx' = add_bytes_sent (of_nat (length s)) mx"
            by (subst (asm) copy_with_metrics.simps; simp)+
          with sent False show ?thesis
            by (intro ex4I [of _ s "[]" "sent_bytes (ep_reads a1)" "sent_bytes (ep_reads b)"]) simp
        qed
      qed
    next
      case ReadFailed
      with 1(3) \<open>schedule i\<close> r have "out = Err CopyReadFailed" "mx' = mx"
        by (subst (asm) copy_with_metrics.simps; simp)+
      then show ?thesis
        by (intro ex4I [of _ "[]" "[]" "sent_bytes (ep_reads a)" "sent_bytes (ep_reads b)"]) simp
    next
      case ReadTimedOut
      with r show ?thesis by simp
    qed
  next
    case False
    obtain r b1 where r: "read_some False 32768 b = (r, b1)" by (cases "read_some False 32768 b")
    note b1 = read_some_next [OF r]
    show ?thesis
    proof (cases r)
      case (Got s)
      have sent: "sent_bytes (ep_reads b) = s @ (if s = [] then [] else sent_bytes (ep_reads b1))"
        using r Got by (intro read_some_Got) auto
      show ?thesis
      proof (cases "s = []")
        case True
        with 1(3) False r Got have "out = Ok (p, q)" "a' = a" "b' = b1" "mx' = mx"
          by (subst (asm) copy_with_metrics.simps; simp)+
        with sent True b1 show ?thesis
          by (intro ex4I [of _ "[]" "[]" "sent_bytes (ep_reads a)" "[]"]) simp
      next
        case ne: False
        obtain w a1 where w: "write_all s a = (w, a1)" by (cases "write_all s a")
        have a1: "ep_reads a1 = ep_reads a" using write_all_pending [OF w [symmetric]] .
        show ?thesis
        proof (cases w)
          case True
          then have wT: "w = True" by simp
          with 1(3) False r Got ne w have
            rec: "copy_with_metrics schedule (i + 1) p (q + length s) a1 b1 (add_bytes_received (of_nat (length s)) mx)
              = (out, a', b', mx')"
            by (subst (asm) copy_with_metrics.simps) simp
          from 1(2) [OF False r [symmetric] Got ne w [symmetric] wT rec] obtain xs ys xs' ys' where
            h: "sent_bytes (ep_reads a1) = xs @ xs'" "sent_bytes (ep_reads b1) = ys @ ys'"
              "\<forall>p' q'. out = Ok (p', q') \<longrightarrow> p' = p + length xs \<and> q' = q + length s + length ys
                 \<and> ep_written a' = ep_written a1 @ ys \<and> ep_written b' = ep_written b1 @ xs
                 \<and> (xs' = [] \<or> ys' = [])"
              "mx' = add_bytes_sent (of_nat (length xs))
                 (add_bytes_received (of_nat (length ys)) (add_bytes_received (of_nat (length s)) mx))"
            by blast
          have "ep_written a1 = ep_written a @ s" using w True write_all_ok by simp
          with h sent ne a1 b1 show ?thesis
            by (intro ex4I [of _ xs "s @ ys" xs' ys'])
              (auto simp: add_bytes_received_add ac_simps)
        next
          case wf: False
          with 1(3) False r Got ne w have
            "out = Err CopyWriteFailed" "mx' = add_bytes_received (of_nat (length s)) mx"
            by (subst (asm) copy_with_metrics.simps; simp)+
          with sent ne show ?thesis
            by (intro ex4I [of _ "[]" s "sent_bytes (ep_reads a)" "sent_bytes (ep_reads b1)"]) simp
        qed
      qed
    next
      case ReadFailed
      with 1(3) False r have "out = Err CopyReadFailed" "mx' = mx"
        by (subst (asm) copy_with_metrics.simps; simp)+
      then show ?thesis
        by (intro ex4I [of _ "[]" "[]" "sent_bytes (ep_reads a)" "sent_bytes (ep_reads b)"]) simp
    next
      case ReadTimedOut
      with r show ?thesis by simp
    qed
  qed
qed

text \<open>
  The counted copy between two connections: each side has been sent a prefix of the bytes that the
  other one sends, in order, and at least one of the two prefixes is everything when the copy ends
  without an error; the result and the counters of the proxy say exactly how many bytes they are.
\<close>

theorem counted_copy:
  assumes "copy_with_metrics schedule 0 0 0 a b mx = (out, a', b', mx')"
  shows "\<exists>xs ys xs' ys'. sent_bytes (ep_reads a) = xs @ xs' \<and> sent_bytes (ep_reads b) = ys @ ys'
     \<and> (\<forall>p q. out = Ok (p, q) \<longrightarrow> p = length xs \<and> q = length ys
           \<and> ep_written a' = ep_written a @ ys \<and> ep_written b' = ep_written b @ xs
           \<and> (xs' = [] \<or> ys' = []))
     \<and> mx' = add_bytes_sent (of_nat (length xs)) (add_bytes_received (of_nat (length ys)) mx)"
  using copy_result [OF assms] by simp

text \<open>
  The copy stops at the first end of either side: a client that closes its half of the connection
  after the request gets nothing of an answer that comes later.
\<close>

theorem half_close_ends_copy:
  "schedule i \<Longrightarrow> ep_reads a = [] \<Longrightarrow> copy_with_metrics schedule i p q a b mx = (Ok (p, q), a, b, mx)"
  by (subst copy_with_metrics.simps) (simp add: read_some_def)

lemma counted_copy_witness:
  "let a = \<lparr>ep_reads = [Arrived ''hello''], ep_written = [], ep_room = None\<rparr>;
       b = \<lparr>ep_reads = [Arrived ''ok''], ep_written = [], ep_room = None\<rparr>
   in \<exists>xs ys. ''hello'' = xs @ drop (length xs) ''hello'' \<and> ''ok'' = ys @ drop (length ys) ''ok''
        \<and> (\<exists>out a' b'. copy_with_metrics even 0 0 0 a b (metrics_new 0)
              = (out, a', b', add_bytes_sent (of_nat (length xs)) (add_bytes_received (of_nat (length ys)) (metrics_new 0))))"
proof -
  let ?a = "\<lparr>ep_reads = [Arrived ''hello''], ep_written = [], ep_room = None\<rparr>"
  let ?b = "\<lparr>ep_reads = [Arrived ''ok''], ep_written = [], ep_room = None\<rparr>"
  obtain out a' b' mx' where run: "copy_with_metrics even 0 0 0 ?a ?b (metrics_new 0) = (out, a', b', mx')"
    by (metis prod_cases4)
  from counted_copy [OF run] obtain xs ys xs' ys' where
    h: "sent_bytes (ep_reads ?a) = xs @ xs'" "sent_bytes (ep_reads ?b) = ys @ ys'"
      "mx' = add_bytes_sent (of_nat (length xs)) (add_bytes_received (of_nat (length ys)) (metrics_new 0))"
    by blast
  have "''hello'' = xs @ xs'" "''ok'' = ys @ ys'" using h(1,2) by simp_all
  then have "''hello'' = xs @ drop (length xs) ''hello''" "''ok'' = ys @ drop (length ys) ''ok''"
    by (metis append_eq_conv_conj)+
  with run h(3) show ?thesis unfolding Let_def by blast
qed

end
