(* ===== verification/Resource_Cache.thy ===== *)
theory Resource_Cache
  imports Http_Text Config "HOL-Library.Multiset"
begin

text \<open>
  The cache of static resources on disk (\<open>src/cache/resource_cache.rs\<close>). The files below the
  cache directory are a table from relative paths to contents, \<open>metadata.json\<close> is the table
  that was saved last. The SHA-256 hash is the parameter \<open>hash\<close>; times and sizes are 64-bit
  words, which wrap in a release build. A write may fail and leave the file untouched or torn;
  the deletion of a file fails only if it is not there. Tasks that an operation spawns are
  results, so that they can run at any later time.
\<close>

section \<open>What is cached\<close>

definition is_github_domain :: "string \<Rightarrow> bool" where
  "is_github_domain url =
     (let url_lower = to_lowercase url
      in list_ex (\<lambda>domain. contains_sub url_lower domain)
           [''githubusercontent.com'', ''githubassets.com'', ''avatars.githubusercontent.com'',
            ''objects.githubusercontent.com'', ''release-assets.githubusercontent.com'', ''github.com''])"

definition is_image_content_type :: "string \<Rightarrow> bool" where
  "is_image_content_type content_type = starts_with (to_lowercase content_type) ''image/''"

definition has_image_extension :: "string \<Rightarrow> bool" where
  "has_image_extension url =
     (let url_lower = to_lowercase url;
          path = (case find_sub url_lower ''?'' of
                    Some pos \<Rightarrow> take pos url_lower
                  | None \<Rightarrow>
                      (case find_sub url_lower ''#'' of
                         Some pos \<Rightarrow> take pos url_lower
                       | None \<Rightarrow> url_lower))
      in list_ex (\<lambda>ext. ends_with path ext)
           [''.png'', ''.jpg'', ''.jpeg'', ''.gif'', ''.webp'', ''.svg'', ''.ico'', ''.bmp'', ''.avif''])"

definition is_cacheable :: "string \<Rightarrow> string \<Rightarrow> bool" where
  "is_cacheable url content_type =
     (if \<not> is_github_domain url then False
      else if is_image_content_type content_type then True
      else has_image_extension url)"

definition is_cacheable_url :: "string \<Rightarrow> bool" where
  "is_cacheable_url url = (is_github_domain url \<and> has_image_extension url)"

section \<open>State\<close>

record cache_metadata =
  cm_url :: string
  cm_content_type :: string
  cm_etag :: "string option"
  cm_last_modified :: "string option"
  cm_created_at :: "64 word"
  cm_last_accessed :: "64 word"
  cm_file_size :: "64 word"
  cm_file_path :: string

record res_cache =
  rc_metadata :: "(string, cache_metadata) assoc"
  rc_config :: cache_config
  rc_dirty :: bool
  rc_files :: "(string, string) assoc"
  rc_saved :: "(string, cache_metadata) assoc option"

record cache_stats =
  cs_total_size :: "64 word"
  cs_file_count :: nat
  cs_oldest :: "64 word option"
  cs_newest :: "64 word option"

datatype write_result = Written | Untouched | Torn string

datatype cache_task = RemoveTask string | EvictTask

datatype cache_error = WriteFailed | SaveFailed

text \<open>What is on disk when the program starts: the files and the saved table, if it can be read.\<close>

definition rc_new :: "(string, string) assoc \<Rightarrow> (string, cache_metadata) assoc option \<Rightarrow> cache_config \<Rightarrow> res_cache" where
  "rc_new files saved config =
     \<lparr>rc_metadata = (case saved of None \<Rightarrow> [] | Some table \<Rightarrow> table), rc_config = config, rc_dirty = False,
      rc_files = files, rc_saved = saved\<rparr>"

definition get_file_path :: "string \<Rightarrow> string" where
  "get_file_path key = (if 2 \<le> length key then take 2 key @ ''/'' @ drop 2 key else key)"

definition ttl_seconds :: "res_cache \<Rightarrow> 64 word" where
  "ttl_seconds c = of_nat (xc_ttl_days (rc_config c)) * 24 * 3600"

text \<open>A torn \<open>metadata.json\<close> cannot be parsed when the program starts again.\<close>

definition save_metadata :: "write_result \<Rightarrow> res_cache \<Rightarrow> bool \<times> res_cache" where
  "save_metadata w c =
     (case w of
        Written \<Rightarrow> (True, c\<lparr>rc_saved := Some (rc_metadata c)\<rparr>)
      | Untouched \<Rightarrow> (False, c)
      | Torn part \<Rightarrow> (False, c\<lparr>rc_saved := None\<rparr>))"

section \<open>Operations\<close>

definition rc_get :: "(string \<Rightarrow> string) \<Rightarrow> 64 word \<Rightarrow> string \<Rightarrow> res_cache \<Rightarrow> cached_resource option \<times> cache_task list" where
  "rc_get hash now url c =
     (if \<not> xc_enabled (rc_config c) then (None, [])
      else
        let key = hash url
        in case map_of (rc_metadata c) key of
             None \<Rightarrow> (None, [])
           | Some metadata \<Rightarrow>
               if ttl_seconds c < now - cm_created_at metadata then (None, [RemoveTask key])
               else
                 (case map_of (rc_files c) (get_file_path key) of
                    None \<Rightarrow> (None, [RemoveTask key])
                  | Some data \<Rightarrow>
                      (Some \<lparr>cr_content_type = cm_content_type metadata, cr_data = data,
                         cr_etag = cm_etag metadata, cr_last_modified = cm_last_modified metadata\<rparr>, [])))"

definition write_file :: "write_result \<Rightarrow> string \<Rightarrow> string \<Rightarrow> (string, string) assoc \<Rightarrow> (string, string) assoc" where
  "write_file w path data files =
     (case w of
        Written \<Rightarrow> AList.update path data files
      | Untouched \<Rightarrow> files
      | Torn part \<Rightarrow> AList.update path part files)"

definition rc_put ::
    "(string \<Rightarrow> string) \<Rightarrow> 64 word \<Rightarrow> write_result \<Rightarrow> string \<Rightarrow> cached_resource \<Rightarrow> res_cache
     \<Rightarrow> (cache_error, cache_task list) outcome \<times> res_cache" where
  "rc_put hash now w url resource c =
     (if \<not> xc_enabled (rc_config c) then (Ok [], c)
      else if \<not> is_cacheable url (cr_content_type resource) then (Ok [], c)
      else
        let max_bytes = of_nat (xc_max_file_size_mb (rc_config c)) * 1024 * 1024 :: 64 word
        in if max_bytes < of_nat (length (cr_data resource)) then (Ok [], c)
           else
             let key = hash url;
                 file_path = get_file_path key;
                 c1 = c\<lparr>rc_files := write_file w file_path (cr_data resource) (rc_files c)\<rparr>
             in if w \<noteq> Written then (Err WriteFailed, c1)
                else
                  let metadata =
                    \<lparr>cm_url = url, cm_content_type = cr_content_type resource, cm_etag = cr_etag resource,
                     cm_last_modified = cr_last_modified resource, cm_created_at = now,
                     cm_last_accessed = now, cm_file_size = of_nat (length (cr_data resource)),
                     cm_file_path = file_path\<rparr>
                  in (Ok [EvictTask],
                      c1\<lparr>rc_metadata := AList.update key metadata (rc_metadata c), rc_dirty := True\<rparr>))"

text \<open>The deletion of a file, and if it was there.\<close>

definition remove_file :: "string \<Rightarrow> res_cache \<Rightarrow> bool \<times> res_cache" where
  "remove_file path c =
     (map_of (rc_files c) path \<noteq> None, c\<lparr>rc_files := AList.delete path (rc_files c)\<rparr>)"

definition remove_async_static :: "string \<Rightarrow> res_cache \<Rightarrow> res_cache" where
  "remove_async_static key c =
     (let c1 = snd (remove_file (get_file_path key) c)
      in c1\<lparr>rc_metadata := AList.delete key (rc_metadata c1)\<rparr>)"

definition rc_remove :: "(string \<Rightarrow> string) \<Rightarrow> string \<Rightarrow> res_cache \<Rightarrow> res_cache" where
  "rc_remove hash url c = remove_async_static (hash url) c"

fun clear_entries :: "(string \<times> string) list \<Rightarrow> nat \<Rightarrow> res_cache \<Rightarrow> nat \<times> res_cache" where
  "clear_entries [] cnt c = (cnt, c)"
| "clear_entries ((key, file_path) # entries) cnt c =
     (let (removed, c1) = remove_file file_path c
      in clear_entries entries (if removed then cnt + 1 else cnt)
           (c1\<lparr>rc_metadata := AList.delete key (rc_metadata c1)\<rparr>))"

definition rc_clear :: "write_result \<Rightarrow> res_cache \<Rightarrow> (cache_error, nat) outcome \<times> res_cache" where
  "rc_clear w c =
     (let entries = map (\<lambda>(k, m). (k, cm_file_path m)) (rc_metadata c);
          (cnt, c1) = clear_entries entries 0 c;
          (saved, c2) = save_metadata w c1
      in (if saved then Ok cnt else Err SaveFailed, c2))"

definition rc_clear_expired :: "64 word \<Rightarrow> write_result \<Rightarrow> res_cache \<Rightarrow> (cache_error, nat) outcome \<times> res_cache" where
  "rc_clear_expired now w c =
     (let expired = map (\<lambda>(k, m). (k, get_file_path k))
            (filter (\<lambda>(k, m). ttl_seconds c < now - cm_created_at m) (rc_metadata c));
          (cnt, c1) = clear_entries expired 0 c
      in if 0 < cnt then
           (let (saved, c2) = save_metadata w c1
            in (if saved then Ok cnt else Err SaveFailed, c2))
         else (Ok cnt, c1))"

definition total_size :: "(string, cache_metadata) assoc \<Rightarrow> 64 word" where
  "total_size table = sum_list (map (\<lambda>(k, m). cm_file_size m) table)"

definition rc_stats :: "res_cache \<Rightarrow> cache_stats" where
  "rc_stats c =
     (let created = map (\<lambda>(k, m). cm_created_at m) (rc_metadata c)
      in \<lparr>cs_total_size = total_size (rc_metadata c), cs_file_count = length (rc_metadata c),
          cs_oldest = (if created = [] then None else Some (Min (set created))),
          cs_newest = (if created = [] then None else Some (Max (set created)))\<rparr>)"

definition rc_flush :: "write_result \<Rightarrow> res_cache \<Rightarrow> (cache_error, unit) outcome \<times> res_cache" where
  "rc_flush w c =
     (if rc_dirty c then
        let (saved, c1) = save_metadata w c
        in if saved then (Ok (), c1\<lparr>rc_dirty := False\<rparr>) else (Err SaveFailed, c1)
      else (Ok (), c))"

text \<open>The loop of the eviction, oldest access first.\<close>

fun evict_entries :: "(string \<times> 64 word) list \<Rightarrow> 64 word \<Rightarrow> 64 word \<Rightarrow> nat \<Rightarrow> res_cache \<Rightarrow> nat \<times> res_cache" where
  "evict_entries [] target freed cnt c = (cnt, c)"
| "evict_entries ((key, sz) # entries) target freed cnt c =
     (if target \<le> freed then (cnt, c)
      else
        let (removed, c1) = remove_file (get_file_path key) c;
            c2 = c1\<lparr>rc_metadata := AList.delete key (rc_metadata c1)\<rparr>
        in if removed then evict_entries entries target (freed + sz) (cnt + 1) c2
           else evict_entries entries target freed cnt c2)"

definition eviction_order :: "(string, cache_metadata) assoc \<Rightarrow> (string, cache_metadata) assoc" where
  "eviction_order table = sort_key (\<lambda>(k, m). cm_last_accessed m) table"

definition evict_if_needed_static :: "write_result \<Rightarrow> res_cache \<Rightarrow> (cache_error, unit) outcome \<times> res_cache" where
  "evict_if_needed_static w c =
     (let max_bytes = of_nat (xc_max_size_mb (rc_config c)) * 1024 * 1024;
          current_size = total_size (rc_metadata c)
      in if current_size \<le> max_bytes then (Ok (), c)
         else
           let entries = map (\<lambda>(k, m). (k, cm_file_size m)) (eviction_order (rc_metadata c));
               (cnt, c1) = evict_entries entries (current_size - max_bytes) 0 0 c
           in if 0 < cnt then
                (let (saved, c2) = save_metadata w c1
                 in (if saved then Ok () else Err SaveFailed, c2))
              else (Ok (), c1))"

definition run_task :: "write_result \<Rightarrow> cache_task \<Rightarrow> res_cache \<Rightarrow> res_cache" where
  "run_task w t c =
     (case t of
        RemoveTask key \<Rightarrow> remove_async_static key c
      | EvictTask \<Rightarrow> snd (evict_if_needed_static w c))"

section \<open>Sequences of operations\<close>

text \<open>
  The operations that change the cache, as the program performs them one after another: the
  calls of the handler and of the maintenance, and the tasks they spawned, at any later time.
\<close>

datatype cache_op =
    OpPut "64 word" write_result string cached_resource
  | OpRemove string
  | OpClear write_result
  | OpExpire "64 word" write_result
  | OpFlush write_result
  | OpTask cache_task write_result

fun run_op :: "(string \<Rightarrow> string) \<Rightarrow> cache_op \<Rightarrow> res_cache \<Rightarrow> res_cache" where
  "run_op hash (OpPut now w url resource) c = snd (rc_put hash now w url resource c)"
| "run_op hash (OpRemove url) c = rc_remove hash url c"
| "run_op hash (OpClear w) c = snd (rc_clear w c)"
| "run_op hash (OpExpire now w) c = snd (rc_clear_expired now w c)"
| "run_op hash (OpFlush w) c = snd (rc_flush w c)"
| "run_op hash (OpTask t w) c = run_task w t c"

text \<open>What an operation stores, and the resource that was stored last for a URL.\<close>

definition accepts :: "cache_config \<Rightarrow> string \<Rightarrow> cached_resource \<Rightarrow> bool" where
  "accepts cfg url resource \<longleftrightarrow>
     xc_enabled cfg \<and> is_cacheable url (cr_content_type resource)
     \<and> of_nat (length (cr_data resource)) \<le> (of_nat (xc_max_file_size_mb cfg) * 1024 * 1024 :: 64 word)"

fun stored :: "cache_config \<Rightarrow> cache_op \<Rightarrow> (string \<times> cached_resource) option" where
  "stored cfg (OpPut now w url resource) =
     (if accepts cfg url resource \<and> w = Written then Some (url, resource) else None)"
| "stored cfg op = None"

definition latest_put :: "cache_config \<Rightarrow> string \<Rightarrow> cache_op list \<Rightarrow> cached_resource option" where
  "latest_put cfg url ops =
     fold (\<lambda>op acc. case stored cfg op of None \<Rightarrow> acc | Some (u, r) \<Rightarrow> if u = url then Some r else acc)
       ops None"

definition torn :: "cache_op \<Rightarrow> bool" where
  "torn op \<longleftrightarrow> (\<exists>now part url resource. op = OpPut now (Torn part) url resource)"

section \<open>Lemmas on the steps\<close>

lemma rc_put_unfold:
  "rc_put hash now w url resource c =
     (if accepts (rc_config c) url resource then
        let path = get_file_path (hash url);
            c1 = c\<lparr>rc_files := write_file w path (cr_data resource) (rc_files c)\<rparr>
        in if w \<noteq> Written then (Err WriteFailed, c1)
           else (Ok [EvictTask],
             c1\<lparr>rc_metadata := AList.update (hash url)
                   \<lparr>cm_url = url, cm_content_type = cr_content_type resource, cm_etag = cr_etag resource,
                    cm_last_modified = cr_last_modified resource, cm_created_at = now,
                    cm_last_accessed = now, cm_file_size = of_nat (length (cr_data resource)),
                    cm_file_path = path\<rparr> (rc_metadata c), rc_dirty := True\<rparr>)
      else (Ok [], c))"
  unfolding rc_put_def accepts_def Let_def by (auto simp: not_less)

text \<open>An operation that only deletes: the tables are restrictions of the tables before.\<close>

definition shrinks :: "res_cache \<Rightarrow> res_cache \<Rightarrow> bool" where
  "shrinks c' c \<longleftrightarrow>
     rc_config c' = rc_config c \<and> map_of (rc_metadata c') \<subseteq>\<^sub>m map_of (rc_metadata c)
     \<and> map_of (rc_files c') \<subseteq>\<^sub>m map_of (rc_files c)"

lemma shrinks_refl [simp]: "shrinks c c"
  by (simp add: shrinks_def)

lemma shrinks_trans [trans]: "shrinks c'' c' \<Longrightarrow> shrinks c' c \<Longrightarrow> shrinks c'' c"
  by (auto simp: shrinks_def intro: map_le_trans)

lemma delete_map_le [simp]: "map_of (AList.delete k xs) \<subseteq>\<^sub>m map_of xs"
  by (simp add: delete_conv' map_le_def)

lemma shrinks_drop_entry:
  "shrinks ((snd (remove_file path c))\<lparr>rc_metadata := AList.delete key (rc_metadata c)\<rparr>) c"
  by (simp add: shrinks_def remove_file_def)

lemma remove_async_shrinks: "shrinks (remove_async_static key c) c"
  unfolding remove_async_static_def Let_def
  by (simp add: shrinks_def remove_file_def)

lemma remove_file_parts [simp]:
  "rc_metadata (snd (remove_file path c)) = rc_metadata c"
  "rc_config (snd (remove_file path c)) = rc_config c"
  by (simp_all add: remove_file_def)

lemma clear_entries_shrinks: "shrinks (snd (clear_entries es n c)) c"
proof (induction es n c rule: clear_entries.induct)
  case (2 key file_path entries cnt c)
  obtain removed c1 where rm: "remove_file file_path c = (removed, c1)"
    by (cases "remove_file file_path c")
  have "shrinks (c1\<lparr>rc_metadata := AList.delete key (rc_metadata c1)\<rparr>) c"
    using shrinks_drop_entry [where path = file_path and c = c and key = key] remove_file_parts(1) [of file_path c] rm by simp
  with 2 [OF rm [symmetric] refl] show ?case
    by (auto simp: rm intro: shrinks_trans)
qed simp

lemma evict_entries_shrinks: "shrinks (snd (evict_entries es target freed n c)) c"
proof (induction es target freed n c rule: evict_entries.induct)
  case (2 key sz entries target freed cnt c)
  show ?case
  proof (cases "target \<le> freed")
    case False
    obtain removed c1 where rm: "remove_file (get_file_path key) c = (removed, c1)"
      by (cases "remove_file (get_file_path key) c")
    have first: "shrinks (c1\<lparr>rc_metadata := AList.delete key (rc_metadata c1)\<rparr>) c"
      using shrinks_drop_entry [where path = "get_file_path key" and c = c and key = key]
        remove_file_parts(1) [of "get_file_path key" c] rm by simp
    show ?thesis
    proof (cases removed)
      case True
      from 2(1) [OF False rm [symmetric] refl refl True] first show ?thesis
        using False True by (simp add: rm Let_def shrinks_trans)
    next
      case r: False
      from 2(2) [OF False rm [symmetric] refl refl r] first show ?thesis
        using False r by (simp add: rm Let_def shrinks_trans)
    qed
  qed simp
qed simp

lemma save_metadata_shrinks: "shrinks (snd (save_metadata w c)) c"
  by (cases w) (simp_all add: save_metadata_def shrinks_def)

lemma rc_clear_shrinks: "shrinks (snd (rc_clear w c)) c"
  unfolding rc_clear_def Let_def
  by (simp add: split_beta shrinks_trans [OF save_metadata_shrinks clear_entries_shrinks])

lemma rc_clear_expired_shrinks: "shrinks (snd (rc_clear_expired now w c)) c"
  unfolding rc_clear_expired_def Let_def
  by (simp add: split_beta clear_entries_shrinks
      shrinks_trans [OF save_metadata_shrinks clear_entries_shrinks])

lemma evict_shrinks: "shrinks (snd (evict_if_needed_static w c)) c"
  unfolding evict_if_needed_static_def Let_def
  by (simp add: split_beta evict_entries_shrinks
      shrinks_trans [OF save_metadata_shrinks evict_entries_shrinks])

lemma rc_flush_shrinks: "shrinks (snd (rc_flush w c)) c"
  by (cases w) (simp_all add: rc_flush_def save_metadata_def shrinks_def)

lemma run_task_shrinks: "shrinks (run_task w t c) c"
  by (cases t) (simp_all add: run_task_def remove_async_shrinks evict_shrinks)

lemma run_op_shrinks: "(\<And>now w url r. op \<noteq> OpPut now w url r) \<Longrightarrow> shrinks (run_op hash op c) c"
  by (cases op) (auto simp: rc_remove_def remove_async_shrinks rc_clear_shrinks
      rc_clear_expired_shrinks rc_flush_shrinks run_task_shrinks)

lemma run_op_config [simp]: "rc_config (run_op hash op c) = rc_config c"
proof (cases op)
  case (OpPut now w url r)
  then show ?thesis by (simp add: rc_put_unfold Let_def)
next
qed (use run_op_shrinks [of op hash c] in \<open>auto simp: shrinks_def\<close>)

section \<open>What the cache answers\<close>

lemma get_file_path_inj:
  "length k = 64 \<Longrightarrow> length k' = 64 \<Longrightarrow> get_file_path k = get_file_path k' \<longleftrightarrow> k = k'"
  by (auto simp: get_file_path_def) (metis append_take_drop_id)

text \<open>The entry of a URL, if there is one, is that of the resource \<open>acc\<close>.\<close>

definition entry_of :: "(string \<Rightarrow> string) \<Rightarrow> string \<Rightarrow> cached_resource option \<Rightarrow> res_cache \<Rightarrow> bool" where
  "entry_of hash url acc c \<longleftrightarrow>
     (\<forall>m. map_of (rc_metadata c) (hash url) = Some m \<longrightarrow>
        (\<exists>r. acc = Some r \<and> cm_content_type m = cr_content_type r \<and> cm_etag m = cr_etag r
           \<and> cm_last_modified m = cr_last_modified r
           \<and> (\<forall>d. map_of (rc_files c) (get_file_path (hash url)) = Some d \<longrightarrow> d = cr_data r)))"

lemma entry_of_shrinks: "shrinks c' c \<Longrightarrow> entry_of hash url acc c \<Longrightarrow> entry_of hash url acc c'"
  unfolding entry_of_def shrinks_def map_le_def by (metis domI)

lemma entry_of_step:
  assumes hash: "\<And>u. length (hash u) = 64" and whole: "\<not> torn op"
    and sep: "\<And>now w u r. op = OpPut now w u r \<Longrightarrow> hash u = hash url \<Longrightarrow> u = url"
    and before: "entry_of hash url acc c"
  shows "entry_of hash url
           (case stored (rc_config c) op of None \<Rightarrow> acc | Some (u, r) \<Rightarrow> if u = url then Some r else acc)
           (run_op hash op c)"
proof (cases op)
  case (OpPut now w u r)
  show ?thesis
  proof (cases "accepts (rc_config c) u r \<and> w = Written")
    case True
    show ?thesis
    proof (cases "u = url")
      case True
      with \<open>accepts (rc_config c) u r \<and> w = Written\<close> show ?thesis
        by (simp add: OpPut entry_of_def rc_put_unfold Let_def write_file_def update_conv')
    next
      case False
      with sep [OF OpPut] have key: "hash url \<noteq> hash u" by auto
      then have path: "get_file_path (hash url) \<noteq> get_file_path (hash u)"
        by (simp add: get_file_path_inj hash)
      with True False key before show ?thesis
        by (simp add: OpPut entry_of_def rc_put_unfold Let_def write_file_def update_conv')
    qed
  next
    case False
    with whole have "run_op hash op c = c"
      by (cases w) (auto simp: OpPut rc_put_unfold Let_def write_file_def torn_def)
    with False before show ?thesis by (auto simp: OpPut)
  qed
next
  case (OpRemove u)
  with before show ?thesis
    using entry_of_shrinks [OF remove_async_shrinks] by (simp add: rc_remove_def)
next
  case (OpClear w)
  with before show ?thesis
    using entry_of_shrinks [OF rc_clear_shrinks] by simp
next
  case (OpExpire now w)
  with before show ?thesis
    using entry_of_shrinks [OF rc_clear_expired_shrinks] by simp
next
  case (OpFlush w)
  with before show ?thesis
    using entry_of_shrinks [OF rc_flush_shrinks] by simp
next
  case (OpTask t w)
  with before show ?thesis
    using entry_of_shrinks [OF run_task_shrinks] by simp
qed

lemma run_ops_config [simp]: "rc_config (fold (run_op hash) ops c) = rc_config c"
  by (induction ops arbitrary: c) simp_all

lemma latest_put_snoc:
  "latest_put cfg url (ops @ [op]) =
     (case stored cfg op of None \<Rightarrow> latest_put cfg url ops
      | Some (u, r) \<Rightarrow> if u = url then Some r else latest_put cfg url ops)"
  unfolding latest_put_def by simp

lemma entry_of_run:
  assumes hash: "\<And>u. length (hash u) = 64" and whole: "\<forall>op\<in>set ops. \<not> torn op"
    and sep: "\<And>now w u r. OpPut now w u r \<in> set ops \<Longrightarrow> hash u = hash url \<Longrightarrow> u = url"
    and before: "entry_of hash url None c"
  shows "entry_of hash url (latest_put (rc_config c) url ops) (fold (run_op hash) ops c)"
  using whole sep
proof (induction ops rule: rev_induct)
  case Nil
  then show ?case using before by (simp add: latest_put_def)
next
  case (snoc op ops)
  have "entry_of hash url (latest_put (rc_config c) url ops) (fold (run_op hash) ops c)"
    using snoc.prems by (intro snoc.IH) auto
  moreover have "\<not> torn op" using snoc.prems(1) by simp
  moreover have "u = url" if "op = OpPut now w u r" "hash u = hash url" for now w u r
    using snoc.prems(2) [of now w u r] that by simp
  ultimately have "entry_of hash url
      (case stored (rc_config (fold (run_op hash) ops c)) op of
         None \<Rightarrow> latest_put (rc_config c) url ops
       | Some (u, r) \<Rightarrow> if u = url then Some r else latest_put (rc_config c) url ops)
      (run_op hash op (fold (run_op hash) ops c))"
    by (intro entry_of_step [OF hash])
  then show ?case by (simp add: latest_put_snoc)
qed

lemma rc_get_entry:
  assumes "entry_of hash url acc c" and "rc_get hash now url c = (Some r, ts)"
  shows "acc = Some r \<and> ts = []"
  using assms by (auto simp: rc_get_def entry_of_def Let_def split: if_splits option.splits)


text \<open>A sample hash and a sample trace.\<close>

definition pad_hash :: "string \<Rightarrow> string" where
  "pad_hash u = take 64 (u @ replicate 64 (CHR ''0''))"

definition avatar_url :: string where
  "avatar_url = ''https://github.com/a.png''"

abbreviation sample_image :: "string \<Rightarrow> cached_resource" where
  "sample_image data \<equiv>
     \<lparr>cr_content_type = ''image/png'', cr_data = data, cr_etag = None, cr_last_modified = None\<rparr>"

lemma pad_hash_length: "length (pad_hash u) = 64"
  by (simp add: pad_hash_def)

lemma sample_accepts: "accepts default_cache avatar_url (sample_image [c])"
  by code_simp


text \<open>
  A resource that the cache accepts and that was written completely is found again by the next run
  of the program: after the put and a successful flush, the program restarts from the files and the
  saved table, and a get within the time to live answers the same content type, bytes, ETag and
  modification date, without a task.
\<close>

theorem cache_survives_restart:
  assumes "accepts cfg url resource" and "rc_config c = cfg"
    and "now' - now \<le> ttl_seconds c"
    and "c' = run_op hash (OpFlush Written) (run_op hash (OpPut now Written url resource) c)"
  shows "rc_get hash now' url (rc_new (rc_files c') (rc_saved c') cfg) = (Some resource, [])"
proof -
  from assms(1) have "xc_enabled cfg" by (simp add: accepts_def)
  with assms show ?thesis
    by (simp add: rc_get_def rc_put_unfold Let_def rc_new_def rc_flush_def save_metadata_def
        write_file_def update_conv' ttl_seconds_def not_less)
qed

lemma cache_survives_restart_witness:
  "rc_get pad_hash 100 avatar_url
     (let c' = run_op pad_hash (OpFlush Written)
                 (run_op pad_hash (OpPut 40 Written avatar_url (sample_image ''a'')) (rc_new [] None default_cache))
      in rc_new (rc_files c') (rc_saved c') default_cache) = (Some (sample_image ''a''), [])"
  using cache_survives_restart [of default_cache avatar_url "sample_image ''a''" "rc_new [] None default_cache" 100 40
      "run_op pad_hash (OpFlush Written)
        (run_op pad_hash (OpPut 40 Written avatar_url (sample_image ''a'')) (rc_new [] None default_cache))" pad_hash]
    sample_accepts [of "CHR ''a''"]
  by (simp add: rc_new_def ttl_seconds_def default_cache_def Let_def)

section \<open>Eviction\<close>

text \<open>The size of a table without wrap-around.\<close>

definition table_bytes :: "(string \<times> cache_metadata) list \<Rightarrow> nat" where
  "table_bytes table = sum_list (map (\<lambda>(k, m). unat (cm_file_size m)) table)"

lemma table_bytes_simps [simp]:
  "table_bytes [] = 0" "table_bytes ((k, m) # table) = unat (cm_file_size m) + table_bytes table"
  by (simp_all add: table_bytes_def)

lemma table_bytes_sum: "table_bytes xs = sum_mset (image_mset (\<lambda>(k, m). unat (cm_file_size m)) (mset xs))"
  by (simp add: table_bytes_def flip: sum_mset_sum_list)

lemma table_bytes_mset: "mset xs = mset ys \<Longrightarrow> table_bytes xs = table_bytes ys"
  by (simp add: table_bytes_sum)

lemma total_size_simps [simp]:
  "total_size [] = 0" "total_size ((k, m) # table) = cm_file_size m + total_size table"
  by (simp_all add: total_size_def)

lemma unat_total_size: "table_bytes table < 2 ^ 64 \<Longrightarrow> unat (total_size table) = table_bytes table"
proof (induction table)
  case (Cons e table)
  obtain k m where e: "e = (k, m)" by (cases e)
  have "table_bytes table < 2 ^ 64" using Cons.prems by (simp only: e table_bytes_simps)
  then have "unat (cm_file_size m) + unat (total_size table) < 2 ^ LENGTH(64)"
    using Cons by (simp only: e table_bytes_simps) simp
  then have "unat (cm_file_size m + total_size table) = unat (cm_file_size m) + unat (total_size table)"
    by (simp only: unat_add_lem)
  with Cons.IH [OF \<open>table_bytes table < 2 ^ 64\<close>] show ?case
    by (simp only: e table_bytes_simps total_size_simps)
qed simp

lemma mset_delete_first:
  assumes "distinct (map fst ((k, m) # es))" and "mset table = mset ((k, m) # es)"
  shows "mset (AList.delete k table) = mset es"
proof -
  have "mset (AList.delete k table) = filter_mset (\<lambda>p. k \<noteq> fst p) (mset table)"
    by (simp add: AList.delete_eq mset_filter case_prod_unfold)
  also have "\<dots> = mset (filter (\<lambda>p. k \<noteq> fst p) es)"
    using assms(2) by (simp add: mset_filter)
  also have "filter (\<lambda>p. k \<noteq> fst p) es = es"
    using assms(1) by (intro filter_True) (auto simp: image_iff)
  finally show ?thesis .
qed

text \<open>
  The loop removes a prefix of its list, and stops only when the sizes of the prefix reach the
  target or the list is empty.
\<close>

definition sizes :: "(string \<times> cache_metadata) list \<Rightarrow> (string \<times> 64 word) list" where
  "sizes table = map (\<lambda>(k, m). (k, cm_file_size m)) table"

lemma sizes_simps [simp]:
  "sizes [] = []" "sizes ((k, m) # table) = (k, cm_file_size m) # sizes table"
  by (simp_all add: sizes_def)

definition on_disk :: "res_cache \<Rightarrow> (string \<times> cache_metadata) list \<Rightarrow> bool" where
  "on_disk c es \<longleftrightarrow> (\<forall>p\<in>set es. length (fst p) = 64 \<and> map_of (rc_files c) (get_file_path (fst p)) \<noteq> None)"

lemma on_disk_drop:
  assumes "on_disk c ((k, m) # es)" and "distinct (map fst ((k, m) # es))"
  shows "on_disk ((snd (remove_file (get_file_path k) c))\<lparr>rc_metadata := t\<rparr>) es"
proof -
  have "get_file_path (fst p) \<noteq> get_file_path k" if "p \<in> set es" for p
    using assms that by (subst get_file_path_inj) (auto simp: on_disk_def)
  with assms(1) show ?thesis
    by (simp add: on_disk_def remove_file_def delete_conv')
qed

lemma evict_entries_prefix:
  assumes "distinct (map fst es)" and "mset (rc_metadata c) = mset es"
    and "unat freed + table_bytes es < 2 ^ 64"
  shows "\<exists>k\<le>length es. mset (rc_metadata (snd (evict_entries (sizes es) target freed n c))) = mset (drop k es)
           \<and> (k = length es \<or> unat target \<le> unat freed + table_bytes (take k es))
           \<and> (on_disk c es \<longrightarrow> (\<forall>j<k. unat freed + table_bytes (take j es) < unat target))"
  using assms
proof (induction es arbitrary: freed n c)
  case Nil
  then show ?case by simp
next
  case (Cons e es)
  obtain key m where e: "e = (key, m)" by (cases e)
  show ?case
  proof (cases "target \<le> freed")
    case True
    then have "unat target \<le> unat freed" by (simp add: word_le_nat_alt)
    with True Cons.prems(2) show ?thesis by (intro exI [of _ 0]) (simp add: e)
  next
    case False
    then have less: "unat freed < unat target" by (simp add: word_le_nat_alt)
    let ?path = "get_file_path key"
    let ?c2 = "(snd (remove_file ?path c))\<lparr>rc_metadata := AList.delete key (rc_metadata c)\<rparr>"
    have table: "mset (rc_metadata ?c2) = mset es"
      using mset_delete_first [of key m es "rc_metadata c"] Cons.prems(1,2) by (simp add: e)
    have small: "unat freed + (unat (cm_file_size m) + table_bytes es) < 2 ^ 64"
      using Cons.prems(3) by (simp only: e table_bytes_simps)
    let ?freed = "if fst (remove_file ?path c) then freed + cm_file_size m else freed"
    have add: "unat (freed + cm_file_size m) = unat freed + unat (cm_file_size m)"
      by (subst unat_add_lem [THEN iffD1]) (use small in simp_all)
    have freed: "unat ?freed \<le> unat freed + unat (cm_file_size m)"
      by (simp add: add)
    with small have "unat ?freed + table_bytes es < 2 ^ 64" by linarith
    moreover have "distinct (map fst es)" using Cons.prems(1) by simp
    moreover define n' where "n' = (if fst (remove_file ?path c) then n + 1 else n)"
    ultimately obtain k where
      k: "k \<le> length es" "mset (rc_metadata (snd (evict_entries (sizes es) target ?freed n' ?c2))) = mset (drop k es)"
        "k = length es \<or> unat target \<le> unat ?freed + table_bytes (take k es)"
        "on_disk ?c2 es \<Longrightarrow> (\<forall>j<k. unat ?freed + table_bytes (take j es) < unat target)"
      using Cons.IH [of ?c2 ?freed n'] table by blast
    have step: "evict_entries (sizes (e # es)) target freed n c = evict_entries (sizes es) target ?freed n' ?c2"
      using False by (simp add: e n'_def Let_def split_beta)
    show ?thesis
    proof (intro exI [of _ "Suc k"] conjI impI allI)
      show "mset (rc_metadata (snd (evict_entries (sizes (e # es)) target freed n c))) = mset (drop (Suc k) (e # es))"
        using k(2) by (simp only: step drop_Suc_Cons)
      show "Suc k = length (e # es) \<or> unat target \<le> unat freed + table_bytes (take (Suc k) (e # es))"
        using k(3) freed by (auto simp: e)
      fix j assume disk: "on_disk c (e # es)" and j: "j < Suc k"
      from disk have "fst (remove_file ?path c)" by (simp add: e on_disk_def remove_file_def)
      then have f: "?freed = freed + cm_file_size m" by simp
      have "on_disk ?c2 es" using disk Cons.prems(1) by (intro on_disk_drop [of c key m es]) (simp_all add: e)
      from k(4) [OF this] have le: "\<forall>j<k. unat freed + unat (cm_file_size m) + table_bytes (take j es) < unat target"
        by (simp only: f add)
      show "unat freed + table_bytes (take j (e # es)) < unat target"
        using j le less by (cases j) (simp_all add: e add.assoc)
    qed (use k(1) in simp)
  qed
qed

lemma table_bytes_append [simp]: "table_bytes (xs @ ys) = table_bytes xs + table_bytes ys"
  by (simp add: table_bytes_def)

lemma table_bytes_split: "table_bytes (take k es) + table_bytes (drop k es) = table_bytes es"
  by (metis append_take_drop_id table_bytes_append)

lemma mset_eviction_order [simp]: "mset (eviction_order table) = mset table"
  by (simp add: eviction_order_def)

lemma eviction_order_sorted: "sorted (map (\<lambda>(k, m). cm_last_accessed m) (eviction_order table))"
  unfolding eviction_order_def by simp

lemma eviction_order_distinct:
  "distinct (map fst table) \<Longrightarrow> distinct (map fst (eviction_order table))"
  by (metis mset_eviction_order mset_eq_imp_distinct_iff mset_map)

lemma on_disk_cong: "mset xs = mset ys \<Longrightarrow> on_disk c xs \<longleftrightarrow> on_disk c ys"
  by (simp add: on_disk_def flip: set_mset_mset)

lemma save_metadata_table [simp]: "rc_metadata (snd (save_metadata w c)) = rc_metadata c"
  by (cases w) (simp_all add: save_metadata_def)

definition cache_limit :: "cache_config \<Rightarrow> 64 word" where
  "cache_limit cfg = of_nat (xc_max_size_mb cfg) * 1024 * 1024"

lemma evict_table:
  "rc_metadata (snd (evict_if_needed_static w c)) =
     (if total_size (rc_metadata c) \<le> cache_limit (rc_config c) then rc_metadata c
      else rc_metadata (snd (evict_entries (sizes (eviction_order (rc_metadata c)))
             (total_size (rc_metadata c) - cache_limit (rc_config c)) 0 0 c)))"
  unfolding evict_if_needed_static_def Let_def sizes_def cache_limit_def
  by (simp add: split_beta)

text \<open>
  Property C20.
  The eviction keeps the limit: when the sizes of the table do not add up to \<open>2 ^ 64\<close>, what is left
  of the table after the task is at most \<open>max_size_mb\<close> mebibytes, and it is the table without the \<open>k\<close>
  entries with the oldest access times. If all files of the table are on disk, no entry goes that
  need not go: with fewer removals the table would still exceed the limit.
\<close>

theorem eviction_keeps_limit:
  assumes "distinct (map fst (rc_metadata c))" and "table_bytes (rc_metadata c) < 2 ^ 64"
    and "order = eviction_order (rc_metadata c)" and "limit = cache_limit (rc_config c)"
    and "c' = snd (evict_if_needed_static w c)"
  shows "\<exists>k\<le>length order. mset (rc_metadata c') = mset (drop k order)
           \<and> table_bytes (rc_metadata c') \<le> unat limit
           \<and> (on_disk c (rc_metadata c) \<longrightarrow> (\<forall>j<k. unat limit < table_bytes (drop j order)))"
proof (cases "total_size (rc_metadata c) \<le> limit")
  case True
  then have "table_bytes (rc_metadata c) \<le> unat limit"
    using assms(2) by (simp add: word_le_nat_alt unat_total_size)
  with True assms show ?thesis by (intro exI [of _ 0]) (simp add: evict_table)
next
  case False
  let ?target = "total_size (rc_metadata c) - limit"
  have order: "mset order = mset (rc_metadata c)"
    by (simp only: assms(3) mset_eviction_order)
  then have bytes: "table_bytes order = table_bytes (rc_metadata c)"
    by (rule table_bytes_mset)
  have size: "unat (total_size (rc_metadata c)) = table_bytes order"
    unfolding bytes by (rule unat_total_size [OF assms(2)])
  from False have gt: "unat limit < table_bytes order"
    by (simp only: word_le_nat_alt size not_le)
  have target: "unat ?target = table_bytes order - unat limit"
    by (subst unat_sub) (use False in \<open>simp_all only: size linear not_le less_imp_le\<close>)
  have "\<exists>k\<le>length order. mset (rc_metadata (snd (evict_entries (sizes order) ?target 0 0 c))) = mset (drop k order)
           \<and> (k = length order \<or> unat ?target \<le> unat (0 :: 64 word) + table_bytes (take k order))
           \<and> (on_disk c order \<longrightarrow> (\<forall>j<k. unat (0 :: 64 word) + table_bytes (take j order) < unat ?target))"
  proof (rule evict_entries_prefix)
    show "distinct (map fst order)" using assms(1) by (simp only: assms(3) eviction_order_distinct)
    show "mset (rc_metadata c) = mset order" by (rule order [symmetric])
    show "unat (0 :: 64 word) + table_bytes order < 2 ^ 64" using assms(2) by (simp only: bytes unat_0 add_0)
  qed
  then obtain k where k: "k \<le> length order"
      "mset (rc_metadata (snd (evict_entries (sizes order) ?target 0 0 c))) = mset (drop k order)"
      "k = length order \<or> unat ?target \<le> table_bytes (take k order)"
      "on_disk c order \<longrightarrow> (\<forall>j<k. table_bytes (take j order) < unat ?target)"
    unfolding unat_0 add_0 by blast
  have c': "mset (rc_metadata c') = mset (drop k order)"
    using False k(2) by (simp only: assms(3-5) evict_table if_False)
  show ?thesis
  proof (intro exI [of _ k] conjI impI allI)
    have "table_bytes (rc_metadata c') = table_bytes (drop k order)"
      using c' by (rule table_bytes_mset)
    with k(3) table_bytes_split [of k order] gt show "table_bytes (rc_metadata c') \<le> unat limit"
      unfolding target by auto
    fix j assume disk: "on_disk c (rc_metadata c)" and j: "j < k"
    have "on_disk c order" using disk by (simp only: on_disk_cong [OF order])
    with k(4) j have "table_bytes (take j order) < unat ?target" by blast
    with table_bytes_split [of j order] show "unat limit < table_bytes (drop j order)"
      unfolding target by linarith
  qed (use k(1) c' in simp_all)
qed

lemma eviction_keeps_limit_witness:
  "let c = run_op pad_hash (OpPut 5 Written avatar_url (sample_image ''a''))
             (rc_new [] None (default_cache\<lparr>xc_max_size_mb := 0\<rparr>))
   in rc_metadata c \<noteq> [] \<and> on_disk c (rc_metadata c)
      \<and> rc_metadata (snd (evict_if_needed_static Written c)) = []"
proof -
  let ?c = "run_op pad_hash (OpPut 5 Written avatar_url (sample_image ''a''))
              (rc_new [] None (default_cache\<lparr>xc_max_size_mb := 0\<rparr>))"
  let ?e = "snd (evict_if_needed_static Written ?c)"
  have table: "distinct (map fst (rc_metadata ?c))" "table_bytes (rc_metadata ?c) = 1"
      "table_bytes (eviction_order (rc_metadata ?c)) = 1" "length (eviction_order (rc_metadata ?c)) = 1"
    by code_simp+
  have limit: "cache_limit (rc_config ?c) = 0" by code_simp
  have disk: "on_disk ?c (rc_metadata ?c)" and some: "rc_metadata ?c \<noteq> []" by code_simp+
  obtain k where "k \<le> 1" and left: "mset (rc_metadata ?e) = mset (drop k (eviction_order (rc_metadata ?c)))"
      and le: "table_bytes (rc_metadata ?e) \<le> unat (cache_limit (rc_config ?c))"
    using eviction_keeps_limit [OF table(1) _ refl refl refl, of Written] table by auto
  have "k \<noteq> 0"
  proof
    assume "k = 0"
    then have "table_bytes (rc_metadata ?e) = 1"
      using table(3) table_bytes_mset [OF left] by simp
    with le limit show False by simp
  qed
  with \<open>k \<le> 1\<close> table(4) have "drop k (eviction_order (rc_metadata ?c)) = []" by simp
  with left have "rc_metadata ?e = []" by simp
  with disk some show ?thesis by simp
qed

section \<open>Access times\<close>

text \<open>
  No operation moves an access time: it is the creation time for ever, so the eviction order
  \<open>last_accessed\<close> is the order in which the entries were stored.
\<close>

definition stamped :: "res_cache \<Rightarrow> bool" where
  "stamped c \<longleftrightarrow> (\<forall>k m. map_of (rc_metadata c) k = Some m \<longrightarrow> cm_last_accessed m = cm_created_at m)"

lemma stamped_shrinks: "shrinks c' c \<Longrightarrow> stamped c \<Longrightarrow> stamped c'"
  unfolding stamped_def shrinks_def map_le_def by (metis domI)

lemma stamped_step: "stamped c \<Longrightarrow> stamped (run_op hash op c)"
proof (cases op)
  case (OpPut now w url r)
  assume "stamped c"
  then show ?thesis
    by (simp add: OpPut rc_put_unfold Let_def stamped_def update_conv')
qed (use stamped_shrinks [OF run_op_shrinks] in \<open>blast\<close>)+

theorem access_times_never_move:
  "map_of (rc_metadata (fold (run_op hash) ops (rc_new files None cfg))) k = Some m
     \<Longrightarrow> cm_last_accessed m = cm_created_at m"
proof -
  have "stamped (fold (run_op hash) ops (rc_new files None cfg))"
    by (induction ops rule: rev_induct) (simp_all add: stamped_step, simp add: stamped_def rc_new_def)
  then show "map_of (rc_metadata (fold (run_op hash) ops (rc_new files None cfg))) k = Some m
     \<Longrightarrow> cm_last_accessed m = cm_created_at m"
    by (simp add: stamped_def)
qed

end

