(* ===== verification/Connection_Race.thy ===== *)
theory Connection_Race
  imports Ip_Filter
begin

text \<open>
  The race for a connection that \<open>run_happy_eyeballs\<close> (\<open>src/mitm/tls_origin.rs\<close>) and
  \<open>run_sni_happy_eyeballs\<close> (\<open>src/mitm/sni_spoof.rs\<close>) share. The attempts start one after the
  other, the second after 100 ms, each further one 50 ms after its predecessor; the loop takes
  whatever is ready first: a finished attempt or the timer. A step relation models the loop;
  when an attempt and the timer are ready at the same time, either may be taken, as
  \<open>tokio::select!\<close> does. An attempt is a duration and a result.
\<close>

section \<open>One attempt\<close>

text \<open>\<open>timeout(d, f)\<close> of a connect or a handshake: it is done, it fails, or it is late.\<close>

datatype net_outcome = Done | Failed | Late

text \<open>What one attempt meets in the network, and how long it takes in all.\<close>

record dial =
  di_tcp :: net_outcome
  di_tls :: net_outcome
  di_time :: nat

datatype connect_error = TcpTimeout | TcpFailed | BadServerName | TlsTimeout | TlsFailed | AllFailed nat

record upstream =
  up_ip :: ip_addr
  up_port :: nat
  up_name :: string
  up_verified :: bool

text \<open>
  The steps of an attempt: the TCP connection, the server name, the handshake. Which names
  \<open>ServerName::try_from\<close> takes is the parameter \<open>valid_name\<close>.
\<close>

definition tls_connect ::
    "(string \<Rightarrow> bool) \<Rightarrow> bool \<Rightarrow> string \<Rightarrow> ip_addr \<Rightarrow> dial \<Rightarrow> connect_error + upstream" where
  "tls_connect valid_name verified name ip d =
     (case di_tcp d of
        Late \<Rightarrow> Inl TcpTimeout
      | Failed \<Rightarrow> Inl TcpFailed
      | Done \<Rightarrow>
          if \<not> valid_name name then Inl BadServerName
          else case di_tls d of
                 Late \<Rightarrow> Inl TlsTimeout
               | Failed \<Rightarrow> Inl TlsFailed
               | Done \<Rightarrow> Inr \<lparr>up_ip = ip, up_port = 443, up_name = name, up_verified = verified\<rparr>)"

lemma tls_connect_Inr:
  "tls_connect valid_name verified name ip d = Inr s \<longleftrightarrow>
     di_tcp d = Done \<and> di_tls d = Done \<and> valid_name name \<and>
     s = \<lparr>up_ip = ip, up_port = 443, up_name = name, up_verified = verified\<rparr>"
  by (auto simp: tls_connect_def split: net_outcome.splits)

fun outcome_of :: "'e + 'a \<Rightarrow> ('e, 'a) outcome" where
  "outcome_of (Inl e) = Err e"
| "outcome_of (Inr a) = Ok a"

section \<open>The loop\<close>

definition HAPPY_EYEBALLS_INITIAL_DELAY :: nat where
  "HAPPY_EYEBALLS_INITIAL_DELAY = millis 100"

definition HAPPY_EYEBALLS_SUBSEQUENT_DELAY :: nat where
  "HAPPY_EYEBALLS_SUBSEQUENT_DELAY = millis 50"

text \<open>The pending attempts are pairs of the time they will finish and their number.\<close>

record race =
  ra_next :: nat
  ra_pending :: "(nat \<times> nat) list"
  ra_timer :: nat
  ra_more :: bool

datatype 's race_conf = Racing race | Finished "(connect_error, 's) outcome"

definition race_start :: "nat \<Rightarrow> (nat \<Rightarrow> nat) \<Rightarrow> race" where
  "race_start n dur =
     \<lparr>ra_next = 1, ra_pending = [(dur 0, 0)], ra_timer = HAPPY_EYEBALLS_INITIAL_DELAY, ra_more = (1 < n)\<rparr>"

definition start_next :: "nat \<Rightarrow> (nat \<Rightarrow> nat) \<Rightarrow> race \<Rightarrow> race" where
  "start_next n dur r =
     (let r' = r\<lparr>ra_pending := ra_pending r @ [(ra_timer r + dur (ra_next r), ra_next r)],
                 ra_next := ra_next r + 1\<rparr>
      in if ra_next r' < n then r'\<lparr>ra_timer := ra_timer r + HAPPY_EYEBALLS_SUBSEQUENT_DELAY\<rparr>
         else r'\<lparr>ra_more := False\<rparr>)"

text \<open>The attempt \<open>(t, i)\<close> is what the loop can take next.\<close>

definition ready :: "race \<Rightarrow> nat \<Rightarrow> nat \<Rightarrow> bool" where
  "ready r t i \<longleftrightarrow> (t, i) \<in> set (ra_pending r) \<and> (\<forall>(t', j) \<in> set (ra_pending r). t \<le> t') \<and>
     (ra_more r \<longrightarrow> t \<le> ra_timer r)"

definition timer_ready :: "race \<Rightarrow> bool" where
  "timer_ready r \<longleftrightarrow> ra_more r \<and> (\<forall>(t, j) \<in> set (ra_pending r). ra_timer r \<le> t)"

text \<open>
  The index of the next candidate out of range and a \<open>select!\<close> with no enabled branch are
  panics.
\<close>

inductive race_step ::
    "nat \<Rightarrow> (nat \<Rightarrow> nat) \<Rightarrow> (nat \<Rightarrow> connect_error + 's) \<Rightarrow> 's race_conf \<Rightarrow> 's race_conf \<Rightarrow> bool"
  for n dur res where
  attempt_wins: "ready r t i \<Longrightarrow> res i = Inr s \<Longrightarrow> race_step n dur res (Racing r) (Finished (Ok s))"
| attempt_fails: "ready r t i \<Longrightarrow> res i = Inl e \<Longrightarrow> ra_more r \<or> remove1 (t, i) (ra_pending r) \<noteq> [] \<Longrightarrow>
    race_step n dur res (Racing r) (Racing (r\<lparr>ra_pending := remove1 (t, i) (ra_pending r)\<rparr>))"
| last_fails: "ready r t i \<Longrightarrow> res i = Inl e \<Longrightarrow> \<not> ra_more r \<Longrightarrow> remove1 (t, i) (ra_pending r) = [] \<Longrightarrow>
    race_step n dur res (Racing r) (Finished (Err (AllFailed n)))"
| timer_starts: "timer_ready r \<Longrightarrow> ra_next r < n \<Longrightarrow>
    race_step n dur res (Racing r) (Racing (start_next n dur r))"
| timer_panics: "timer_ready r \<Longrightarrow> n \<le> ra_next r \<Longrightarrow> race_step n dur res (Racing r) (Finished Panic)"
| select_panics: "\<not> ra_more r \<Longrightarrow> ra_pending r = [] \<Longrightarrow> race_step n dur res (Racing r) (Finished Panic)"

inductive_simps race_step_Finished [simp]: "race_step n dur res (Finished out) c"

abbreviation race_steps ::
    "nat \<Rightarrow> (nat \<Rightarrow> nat) \<Rightarrow> (nat \<Rightarrow> connect_error + 's) \<Rightarrow> 's race_conf \<Rightarrow> 's race_conf \<Rightarrow> bool" where
  "race_steps n dur res \<equiv> (race_step n dur res)\<^sup>*\<^sup>*"

section \<open>What holds during a race\<close>

text \<open>When an attempt starts and when it is finished, if the race is still on.\<close>

fun start_time :: "nat \<Rightarrow> nat" where
  "start_time 0 = 0"
| "start_time (Suc k) = HAPPY_EYEBALLS_INITIAL_DELAY + k * HAPPY_EYEBALLS_SUBSEQUENT_DELAY"

definition finish_time :: "(nat \<Rightarrow> nat) \<Rightarrow> nat \<Rightarrow> nat" where
  "finish_time dur i = start_time i + dur i"

lemma start_time_mono: "i \<le> j \<Longrightarrow> start_time i \<le> start_time j"
  by (cases i; cases j) simp_all

definition race_inv :: "nat \<Rightarrow> (nat \<Rightarrow> nat) \<Rightarrow> (nat \<Rightarrow> connect_error + 's) \<Rightarrow> race \<Rightarrow> bool" where
  "race_inv n dur res r \<longleftrightarrow>
     0 < ra_next r \<and> ra_next r \<le> n \<and> ra_more r = (ra_next r < n) \<and>
     (ra_more r \<longrightarrow> ra_timer r = start_time (ra_next r)) \<and>
     (ra_more r \<or> ra_pending r \<noteq> []) \<and>
     distinct (map snd (ra_pending r)) \<and>
     (\<forall>(t, i) \<in> set (ra_pending r). i < ra_next r \<and> t = finish_time dur i) \<and>
     (\<forall>i < ra_next r. i \<notin> snd ` set (ra_pending r) \<longrightarrow> isl (res i))"

lemma race_inv_start: "0 < n \<Longrightarrow> race_inv n dur res (race_start n dur)"
  by (auto simp: race_inv_def race_start_def finish_time_def)

lemma race_inv_remove:
  assumes inv: "race_inv n dur res r" and "(t, i) \<in> set (ra_pending r)" and "isl (res i)"
    and "ra_more r \<or> remove1 (t, i) (ra_pending r) \<noteq> []"
  shows "race_inv n dur res (r\<lparr>ra_pending := remove1 (t, i) (ra_pending r)\<rparr>)"
proof -
  have dist: "distinct (map snd (ra_pending r))" using inv by (simp add: race_inv_def)
  then have dist': "distinct (ra_pending r)" by (simp add: distinct_map)
  have sets: "set (remove1 (t, i) (ra_pending r)) = set (ra_pending r) - {(t, i)}"
    using dist' by simp
  have "distinct (map snd (remove1 (t, i) (ra_pending r)))"
    using dist dist' unfolding distinct_map sets by (auto intro: inj_on_subset)
  moreover have "isl (res j)" if "j < ra_next r" "j \<notin> snd ` (set (ra_pending r) - {(t, i)})" for j
  proof (cases "j = i")
    case True
    then show ?thesis using assms(3) by simp
  next
    case False
    then have "j \<notin> snd ` set (ra_pending r)" using that(2) by force
    then show ?thesis using inv that(1) by (simp add: race_inv_def)
  qed
  ultimately show ?thesis
    using inv assms(4) sets unfolding race_inv_def by simp
qed

lemma race_inv_start_next:
  assumes "race_inv n dur res r" and "ra_more r"
  shows "race_inv n dur res (start_next n dur r)"
proof -
  obtain k where k: "ra_next r = Suc k" using assms(1) by (cases "ra_next r") (auto simp: race_inv_def)
  have new: "ra_next r \<notin> snd ` set (ra_pending r)" using assms(1) by (auto simp: race_inv_def)
  show ?thesis
    using assms new unfolding race_inv_def start_next_def Let_def
    by (auto simp: k finish_time_def less_Suc_eq)
qed

lemma race_inv_step:
  assumes "race_step n dur res (Racing r) (Racing r')" and "race_inv n dur res r"
  shows "race_inv n dur res r'"
  using assms(1)
proof (cases rule: race_step.cases)
  case (attempt_fails t i e)
  then show ?thesis using race_inv_remove [OF assms(2), of t i] by (simp add: ready_def)
next
  case timer_starts
  then show ?thesis using race_inv_start_next [OF assms(2)] by (simp add: timer_ready_def)
qed

text \<open>The first success in time, or the failure of all.\<close>

definition race_result_ok ::
    "nat \<Rightarrow> (nat \<Rightarrow> nat) \<Rightarrow> (nat \<Rightarrow> connect_error + 's) \<Rightarrow> (connect_error, 's) outcome \<Rightarrow> bool" where
  "race_result_ok n dur res out \<longleftrightarrow>
     (case out of
        Ok s \<Rightarrow> \<exists>i < n. res i = Inr s \<and>
          (\<forall>j < n. \<not> isl (res j) \<longrightarrow> finish_time dur i \<le> finish_time dur j)
      | Err e \<Rightarrow> e = AllFailed n \<and> (\<forall>i < n. isl (res i))
      | Panic \<Rightarrow> False)"

lemma race_step_finishes:
  assumes "race_step n dur res (Racing r) (Finished out)" and inv: "race_inv n dur res r"
  shows "race_result_ok n dur res out"
  using assms(1)
proof (cases rule: race_step.cases)
  case (attempt_wins t i s)
  then have ready: "ready r t i" by simp
  have i: "i < n" "t = finish_time dur i" using ready inv by (auto simp: ready_def race_inv_def)
  have "finish_time dur i \<le> finish_time dur j" if j: "j < n" "\<not> isl (res j)" for j
  proof (cases "j < ra_next r")
    case True
    then have "j \<in> snd ` set (ra_pending r)" using inv j by (auto simp: race_inv_def)
    then obtain t' where "(t', j) \<in> set (ra_pending r)" by force
    then show ?thesis using ready inv i by (fastforce simp: ready_def race_inv_def)
  next
    case False
    then have "ra_more r" using inv j by (simp add: race_inv_def)
    then have "t \<le> start_time (ra_next r)" using ready inv by (simp add: ready_def race_inv_def)
    also have "\<dots> \<le> start_time j" using False by (simp add: start_time_mono)
    finally show ?thesis using i by (simp add: finish_time_def)
  qed
  then show ?thesis using attempt_wins i by (auto simp: race_result_ok_def)
next
  case (last_fails t i e)
  then have one: "set (ra_pending r) \<subseteq> {(t, i)}"
    using in_set_remove1 [of _ "(t, i)" "ra_pending r"] by auto
  have "isl (res j)" if "j < n" for j
  proof (cases "j = i")
    case True
    then show ?thesis using last_fails by simp
  next
    case False
    then have "j \<notin> snd ` set (ra_pending r)" using one by auto
    then show ?thesis using that inv last_fails by (simp add: race_inv_def)
  qed
  then show ?thesis using last_fails by (simp add: race_result_ok_def)
next
  case timer_panics
  then show ?thesis using inv by (simp add: race_inv_def timer_ready_def)
next
  case select_panics
  then show ?thesis using inv by (simp add: race_inv_def)
qed

lemma race_steps_inv:
  assumes "race_steps n dur res (Racing r) c" and "race_inv n dur res r"
  shows "case c of Racing r' \<Rightarrow> race_inv n dur res r' | Finished out \<Rightarrow> race_result_ok n dur res out"
  using assms(1)
proof induction
  case base
  then show ?case using assms(2) by simp
next
  case (step b c)
  then obtain r' where b: "b = Racing r'" by (cases b) simp_all
  show ?case
    using step b race_inv_step [of n dur res r'] race_step_finishes [of n dur res r']
    by (cases c) simp_all
qed

lemma race_outcome_ok:
  assumes "0 < n" and "race_steps n dur res (Racing (race_start n dur)) (Finished out)"
  shows "race_result_ok n dur res out"
  using race_steps_inv [OF assms(2) race_inv_start [OF assms(1)]] by simp

section \<open>The race ends\<close>

text \<open>An attempt that is still to start counts twice: it will start and it will finish.\<close>

fun race_size :: "nat \<Rightarrow> 's race_conf \<Rightarrow> nat" where
  "race_size n (Racing r) = 2 * (n - ra_next r) + length (ra_pending r) + 1"
| "race_size n (Finished out) = 0"

lemma race_step_decreases:
  "race_step n dur res c c' \<Longrightarrow> race_size n c' < race_size n c"
proof (induction rule: race_step.induct)
  case (attempt_fails r t i e)
  then show ?case by (auto simp: ready_def length_remove1 dest: length_pos_if_in_set)
qed (auto simp: start_next_def Let_def)

lemma timer_progress:
  assumes "timer_ready r"
  shows "\<exists>c'. race_step n dur res (Racing r) c'"
proof (cases "ra_next r < n")
  case True
  show ?thesis by (rule exI) (rule timer_starts [OF assms True])
next
  case False
  then have "n \<le> ra_next r" by simp
  show ?thesis by (rule exI) (rule timer_panics [OF assms \<open>n \<le> ra_next r\<close>])
qed

lemma attempt_progress:
  assumes "ready r t i"
  shows "\<exists>c'. race_step n dur res (Racing r) c'"
proof (cases "res i")
  case (Inl e)
  show ?thesis
  proof (cases "ra_more r \<or> remove1 (t, i) (ra_pending r) \<noteq> []")
    case True
    show ?thesis by (rule exI) (rule attempt_fails [where r = r and res = res, OF assms Inl True])
  next
    case False
    then have "\<not> ra_more r" and "remove1 (t, i) (ra_pending r) = []" by simp_all
    from last_fails [where r = r and res = res, OF assms Inl this] show ?thesis by (rule exI)
  qed
next
  case (Inr s)
  show ?thesis by (rule exI) (rule attempt_wins [where r = r and res = res, OF assms Inr])
qed

lemma race_progress: "\<exists>c'. race_step n dur res (Racing r) c'"
proof (cases "ra_pending r = []")
  case True
  show ?thesis
  proof (cases "ra_more r")
    case True
    with \<open>ra_pending r = []\<close> have "timer_ready r" by (simp add: timer_ready_def)
    then show ?thesis by (rule timer_progress)
  next
    case False
    from select_panics [OF this True] show ?thesis by (rule exI)
  qed
next
  case False
  define t where "t = Min (fst ` set (ra_pending r))"
  have "t \<in> fst ` set (ra_pending r)" unfolding t_def using False by (intro Min_in) simp_all
  then obtain i where i: "(t, i) \<in> set (ra_pending r)" by force
  have least: "t \<le> t'" if "(t', j) \<in> set (ra_pending r)" for t' j
    using that unfolding t_def by (intro Min_le) force+
  show ?thesis
  proof (cases "ra_more r \<and> ra_timer r < t")
    case True
    then have "timer_ready r" using least by (fastforce simp: timer_ready_def)
    then show ?thesis by (rule timer_progress)
  next
    case False
    then have "ready r t i" using i least by (auto simp: ready_def)
    then show ?thesis by (rule attempt_progress)
  qed
qed

lemma race_bounded: "(race_step n dur res ^^ k) c c' \<Longrightarrow> race_size n c' + k \<le> race_size n c"
proof (induction k arbitrary: c')
  case (Suc k)
  then obtain b where "(race_step n dur res ^^ k) c b" and "race_step n dur res b c'" by auto
  then show ?case using Suc.IH [of b] race_step_decreases [of n dur res b c'] by simp
qed simp

lemma race_finishes: "\<exists>out. race_steps n dur res c (Finished out)"
proof (induction c rule: measure_induct_rule [of "race_size n"])
  case (less c)
  show ?case
  proof (cases c)
    case (Racing r)
    obtain c' where "race_step n dur res c c'" using race_progress Racing by blast
    then show ?thesis
      using less [of c'] race_step_decreases [of n dur res c c']
      by (meson converse_rtranclp_into_rtranclp)
  qed blast
qed

text \<open>
  Property C7. However the network behaves and whichever of two simultaneous events the loop
  takes, a race of at least one candidate never panics: it returns the connection of an attempt
  that succeeds, and no attempt that succeeds would be finished earlier; it returns an error
  only if every attempt has failed.
\<close>

theorem race_outcome:
  assumes "0 < n" and "race_steps n dur res (Racing (race_start n dur)) (Finished out)"
  shows "case out of
      Ok s \<Rightarrow> \<exists>i < n. res i = Inr s \<and>
        (\<forall>j < n. \<not> isl (res j) \<longrightarrow> start_time i + dur i \<le> start_time j + dur j)
    | Err e \<Rightarrow> e = AllFailed n \<and> (\<forall>i < n. isl (res i))
    | Panic \<Rightarrow> False"
  using race_outcome_ok [OF assms] unfolding race_result_ok_def finish_time_def .

text \<open>
  Property C21. Every run of the loop ends: after at most twice as many turns as there are
  candidates it has returned, before it can always go on, and some run to the end exists.
\<close>

theorem race_terminates:
  assumes "0 < n" and "(race_step n dur res ^^ k) (Racing (race_start n dur)) c"
  shows "k \<le> 2 * n \<and> (\<forall>r. c = Racing r \<longrightarrow> (\<exists>c'. race_step n dur res c c')) \<and>
    (\<exists>out. race_steps n dur res c (Finished out))"
proof -
  have "race_size n (Racing (race_start n dur)) = 2 * n" using assms(1) by (simp add: race_start_def)
  then have "k \<le> 2 * n" using race_bounded [OF assms(2)] by simp
  then show ?thesis using race_progress race_finishes by blast
qed

section \<open>A concrete race\<close>

text \<open>Two candidates: the first is late, the second starts after 100 ms and wins.\<close>

definition sample_res :: "nat \<Rightarrow> connect_error + upstream" where
  "sample_res i = (if i = 0 then Inl TcpTimeout
     else Inr \<lparr>up_ip = V4 140 82 121 3, up_port = 443, up_name = ''github.com'', up_verified = True\<rparr>)"

definition sample_dur :: "nat \<Rightarrow> nat" where
  "sample_dur i = (if i = 0 then secs 5 else millis 30)"

lemma sample_race_start:
  "race_step 2 sample_dur sample_res (Racing (race_start 2 sample_dur))
     (Racing (start_next 2 sample_dur (race_start 2 sample_dur)))"
  by (rule timer_starts)
    (simp_all add: timer_ready_def race_start_def HAPPY_EYEBALLS_INITIAL_DELAY_def sample_dur_def)

lemma sample_race_ends:
  "race_steps 2 sample_dur sample_res (Racing (race_start 2 sample_dur))
     (Finished (Ok \<lparr>up_ip = V4 140 82 121 3, up_port = 443, up_name = ''github.com'', up_verified = True\<rparr>))"
proof -
  have "race_step 2 sample_dur sample_res (Racing (start_next 2 sample_dur (race_start 2 sample_dur)))
     (Finished (Ok \<lparr>up_ip = V4 140 82 121 3, up_port = 443, up_name = ''github.com'', up_verified = True\<rparr>))"
    by (rule attempt_wins [where t = "millis 130" and i = 1])
      (simp_all add: ready_def start_next_def race_start_def HAPPY_EYEBALLS_INITIAL_DELAY_def
        sample_dur_def sample_res_def)
  with sample_race_start show ?thesis by (meson converse_rtranclp_into_rtranclp rtranclp.rtrancl_refl)
qed

theorem race_outcome_witness:
  "\<exists>i < 2. sample_res i = Inr \<lparr>up_ip = V4 140 82 121 3, up_port = 443, up_name = ''github.com'', up_verified = True\<rparr>"
  using race_outcome [OF _ sample_race_ends] by auto

theorem race_terminates_witness:
  "\<exists>out. race_steps 2 sample_dur sample_res (Racing (start_next 2 sample_dur (race_start 2 sample_dur))) (Finished out)"
proof -
  have "(race_step 2 sample_dur sample_res ^^ 1) (Racing (race_start 2 sample_dur))
      (Racing (start_next 2 sample_dur (race_start 2 sample_dur)))"
    using sample_race_start by auto
  then show ?thesis by (rule race_terminates [of 2, THEN conjunct2, THEN conjunct2, rotated]) simp
qed

end
