(* ===== verification/Sni_Stream.thy ===== *)
theory Sni_Stream
  imports Connection_Race Working_Ip_Store
begin

text \<open>
  The search for a spoofed connection (\<open>connect_stream\<close> of \<open>src/mitm/sni_spoof.rs\<close>): the
  addresses that worked before are tried at once, and when they take too long the addresses
  that the DoH servers send are tried as they arrive. What the stream of answers brings until
  it is closed is the parameter \<open>answers\<close>; when an attempt ends, when an answer arrives and
  when the two seconds are over is left open, so a step relation models the loop.
\<close>

section \<open>One attempt\<close>

text \<open>
  The certificate of the server is not checked (\<open>NoCertVerifier\<close>) and the name sent is the
  fake one.
\<close>

definition do_sni_connect ::
    "(string \<Rightarrow> bool) \<Rightarrow> string \<Rightarrow> ip_addr \<Rightarrow> dial \<Rightarrow> connect_error + upstream" where
  "do_sni_connect valid_name fake_sni ip d = tls_connect valid_name False fake_sni ip d"

section \<open>The loop\<close>

definition WORKING_IP_TRIAL_TIMEOUT :: nat where
  "WORKING_IP_TRIAL_TIMEOUT = secs 2"

record search =
  se_pending :: "(nat \<times> ip_addr) list"
  se_count :: nat
  se_seen :: "ip_addr list"
  se_dns_started :: bool
  se_dns_done :: bool
  se_answers :: "ip_addr list"

datatype stream_error = AllIpsFailed | NoDohIp

datatype 's search_conf = Searching search | Returned "(stream_error, 's \<times> ip_addr) outcome"

definition search_start :: "ip_addr list \<Rightarrow> ip_addr list \<Rightarrow> search" where
  "search_start working answers =
     \<lparr>se_pending = enumerate 0 working, se_count = length working, se_seen = working,
      se_dns_started = (working = []), se_dns_done = False, se_answers = answers\<rparr>"

text \<open>An answer of the DoH servers: a new address is tried, a known one is skipped.\<close>

definition take_answer :: "ip_addr \<Rightarrow> ip_addr list \<Rightarrow> search \<Rightarrow> search" where
  "take_answer ip rest q =
     (if ip \<in> set (se_seen q) then q\<lparr>se_answers := rest\<rparr>
      else q\<lparr>se_answers := rest, se_seen := ip # se_seen q,
             se_pending := se_pending q @ [(se_count q, ip)], se_count := se_count q + 1\<rparr>)"

text \<open>
  \<open>has_working\<close> tells if the deadline is set. The last rule is the \<open>else\<close> branch, which is
  taken when no other branch can be: no attempt is pending, the deadline does not count and
  the stream of answers has not started, is done or is closed.
\<close>

inductive search_step ::
    "bool \<Rightarrow> (nat \<Rightarrow> ip_addr \<Rightarrow> connect_error + 's) \<Rightarrow> 's search_conf \<Rightarrow> 's search_conf \<Rightarrow> bool"
  for has_working res where
  attempt_connects: "(k, ip) \<in> set (se_pending q) \<Longrightarrow> res k ip = Inr s \<Longrightarrow>
    search_step has_working res (Searching q) (Returned (Ok (s, ip)))"
| attempt_fails: "(k, ip) \<in> set (se_pending q) \<Longrightarrow> res k ip = Inl e \<Longrightarrow>
    pending' = remove1 (k, ip) (se_pending q) \<Longrightarrow> \<not> (se_dns_done q \<and> pending' = []) \<Longrightarrow>
    search_step has_working res (Searching q) (Searching (q\<lparr>se_pending := pending'\<rparr>))"
| last_attempt_fails: "(k, ip) \<in> set (se_pending q) \<Longrightarrow> res k ip = Inl e \<Longrightarrow>
    se_dns_done q \<Longrightarrow> remove1 (k, ip) (se_pending q) = [] \<Longrightarrow>
    search_step has_working res (Searching q) (Returned (Err AllIpsFailed))"
| trial_over: "has_working \<Longrightarrow> \<not> se_dns_started q \<Longrightarrow>
    search_step has_working res (Searching q) (Searching (q\<lparr>se_dns_started := True\<rparr>))"
| answer_arrives: "se_dns_started q \<Longrightarrow> \<not> se_dns_done q \<Longrightarrow> se_answers q = ip # rest \<Longrightarrow>
    search_step has_working res (Searching q) (Searching (take_answer ip rest q))"
| no_branch: "se_pending q = [] \<Longrightarrow> \<not> (has_working \<and> \<not> se_dns_started q) \<Longrightarrow>
    \<not> se_dns_started q \<or> se_dns_done q \<or> se_answers q = [] \<Longrightarrow>
    search_step has_working res (Searching q)
      (if se_dns_started q then
         if se_pending q = [] then Returned (Err NoDohIp) else Searching (q\<lparr>se_dns_done := True\<rparr>)
       else Searching q)"

inductive_simps search_step_Returned [simp]: "search_step has_working res (Returned out) c"

abbreviation search_steps ::
    "bool \<Rightarrow> (nat \<Rightarrow> ip_addr \<Rightarrow> connect_error + 's) \<Rightarrow> 's search_conf \<Rightarrow> 's search_conf \<Rightarrow> bool" where
  "search_steps has_working res \<equiv> (search_step has_working res)\<^sup>*\<^sup>*"

section \<open>What holds during the search\<close>

definition search_inv ::
    "ip_addr list \<Rightarrow> ip_addr list \<Rightarrow> (nat \<Rightarrow> ip_addr \<Rightarrow> connect_error + 's) \<Rightarrow> search \<Rightarrow> bool" where
  "search_inv working answers res q \<longleftrightarrow>
     \<not> se_dns_done q \<and> (se_dns_started q \<or> working \<noteq> []) \<and>
     set (se_seen q) \<union> set (se_answers q) = set working \<union> set answers \<and>
     snd ` set (se_pending q) \<subseteq> set (se_seen q) \<and>
     (\<forall>ip \<in> set (se_seen q). ip \<in> snd ` set (se_pending q) \<or> (\<exists>k. isl (res k ip)))"

lemma search_inv_start: "search_inv working answers res (search_start working answers)"
  by (simp add: search_inv_def search_start_def flip: set_map)

lemma search_inv_remove:
  assumes inv: "search_inv working answers res q" and "res k ip = Inl e"
    and "pending' = remove1 (k, ip) (se_pending q)"
  shows "search_inv working answers res (q\<lparr>se_pending := pending'\<rparr>)"
proof -
  have sub: "set pending' \<subseteq> set (se_pending q)" unfolding assms(3) by (rule set_remove1_subset)
  have "x \<in> snd ` set pending' \<or> (\<exists>k. isl (res k x))" if x: "x \<in> set (se_seen q)" for x
  proof -
    consider j where "(j, x) \<in> set (se_pending q)" "(j, x) \<noteq> (k, ip)" | "x = ip"
      | "\<exists>k. isl (res k x)"
      using inv x unfolding search_inv_def by fastforce
    then show ?thesis
    proof cases
      case 1
      then have "(j, x) \<in> set pending'" unfolding assms(3) using in_set_remove1 by metis
      then show ?thesis by force
    next
      case 2
      then show ?thesis using assms(2) by (metis sum.disc(1))
    qed simp
  qed
  moreover have "snd ` set pending' \<subseteq> set (se_seen q)"
    using inv image_mono [OF sub, of snd] unfolding search_inv_def by blast
  ultimately show ?thesis using inv unfolding search_inv_def by simp
qed

lemma search_inv_answer:
  assumes "search_inv working answers res q" and "se_answers q = ip # rest"
  shows "search_inv working answers res (take_answer ip rest q)"
proof -
  have "set (se_seen q) \<union> insert ip (set rest) = set working \<union> set answers"
    using assms unfolding search_inv_def by simp
  then show ?thesis
    using assms(1) unfolding search_inv_def take_answer_def by (auto simp: image_Un)
qed

lemma search_inv_step:
  assumes "search_step (working \<noteq> []) res (Searching q) (Searching q')"
    and inv: "search_inv working answers res q"
  shows "search_inv working answers res q'"
  using assms(1)
proof (cases rule: search_step.cases)
  case (attempt_fails k ip e pending')
  then show ?thesis using search_inv_remove [OF inv] by simp
next
  case trial_over
  then show ?thesis using inv by (simp add: search_inv_def)
next
  case (answer_arrives ip rest)
  then show ?thesis using search_inv_answer [OF inv] by simp
next
  case no_branch
  then show ?thesis using inv by (auto simp: search_inv_def split: if_splits)
qed

lemma search_step_returns:
  assumes "search_step (working \<noteq> []) res (Searching q) (Returned out)"
    and inv: "search_inv working answers res q"
  shows "case out of
      Ok (s, ip) \<Rightarrow> ip \<in> set working \<union> set answers \<and> (\<exists>k. res k ip = Inr s)
    | Err e \<Rightarrow> e = NoDohIp \<and> (\<forall>ip \<in> set working \<union> set answers. \<exists>k. isl (res k ip))
    | Panic \<Rightarrow> False"
  using assms(1)
proof (cases rule: search_step.cases)
  case (attempt_connects k ip s)
  then have "ip \<in> snd ` set (se_pending q)" by force
  then have "ip \<in> set working \<union> set answers" using inv unfolding search_inv_def by blast
  then show ?thesis using attempt_connects by auto
next
  case last_attempt_fails
  then show ?thesis using inv by (simp add: search_inv_def)
next
  case no_branch
  then show ?thesis using inv by (auto simp: search_inv_def split: if_splits)
qed

lemma search_steps_inv:
  assumes "search_steps (working \<noteq> []) res (Searching (search_start working answers)) c"
  shows "case c of
      Searching q \<Rightarrow> search_inv working answers res q
    | Returned out \<Rightarrow>
        (case out of
           Ok (s, ip) \<Rightarrow> ip \<in> set working \<union> set answers \<and> (\<exists>k. res k ip = Inr s)
         | Err e \<Rightarrow> e = NoDohIp \<and> (\<forall>ip \<in> set working \<union> set answers. \<exists>k. isl (res k ip))
         | Panic \<Rightarrow> False)"
  using assms
proof induction
  case base
  then show ?case by (simp add: search_inv_start)
next
  case (step b c)
  then obtain q where b: "b = Searching q" by (cases b) simp_all
  show ?case
    using step b search_inv_step [of working res q] search_step_returns [of working res q]
    by (cases c) simp_all
qed


section \<open>The search ends\<close>

fun search_size :: "'s search_conf \<Rightarrow> nat" where
  "search_size (Searching q) =
     2 * length (se_answers q) + length (se_pending q) + (if se_dns_started q then 1 else 2)"
| "search_size (Returned out) = 0"

lemma search_step_decreases:
  assumes "search_step (working \<noteq> []) res c c'" and "c = Searching q"
    and "search_inv working answers res q"
  shows "search_size c' < search_size c"
  using assms
proof (induction rule: search_step.induct)
  case (attempt_fails k ip p e pending')
  then show ?case by (auto simp: length_remove1 dest: length_pos_if_in_set)
qed (auto simp: take_answer_def search_inv_def)

lemma search_progress:
  assumes "search_inv working answers res q"
  shows "\<exists>c'. search_step (working \<noteq> []) res (Searching q) c'"
proof (cases "se_pending q")
  case (Cons p ps)
  then obtain k ip where p: "(k, ip) \<in> set (se_pending q)" by (cases p) auto
  show ?thesis
  proof (cases "res k ip")
    case (Inl e)
    have live: "\<not> (se_dns_done q \<and> remove1 (k, ip) (se_pending q) = [])"
      using assms by (simp add: search_inv_def)
    show ?thesis
      by (rule exI) (rule attempt_fails [where q = q and res = res, OF p Inl refl live])
  next
    case (Inr s)
    show ?thesis by (rule exI) (rule attempt_connects [where q = q and res = res, OF p Inr])
  qed
next
  case Nil
  consider "\<not> se_dns_started q" | ip rest where "se_dns_started q" "se_answers q = ip # rest"
    | "se_dns_started q" "se_answers q = []"
    by (cases "se_answers q") auto
  then show ?thesis
  proof cases
    case 1
    then have "working \<noteq> []" using assms by (simp add: search_inv_def)
    show ?thesis by (rule exI) (rule trial_over [where q = q, OF \<open>working \<noteq> []\<close> 1])
  next
    case 2
    have "\<not> se_dns_done q" using assms by (simp add: search_inv_def)
    show ?thesis by (rule exI) (rule answer_arrives [where q = q, OF 2(1) \<open>\<not> se_dns_done q\<close> 2(2)])
  next
    case 3
    then have idle: "\<not> (working \<noteq> [] \<and> \<not> se_dns_started q)"
      "\<not> se_dns_started q \<or> se_dns_done q \<or> se_answers q = []" by simp_all
    show ?thesis by (rule exI) (rule no_branch [where q = q, OF Nil idle])
  qed
qed

lemma search_bounded:
  assumes "(search_step (working \<noteq> []) res ^^ k) (Searching (search_start working answers)) c"
  shows "search_size c + k \<le> 2 * length answers + length working + 2"
  using assms
proof (induction k arbitrary: c)
  case 0
  then show ?case by (auto simp: search_start_def)
next
  case (Suc k)
  then obtain b where b: "(search_step (working \<noteq> []) res ^^ k) (Searching (search_start working answers)) b"
    and bc: "search_step (working \<noteq> []) res b c" by auto
  from b have reach: "search_steps (working \<noteq> []) res (Searching (search_start working answers)) b"
    by (rule relpowp_imp_rtranclp)
  obtain q where q: "b = Searching q" using bc by (cases b) simp_all
  have "search_inv working answers res q" using search_steps_inv [OF reach] q by simp
  from search_step_decreases [OF bc q this] Suc.IH [OF b] show ?case by simp
qed

text \<open>
  Property C22. The search ends: as long as it has not returned it can go on, and it does so at
  most twice per answer and once per address that worked before, and twice more.
\<close>

theorem stream_search_terminates:
  assumes "(search_step (working \<noteq> []) res ^^ k) (Searching (search_start working answers)) c"
  shows "k \<le> 2 * length answers + length working + 2 \<and>
    (\<forall>q. c = Searching q \<longrightarrow> (\<exists>c'. search_step (working \<noteq> []) res c c'))"
proof -
  have "search_inv working answers res q" if "c = Searching q" for q
    using search_steps_inv [OF relpowp_imp_rtranclp [OF assms]] that by simp
  then show ?thesis using search_bounded [OF assms] search_progress by fastforce
qed

section \<open>Learning from a success\<close>

text \<open>
  \<open>connect_stream\<close> as a whole: the addresses that worked come from the store, and a success is
  written back.
\<close>

inductive connect_stream ::
    "(string \<Rightarrow> bool) \<Rightarrow> (nat \<Rightarrow> dial) \<Rightarrow> ip_addr list \<Rightarrow> nat \<Rightarrow> string \<Rightarrow> string \<Rightarrow> ip_store
     \<Rightarrow> (stream_error, upstream) outcome \<Rightarrow> ip_store \<Rightarrow> bool"
  for valid_name dials answers now real_domain fake_sni store where
  connected: "search_steps (store_get store real_domain \<noteq> []) (\<lambda>k ip. do_sni_connect valid_name fake_sni ip (dials k))
       (Searching (search_start (store_get store real_domain) answers)) (Returned (Ok (s, ip))) \<Longrightarrow>
     connect_stream valid_name dials answers now real_domain fake_sni store (Ok s)
       (record_success now real_domain ip store)"
| not_connected: "search_steps (store_get store real_domain \<noteq> []) (\<lambda>k ip. do_sni_connect valid_name fake_sni ip (dials k))
       (Searching (search_start (store_get store real_domain) answers)) (Returned (Err e)) \<Longrightarrow>
     connect_stream valid_name dials answers now real_domain fake_sni store (Err e) store"
| panicked: "search_steps (store_get store real_domain \<noteq> []) (\<lambda>k ip. do_sni_connect valid_name fake_sni ip (dials k))
       (Searching (search_start (store_get store real_domain) answers)) (Returned Panic) \<Longrightarrow>
     connect_stream valid_name dials answers now real_domain fake_sni store Panic store"

text \<open>
  A spoofed connection leads to port 443 of an address of the store or of an answer,
  under the fake name and without a check of the certificate; its address is the first one the
  store offers for the domain from then on, and no other domain is touched.
\<close>

theorem success_is_remembered:
  assumes "connect_stream valid_name dials answers now real_domain fake_sni store (Ok s) store'"
  shows "up_ip s \<in> set (store_get store real_domain) \<union> set answers \<and>
    up_port s = 443 \<and> up_name s = fake_sni \<and> \<not> up_verified s \<and>
    hd (store_get store' real_domain) = up_ip s \<and>
    (\<forall>other. other \<noteq> real_domain \<longrightarrow> store_get store' other = store_get store other)"
  using assms
proof (cases rule: connect_stream.cases)
  case (connected ip)
  then have ip: "ip \<in> set (store_get store real_domain) \<union> set answers"
    and "\<exists>k. do_sni_connect valid_name fake_sni ip (dials k) = Inr s"
    using search_steps_inv by fastforce+
  then have s: "s = \<lparr>up_ip = ip, up_port = 443, up_name = fake_sni, up_verified = False\<rparr>"
    by (auto simp: do_sni_connect_def tls_connect_Inr)
  have "hd (store_get store' real_domain) = ip"
    by (simp add: connected(1) store_get_record MAX_IPS_PER_DOMAIN_def)
  with ip show ?thesis by (simp add: s connected(1) store_get_record)
qed

section \<open>A concrete search\<close>

text \<open>No address is known, the one answer connects.\<close>

definition up_dial :: dial where
  "up_dial = \<lparr>di_tcp = Done, di_tls = Done, di_time = 0\<rparr>"

lemma sample_search:
  "search_steps False (\<lambda>k ip. do_sni_connect (\<lambda>_. True) ''fake.com'' ip up_dial)
     (Searching (search_start [] [V4 1 2 3 4]))
     (Returned (Ok (\<lparr>up_ip = V4 1 2 3 4, up_port = 443, up_name = ''fake.com'', up_verified = False\<rparr>, V4 1 2 3 4)))"
proof -
  let ?res = "\<lambda>(k :: nat) ip. do_sni_connect (\<lambda>_. True) ''fake.com'' ip up_dial"
  let ?q = "take_answer (V4 1 2 3 4) [] (search_start [] [V4 1 2 3 4])"
  have "search_step False ?res (Searching (search_start [] [V4 1 2 3 4])) (Searching ?q)"
    by (rule answer_arrives) (simp_all add: search_start_def)
  moreover have "search_step False ?res (Searching ?q)
     (Returned (Ok (\<lparr>up_ip = V4 1 2 3 4, up_port = 443, up_name = ''fake.com'', up_verified = False\<rparr>, V4 1 2 3 4)))"
    by (rule attempt_connects [where k = 0])
      (simp_all add: take_answer_def search_start_def do_sni_connect_def tls_connect_def up_dial_def)
  ultimately show ?thesis by (meson converse_rtranclp_into_rtranclp rtranclp.rtrancl_refl)
qed


theorem stream_search_terminates_witness:
  "\<exists>c'. search_step False (\<lambda>k ip. do_sni_connect (\<lambda>_. True) ''fake.com'' ip up_dial)
     (Searching (search_start [] [V4 1 2 3 4])) c'"
proof -
  have "(search_step ([] \<noteq> ([] :: ip_addr list)) (\<lambda>k ip. do_sni_connect (\<lambda>_. True) ''fake.com'' ip up_dial) ^^ 0)
     (Searching (search_start [] [V4 1 2 3 4])) (Searching (search_start [] [V4 1 2 3 4]))" by simp
  from stream_search_terminates [OF this] show ?thesis by simp
qed

theorem success_is_remembered_witness:
  "\<exists>store'. connect_stream (\<lambda>_. True) (\<lambda>_. up_dial) [V4 1 2 3 4] 0 ''github.com'' ''fake.com'' (store_new 0 None)
     (Ok \<lparr>up_ip = V4 1 2 3 4, up_port = 443, up_name = ''fake.com'', up_verified = False\<rparr>) store' \<and>
     hd (store_get store' ''github.com'') = V4 1 2 3 4"
proof -
  have "connect_stream (\<lambda>_. True) (\<lambda>_. up_dial) [V4 1 2 3 4] 0 ''github.com'' ''fake.com'' (store_new 0 None)
     (Ok \<lparr>up_ip = V4 1 2 3 4, up_port = 443, up_name = ''fake.com'', up_verified = False\<rparr>)
     (record_success 0 ''github.com'' (V4 1 2 3 4) (store_new 0 None))"
    by (rule connected) (use sample_search in \<open>simp add: store_new_def store_get_def\<close>)
  with success_is_remembered [OF this] show ?thesis by auto
qed

end
