(* ===== verification/Tls_Origin.thy ===== *)
theory Tls_Origin
  imports Dns_Resolver Sni_Stream
begin

text \<open>
  Connections to the origin servers (\<open>src/mitm/tls_origin.rs\<close>) and the part of the spoofing
  connector (\<open>src/mitm/sni_spoof.rs\<close>) that goes through the resolver. Every way to connect first
  tries the candidates of the resolver and, when all fail, drops the cached answer and tries
  the addresses of the trusted international DoH servers; what differs is how a list of
  addresses is tried. What such a try returns is given by a function of the list, and the
  properties hold for every function that returns possible results of the race.
\<close>

section \<open>Trying a list of addresses\<close>

definition do_tls_connect ::
    "(string \<Rightarrow> bool) \<Rightarrow> string \<Rightarrow> ip_addr \<Rightarrow> dial \<Rightarrow> connect_error + upstream" where
  "do_tls_connect valid_name domain ip d = tls_connect valid_name True domain ip d"

definition try_tls_connect ::
    "(string \<Rightarrow> bool) \<Rightarrow> string \<Rightarrow> ip_addr \<Rightarrow> dial \<Rightarrow> connect_error + upstream" where
  "try_tls_connect valid_name domain ip d = tls_connect valid_name True domain ip d"

definition try_sni_connect ::
    "(string \<Rightarrow> bool) \<Rightarrow> string \<Rightarrow> ip_addr \<Rightarrow> dial \<Rightarrow> connect_error + upstream" where
  "try_sni_connect valid_name fake_sni ip d = tls_connect valid_name False fake_sni ip d"

text \<open>The \<open>i\<close>-th attempt meets \<open>dials i\<close>. The index of the first candidate panics on an empty list.\<close>

definition run_happy_eyeballs ::
    "(string \<Rightarrow> bool) \<Rightarrow> (nat \<Rightarrow> dial) \<Rightarrow> string \<Rightarrow> ip_addr list \<Rightarrow> (connect_error, upstream) outcome \<Rightarrow> bool" where
  "run_happy_eyeballs valid_name dials domain candidates out \<longleftrightarrow>
     (if length candidates = 1
      then out = outcome_of (try_tls_connect valid_name domain (candidates ! 0) (dials 0))
      else if candidates = [] then out = Panic
      else race_steps (length candidates) (\<lambda>i. di_time (dials i))
             (\<lambda>i. do_tls_connect valid_name domain (candidates ! i) (dials i))
             (Racing (race_start (length candidates) (\<lambda>i. di_time (dials i)))) (Finished out))"

definition run_sni_happy_eyeballs ::
    "(string \<Rightarrow> bool) \<Rightarrow> (nat \<Rightarrow> dial) \<Rightarrow> string \<Rightarrow> ip_addr list \<Rightarrow> (connect_error, upstream) outcome \<Rightarrow> bool" where
  "run_sni_happy_eyeballs valid_name dials fake_sni candidates out \<longleftrightarrow>
     (if length candidates = 1
      then out = outcome_of (try_sni_connect valid_name fake_sni (candidates ! 0) (dials 0))
      else if candidates = [] then out = Panic
      else race_steps (length candidates) (\<lambda>i. di_time (dials i))
             (\<lambda>i. do_sni_connect valid_name fake_sni (candidates ! i) (dials i))
             (Racing (race_start (length candidates) (\<lambda>i. di_time (dials i)))) (Finished out))"

text \<open>
  The TCP tunnel tries one address after the other. The error is the last one; on an empty list
  it is the general one.
\<close>

fun try_tcp_from ::
    "(nat \<Rightarrow> dial) \<Rightarrow> nat \<Rightarrow> nat \<Rightarrow> connect_error option \<Rightarrow> ip_addr list \<Rightarrow> connect_error + upstream" where
  "try_tcp_from dials port i last_err [] =
     Inl (case last_err of Some e \<Rightarrow> e | None \<Rightarrow> AllFailed 0)"
| "try_tcp_from dials port i last_err (ip # ips) =
     (case di_tcp (dials i) of
        Done \<Rightarrow> Inr \<lparr>up_ip = ip, up_port = port, up_name = [], up_verified = False\<rparr>
      | Failed \<Rightarrow> try_tcp_from dials port (i + 1) (Some TcpFailed) ips
      | Late \<Rightarrow> try_tcp_from dials port (i + 1) (Some TcpTimeout) ips)"

definition try_connect_tcp ::
    "(nat \<Rightarrow> dial) \<Rightarrow> nat \<Rightarrow> ip_addr list \<Rightarrow> (connect_error, upstream) outcome" where
  "try_connect_tcp dials port ips = outcome_of (try_tcp_from dials port 0 None ips)"

section \<open>What a try promises\<close>

text \<open>
  The contract of a way to try a list of addresses: \<open>good\<close> is what a connection it returns has;
  it does not panic on a list with an address, and it always has a result.
\<close>

locale connector =
  fixes tries :: "ip_addr list \<Rightarrow> (connect_error, upstream) outcome \<Rightarrow> bool"
    and good :: "upstream \<Rightarrow> bool"
  assumes tries_good: "tries ips (Ok s) \<Longrightarrow> up_ip s \<in> set ips \<and> good s"
    and tries_safe: "ips \<noteq> [] \<Longrightarrow> \<not> tries ips Panic"
    and tries_returns: "\<exists>out. tries ips out"

lemma race_connector:
  assumes "\<And>ip d s. attempt ip d = Inr s \<Longrightarrow> up_ip s = ip \<and> good s"
  shows "connector (\<lambda>ips out.
     if length ips = 1 then out = outcome_of (attempt (ips ! 0) (dials 0))
     else if ips = [] then out = Panic
     else race_steps (length ips) dur (\<lambda>i. attempt (ips ! i) (dials i))
            (Racing (race_start (length ips) dur)) (Finished out)) good"
    (is "connector ?tries good")
proof
  fix ips s
  assume tries: "?tries ips (Ok s)"
  then have ne: "ips \<noteq> []" by auto
  show "up_ip s \<in> set ips \<and> good s"
  proof (cases "length ips = 1")
    case True
    then have "attempt (ips ! 0) (dials 0) = Inr s"
      using tries by (cases "attempt (ips ! 0) (dials 0)") simp_all
    then show ?thesis using assms ne by simp
  next
    case False
    then have "race_steps (length ips) dur (\<lambda>i. attempt (ips ! i) (dials i))
        (Racing (race_start (length ips) dur)) (Finished (Ok s))" using tries ne by simp
    from race_outcome_ok [OF _ this] ne
    obtain i where "i < length ips" "attempt (ips ! i) (dials i) = Inr s"
      by (auto simp: race_result_ok_def)
    then show ?thesis using assms nth_mem by metis
  qed
next
  fix ips :: "ip_addr list"
  assume ne: "ips \<noteq> []"
  show "\<not> ?tries ips Panic"
  proof
    assume tries: "?tries ips Panic"
    have "outcome_of x \<noteq> Panic" for x :: "connect_error + upstream" by (cases x) simp_all
    then have "length ips \<noteq> 1" using tries by metis
    then have "race_steps (length ips) dur (\<lambda>i. attempt (ips ! i) (dials i))
        (Racing (race_start (length ips) dur)) (Finished Panic)" using tries ne by simp
    from race_outcome_ok [OF _ this] ne show False by (simp add: race_result_ok_def)
  qed
next
  fix ips
  show "\<exists>out. ?tries ips out"
  proof (cases "length ips = 1 \<or> ips = []")
    case True
    then show ?thesis by auto
  next
    case False
    then show ?thesis
      using race_finishes [of "length ips" dur "\<lambda>i. attempt (ips ! i) (dials i)"
          "Racing (race_start (length ips) dur)"] by simp
  qed
qed

lemma connector_any:
  assumes "\<And>dials. connector (tries dials) good"
  shows "connector (\<lambda>ips out. \<exists>dials. tries dials ips out) good"
  by unfold_locales
    (use connector.tries_good [OF assms] connector.tries_safe [OF assms]
      connector.tries_returns [OF assms] in blast)+

definition verified_for :: "string \<Rightarrow> upstream \<Rightarrow> bool" where
  "verified_for domain s \<longleftrightarrow> up_port s = 443 \<and> up_name s = domain \<and> up_verified s"

definition spoofed_as :: "string \<Rightarrow> upstream \<Rightarrow> bool" where
  "spoofed_as fake_sni s \<longleftrightarrow> up_port s = 443 \<and> up_name s = fake_sni \<and> \<not> up_verified s"

lemma tls_race_connector: "connector (run_happy_eyeballs valid_name dials domain) (verified_for domain)"
proof -
  have "run_happy_eyeballs valid_name dials domain = (\<lambda>ips out.
     if length ips = 1 then out = outcome_of (tls_connect valid_name True domain (ips ! 0) (dials 0))
     else if ips = [] then out = Panic
     else race_steps (length ips) (\<lambda>i. di_time (dials i))
            (\<lambda>i. tls_connect valid_name True domain (ips ! i) (dials i))
            (Racing (race_start (length ips) (\<lambda>i. di_time (dials i)))) (Finished out))"
    by (intro ext) (simp add: run_happy_eyeballs_def do_tls_connect_def try_tls_connect_def)
  then show "connector (run_happy_eyeballs valid_name dials domain) (verified_for domain)"
    by (elim ssubst) (rule race_connector, simp add: verified_for_def tls_connect_Inr)
qed

lemma sni_race_connector: "connector (run_sni_happy_eyeballs valid_name dials fake_sni) (spoofed_as fake_sni)"
proof -
  have "run_sni_happy_eyeballs valid_name dials fake_sni = (\<lambda>ips out.
     if length ips = 1 then out = outcome_of (tls_connect valid_name False fake_sni (ips ! 0) (dials 0))
     else if ips = [] then out = Panic
     else race_steps (length ips) (\<lambda>i. di_time (dials i))
            (\<lambda>i. tls_connect valid_name False fake_sni (ips ! i) (dials i))
            (Racing (race_start (length ips) (\<lambda>i. di_time (dials i)))) (Finished out))"
    by (intro ext) (simp add: run_sni_happy_eyeballs_def do_sni_connect_def try_sni_connect_def)
  then show "connector (run_sni_happy_eyeballs valid_name dials fake_sni) (spoofed_as fake_sni)"
    by (elim ssubst) (rule race_connector, simp add: spoofed_as_def tls_connect_Inr)
qed

lemma try_tcp_Inr:
  "try_tcp_from dials port i last_err ips = Inr s \<Longrightarrow> up_ip s \<in> set ips \<and> up_port s = port"
  by (induction dials port i last_err ips rule: try_tcp_from.induct)
    (auto split: net_outcome.splits option.splits)

lemma outcome_of_simps [simp]:
  "outcome_of x \<noteq> Panic" "Panic \<noteq> outcome_of x"
  "outcome_of x = Ok s \<longleftrightarrow> x = Inr s" "Ok s = outcome_of x \<longleftrightarrow> x = Inr s"
  by (cases x; auto)+

lemma tcp_connector: "connector (\<lambda>ips out. out = try_connect_tcp dials port ips) (\<lambda>s. up_port s = port)"
  by unfold_locales (auto simp: try_connect_tcp_def dest: try_tcp_Inr)

text \<open>The three ways to connect keep the contract, whatever the attempts meet.\<close>

interpretation tls: connector "\<lambda>ips out. \<exists>dials. run_happy_eyeballs valid_name dials domain ips out" "verified_for domain"
  for valid_name domain
  by (rule connector_any) (rule tls_race_connector)

interpretation sni: connector "\<lambda>ips out. \<exists>dials. run_sni_happy_eyeballs valid_name dials fake_sni ips out" "spoofed_as fake_sni"
  for valid_name fake_sni
  by (rule connector_any) (rule sni_race_connector)

interpretation tcp: connector "\<lambda>ips out. \<exists>dials. out = try_connect_tcp dials port ips" "\<lambda>s. up_port s = port"
  for port
  by (rule connector_any) (rule tcp_connector)

section \<open>Falling back to the international servers\<close>

datatype origin_error =
  ConnectFailed connect_error | NoCandidates | NoInternational | Unresolved resolver_error

record origin_env =
  oe_domestic :: resolver_env
  oe_international :: resolver_env
  oe_first :: "ip_addr list \<Rightarrow> (connect_error, upstream) outcome"
  oe_second :: "ip_addr list \<Rightarrow> (connect_error, upstream) outcome"

fun lift_connect :: "(connect_error, 'a) outcome \<Rightarrow> (origin_error, 'a) outcome" where
  "lift_connect (Ok a) = Ok a"
| "lift_connect (Err e) = Err (ConnectFailed e)"
| "lift_connect Panic = Panic"

text \<open>The second half of every way to connect.\<close>

definition retry_international ::
    "(string, 'l) lru_ops \<Rightarrow> origin_env \<Rightarrow> string \<Rightarrow> 'l dns_resolver
     \<Rightarrow> (origin_error, upstream) outcome \<times> 'l dns_resolver" where
  "retry_international ops env domain r =
     (case resolve_international ops (oe_international env) domain (resolver_invalidate ops domain r) of
        (Err e, r1) \<Rightarrow> (Err (Unresolved e), r1)
      | (Panic, r1) \<Rightarrow> (Panic, r1)
      | (Ok ips, r1) \<Rightarrow>
          if ips = [] then (Err NoInternational, r1)
          else (lift_connect (oe_second env ips), r1))"

definition try_then_retry ::
    "(string, 'l) lru_ops \<Rightarrow> origin_env \<Rightarrow> string \<Rightarrow> ip_addr list \<Rightarrow> 'l dns_resolver
     \<Rightarrow> (origin_error, upstream) outcome \<times> 'l dns_resolver" where
  "try_then_retry ops env domain ips r =
     (case oe_first env ips of
        Ok s \<Rightarrow> (Ok s, r)
      | Panic \<Rightarrow> (Panic, r)
      | Err e \<Rightarrow> retry_international ops env domain r)"

definition with_fallback ::
    "(string, 'l) lru_ops \<Rightarrow> origin_env \<Rightarrow> string \<Rightarrow> 'l dns_resolver
     \<Rightarrow> (origin_error, upstream) outcome \<times> 'l dns_resolver" where
  "with_fallback ops env domain r =
     (case get_candidates ops (oe_domestic env) domain r of
        (Ok candidates, r1) \<Rightarrow>
          if candidates = [] then (Err NoCandidates, r1)
          else try_then_retry ops env domain candidates r1
      | (Err e, r1) \<Rightarrow> (Err (Unresolved e), r1)
      | (Panic, r1) \<Rightarrow> (Panic, r1))"

text \<open>\<open>oe_first\<close> and \<open>oe_second\<close> are TLS races here.\<close>

definition connect_with_fallback ::
    "(string, 'l) lru_ops \<Rightarrow> origin_env \<Rightarrow> string \<Rightarrow> 'l dns_resolver
     \<Rightarrow> (origin_error, upstream) outcome \<times> 'l dns_resolver" where
  "connect_with_fallback ops env domain r = with_fallback ops env domain r"

definition connect_with_ips ::
    "(string, 'l) lru_ops \<Rightarrow> origin_env \<Rightarrow> string \<Rightarrow> ip_addr list \<Rightarrow> 'l dns_resolver
     \<Rightarrow> (origin_error, upstream) outcome \<times> 'l dns_resolver" where
  "connect_with_ips ops env domain ips r =
     (if ips = [] then connect_with_fallback ops env domain r
      else try_then_retry ops env domain ips r)"

text \<open>Here they are spoofed races.\<close>

definition sni_connect_with_fallback ::
    "(string, 'l) lru_ops \<Rightarrow> origin_env \<Rightarrow> string \<Rightarrow> 'l dns_resolver
     \<Rightarrow> (origin_error, upstream) outcome \<times> 'l dns_resolver" where
  "sni_connect_with_fallback ops env real_domain r = with_fallback ops env real_domain r"

text \<open>Here they are TCP connections, one address after the other.\<close>

definition connect_tcp_with_fallback ::
    "(string, 'l) lru_ops \<Rightarrow> resolver_env \<Rightarrow> resolver_env \<Rightarrow> (nat \<Rightarrow> dial) \<Rightarrow> (nat \<Rightarrow> dial)
     \<Rightarrow> string \<Rightarrow> nat \<Rightarrow> 'l dns_resolver \<Rightarrow> (origin_error, upstream) outcome \<times> 'l dns_resolver" where
  "connect_tcp_with_fallback ops domestic international dials dials' domain port r =
     with_fallback ops
       \<lparr>oe_domestic = domestic, oe_international = international,
        oe_first = try_connect_tcp dials port, oe_second = try_connect_tcp dials' port\<rparr> domain r"

text \<open>The plain connections to the best address.\<close>

definition origin_connect ::
    "(string, 'l) lru_ops \<Rightarrow> (string \<Rightarrow> bool) \<Rightarrow> resolver_env \<Rightarrow> (ip_addr \<Rightarrow> dial) \<Rightarrow> string
     \<Rightarrow> 'l dns_resolver \<Rightarrow> (origin_error, upstream) outcome \<times> 'l dns_resolver" where
  "origin_connect ops valid_name env dials domain r =
     (case resolve_best ops env domain r of
        (Ok ip, r1) \<Rightarrow> (lift_connect (outcome_of (tls_connect valid_name True domain ip (dials ip))), r1)
      | (Err e, r1) \<Rightarrow> (Err (Unresolved e), r1)
      | (Panic, r1) \<Rightarrow> (Panic, r1))"

definition sni_connect ::
    "(string, 'l) lru_ops \<Rightarrow> (string \<Rightarrow> bool) \<Rightarrow> resolver_env \<Rightarrow> (ip_addr \<Rightarrow> dial) \<Rightarrow> string \<Rightarrow> string
     \<Rightarrow> 'l dns_resolver \<Rightarrow> (origin_error, upstream) outcome \<times> 'l dns_resolver" where
  "sni_connect ops valid_name env dials real_domain fake_sni r =
     (case resolve_best ops env real_domain r of
        (Ok ip, r1) \<Rightarrow> (lift_connect (outcome_of (tls_connect valid_name False fake_sni ip (dials ip))), r1)
      | (Err e, r1) \<Rightarrow> (Err (Unresolved e), r1)
      | (Panic, r1) \<Rightarrow> (Panic, r1))"

section \<open>What the connections promise\<close>

lemma lift_connect_simps [simp]:
  "lift_connect x = Ok s \<longleftrightarrow> x = Ok s" "lift_connect x = Panic \<longleftrightarrow> x = Panic"
  by (cases x; simp)+

definition env_tries :: "(ip_addr list \<Rightarrow> (connect_error, upstream) outcome \<Rightarrow> bool) \<Rightarrow> origin_env \<Rightarrow> bool" where
  "env_tries tries env \<longleftrightarrow>
     (\<forall>ips. tries ips (oe_first env ips)) \<and> (\<forall>ips. tries ips (oe_second env ips))"

context connector
begin

lemma second_ok:
  assumes "env_tries tries env" and "ips \<noteq> []"
  shows "oe_second env ips = Ok s \<Longrightarrow> good s" and "oe_second env ips \<noteq> Panic"
proof -
  have t: "tries ips (oe_second env ips)" using assms(1) by (simp add: env_tries_def)
  then show "oe_second env ips = Ok s \<Longrightarrow> good s" using tries_good by metis
  show "oe_second env ips \<noteq> Panic" using t tries_safe [OF assms(2)] by metis
qed

lemma first_ok:
  assumes "env_tries tries env" and "ips \<noteq> []"
  shows "oe_first env ips = Ok s \<Longrightarrow> good s" and "oe_first env ips \<noteq> Panic"
proof -
  have t: "tries ips (oe_first env ips)" using assms(1) by (simp add: env_tries_def)
  then show "oe_first env ips = Ok s \<Longrightarrow> good s" using tries_good by metis
  show "oe_first env ips \<noteq> Panic" using t tries_safe [OF assms(2)] by metis
qed

lemma retry_ok:
  assumes "env_tries tries env"
  shows "fst (retry_international ops env domain r) = Ok s \<Longrightarrow> good s"
    and "fst (retry_international ops env domain r) = Panic \<Longrightarrow>
      fst (resolve_international ops (oe_international env) domain (resolver_invalidate ops domain r)) = Panic"
proof -
  obtain found r1 where i: "resolve_international ops (oe_international env) domain
      (resolver_invalidate ops domain r) = (found, r1)" by fastforce
  show "fst (retry_international ops env domain r) = Ok s \<Longrightarrow> good s"
    using second_ok(1) [OF assms] i
    by (cases found) (auto simp: retry_international_def split: if_splits)
  show "fst (retry_international ops env domain r) = Panic \<Longrightarrow>
      fst (resolve_international ops (oe_international env) domain (resolver_invalidate ops domain r)) = Panic"
    using second_ok(2) [OF assms] i
    by (cases found) (auto simp: retry_international_def split: if_splits)
qed

lemma try_then_retry_ok:
  assumes "env_tries tries env" and "ips \<noteq> []"
  shows "fst (try_then_retry ops env domain ips r) = Ok s \<Longrightarrow> good s"
    and "fst (try_then_retry ops env domain ips r) = Panic \<Longrightarrow>
      fst (resolve_international ops (oe_international env) domain (resolver_invalidate ops domain r)) = Panic"
proof -
  show "fst (try_then_retry ops env domain ips r) = Ok s \<Longrightarrow> good s"
    using first_ok(1) [OF assms] retry_ok(1) [OF assms(1)]
    by (cases "oe_first env ips") (auto simp: try_then_retry_def)
  show "fst (try_then_retry ops env domain ips r) = Panic \<Longrightarrow>
      fst (resolve_international ops (oe_international env) domain (resolver_invalidate ops domain r)) = Panic"
    using first_ok(2) [OF assms] retry_ok(2) [OF assms(1)]
    by (cases "oe_first env ips") (auto simp: try_then_retry_def)
qed

lemma with_fallback_ok:
  assumes "env_tries tries env"
  shows "fst (with_fallback ops env domain r) = Ok s \<Longrightarrow> good s"
    and "fst (with_fallback ops env domain r) = Panic \<Longrightarrow>
      fst (get_candidates ops (oe_domestic env) domain r) = Panic \<or>
      (\<exists>r'. fst (resolve_international ops (oe_international env) domain r') = Panic)"
proof -
  obtain found r1 where c: "get_candidates ops (oe_domestic env) domain r = (found, r1)" by fastforce
  show "fst (with_fallback ops env domain r) = Ok s \<Longrightarrow> good s"
    using try_then_retry_ok(1) [OF assms] c
    by (cases found) (auto simp: with_fallback_def split: if_splits)
  show "fst (with_fallback ops env domain r) = Panic \<Longrightarrow>
      fst (get_candidates ops (oe_domestic env) domain r) = Panic \<or>
      (\<exists>r'. fst (resolve_international ops (oe_international env) domain r') = Panic)"
  proof (cases found)
    case (Ok ips)
    assume "fst (with_fallback ops env domain r) = Panic"
    then have "ips \<noteq> []" and "fst (try_then_retry ops env domain ips r1) = Panic"
      using Ok c by (auto simp: with_fallback_def split: if_splits)
    from try_then_retry_ok(2) [OF assms this] show ?thesis by blast
  qed (use c in \<open>simp_all add: with_fallback_def\<close>)
qed

end


definition first_connects :: "bool \<Rightarrow> string \<Rightarrow> ip_addr list \<Rightarrow> (connect_error, upstream) outcome" where
  "first_connects verified name ips =
     (case ips of [] \<Rightarrow> Panic
      | ip # _ \<Rightarrow> Ok \<lparr>up_ip = ip, up_port = 443, up_name = name, up_verified = verified\<rparr>)"

lemma first_connects_possible:
  "run_happy_eyeballs (\<lambda>_. True) (\<lambda>_. up_dial) domain ips (first_connects True domain ips)"
proof (cases ips)
  case (Cons ip rest)
  let ?n = "length ips"
  have "race_step ?n (\<lambda>i. di_time up_dial) (\<lambda>i. do_tls_connect (\<lambda>_. True) domain (ips ! i) up_dial)
      (Racing (race_start ?n (\<lambda>i. di_time up_dial))) (Finished (first_connects True domain ips))"
    unfolding Cons first_connects_def list.case
    by (rule attempt_wins [where t = 0 and i = 0])
      (simp_all add: ready_def race_start_def up_dial_def do_tls_connect_def tls_connect_def)
  then show ?thesis
    by (simp add: run_happy_eyeballs_def Cons try_tls_connect_def tls_connect_def up_dial_def
        first_connects_def r_into_rtranclp)
qed (simp add: run_happy_eyeballs_def first_connects_def)

definition sample_origin_env :: origin_env where
  "sample_origin_env =
     \<lparr>oe_domestic = sample_env 3, oe_international = sample_env 5,
      oe_first = first_connects True ''github.com'', oe_second = first_connects True ''github.com''\<rparr>"


section \<open>The cache after a fallback\<close>

lemma international_stores:
  assumes "resolve_international ops env domain r = (Ok ips, r2)"
  obtains r1 where "r2 = cache_store ops env domain ips r1" and "rv_cache r1 = rv_cache r" and "ips \<noteq> []"
proof -
  obtain answer doh where a: "doh_resolve_international ops (re_net env) domain (rv_doh r) = (Ok answer, doh)"
    using assms by (cases "doh_resolve_international ops (re_net env) domain (rv_doh r)"; cases "fst (doh_resolve_international ops (re_net env) domain (rv_doh r))")
      (auto simp: resolve_international_def)
  obtain ranked r1 where k: "rank ops env domain (dr_ips answer) (r\<lparr>rv_doh := doh\<rparr>) = (ranked, r1)"
    by fastforce
  have "rv_cache r1 = rv_cache r" using k by (auto simp: rank_def split: prod.splits)
  moreover have "r2 = cache_store ops env domain ips r1" and "ips \<noteq> []"
    using assms a k by (auto simp: resolve_international_def Let_def split: if_splits)
  ultimately show thesis by (intro that)
qed

lemma store_then_candidates:
  assumes "lru_index ops order" and "cache_inv order (rv_cache r)" and "1 \<le> ec_max_entries (rv_cache r)"
    and "ec_ttl (rv_cache r) = Some ttl" and "ck_start (re_clock env') - ck_end (re_clock env) \<le> ttl"
  shows "fst (get_candidates ops env' domain (cache_store ops env domain ips r)) = Ok ips"
proof -
  have "fst (cache_lookup ops env' domain (cache_store ops env domain ips r)) = Some ips"
    using assms by (simp add: cache_lookup_def cache_store_def case_prod_beta insert_then_get)
  then show ?thesis
    by (cases "cache_lookup ops env' domain (cache_store ops env domain ips r)")
      (simp add: get_candidates_def)
qed

lemma remove_keeps:
  "ec_max_entries (snd (ecache_remove ops key c)) = ec_max_entries c"
  "ec_ttl (snd (ecache_remove ops key c)) = ec_ttl c"
  by (simp_all add: ecache_remove_def ecache_drop_def)

text \<open>
  When every address of the resolver has failed and the international servers
  answer, the connection is the one to their addresses, and as long as the new entry lives the
  next connection starts from them: the failed list is forgotten.
\<close>

theorem fallback_replaces_answer:
  assumes "lru_index ops order" and "cache_inv order (rv_cache r1)"
    and "1 \<le> ec_max_entries (rv_cache r1)" and "ec_ttl (rv_cache r1) = Some ttl"
    and "get_candidates ops (oe_domestic env) domain r = (Ok candidates, r1)" and "candidates \<noteq> []"
    and "oe_first env candidates = Err e"
    and "resolve_international ops (oe_international env) domain (resolver_invalidate ops domain r1) = (Ok ips, r2)"
    and "ck_start (re_clock later) - ck_end (re_clock (oe_international env)) \<le> ttl"
  shows "connect_with_fallback ops env domain r = (lift_connect (oe_second env ips), r2) \<and>
    fst (get_candidates ops later domain r2) = Ok ips"
proof -
  obtain r3 where r3: "r2 = cache_store ops (oe_international env) domain ips r3"
    "rv_cache r3 = snd (ecache_remove ops domain (rv_cache r1))" "ips \<noteq> []"
    using international_stores [OF assms(8)] by (auto simp: resolver_invalidate_def)
  have "cache_inv order (rv_cache r3)"
    unfolding r3 by (rule lru_index.inv_remove [OF assms(1,2)])
  then have "fst (get_candidates ops later domain r2) = Ok ips"
    unfolding r3(1) using assms(1,3,4,9) by (intro store_then_candidates) (simp_all add: r3 remove_keeps)
  then show ?thesis
    using assms(5-8) r3(3) by (simp add: connect_with_fallback_def with_fallback_def try_then_retry_def
        retry_international_def)
qed

text \<open>A resolver that holds an answer whose address is dead, and a trusted server.\<close>

definition stale_resolver :: "string list dns_resolver" where
  "stale_resolver = cache_store list_lru_ops (sample_env 0) ''github.com'' [V4 192 0 2 1]
     (sample_resolver\<lparr>rv_doh := sample_client_of True\<rparr>)"

lemma sample_cache:
  "rv_cache sample_resolver = ecache_with_ttl list_lru_ops 1000 ''dns_cache'' (secs 300)"
  by (simp add: sample_resolver_def resolver_new_def default_dns_def)

lemma cache_lookup_keeps:
  assumes "cache_lookup ops env domain r = (found, r1)"
  shows "rv_doh r1 = rv_doh r" "rv_prober r1 = rv_prober r"
    "ec_max_entries (rv_cache r1) = ec_max_entries (rv_cache r)"
    "ec_ttl (rv_cache r1) = ec_ttl (rv_cache r)"
    "rv_cache r1 = snd (ecache_get ops (ck_start (re_clock env)) (ck_start (re_clock env)) domain (rv_cache r))"
  using assms by (auto simp: cache_lookup_def ecache_get_def ecache_drop_def
    split: prod.splits option.splits if_splits)

lemma cache_store_keeps:
  "rv_doh (cache_store ops env domain ips r) = rv_doh r"
  "rv_prober (cache_store ops env domain ips r) = rv_prober r"
  by (simp_all add: cache_store_def)

lemma evict_loop_keeps [simp]:
  "ec_max_entries (evict_loop ops n c) = ec_max_entries c" "ec_ttl (evict_loop ops n c) = ec_ttl c"
  by (induction ops n c rule: evict_loop.induct) (auto split: option.splits)

lemma ecache_insert_keeps:
  "ec_max_entries (ecache_insert ops base now now' key v c) = ec_max_entries c"
  "ec_ttl (ecache_insert ops base now now' key v c) = ec_ttl c"
  by (simp_all add: ecache_insert_def evict_lru_if_needed_def Let_def)

lemma stale_hit:
  obtains r1 where
    "get_candidates list_lru_ops (sample_env 20) ''github.com'' stale_resolver = (Ok [V4 192 0 2 1], r1)"
    "rv_doh r1 = sample_client_of True" "rv_prober r1 = rv_prober sample_resolver"
    "cache_inv (\<lambda>l. l) (rv_cache r1)" "ec_max_entries (rv_cache r1) = 1000"
    "ec_ttl (rv_cache r1) = Some (secs 300)"
proof -
  obtain found r1 where look: "cache_lookup list_lru_ops (sample_env 20) ''github.com'' stale_resolver = (found, r1)"
    by fastforce
  have stale: "rv_cache stale_resolver = ecache_insert list_lru_ops 0 9 9 ''github.com'' [V4 192 0 2 1]
      (ecache_with_ttl list_lru_ops 1000 ''dns_cache'' (secs 300))"
    by (simp add: stale_resolver_def cache_store_def sample_cache sample_env_def)
  have "fst (ecache_get list_lru_ops 20 20 ''github.com'' (rv_cache stale_resolver)) = Some [V4 192 0 2 1]"
    unfolding stale by (rule insert_then_get [OF list_lru.lru_index_axioms list_lru.inv_with_ttl])
      (simp_all add: ecache_with_ttl_def)
  then have "found = Some [V4 192 0 2 1]"
    using look by (simp add: cache_lookup_def sample_env_def case_prod_beta)
  then have "get_candidates list_lru_ops (sample_env 20) ''github.com'' stale_resolver = (Ok [V4 192 0 2 1], r1)"
    using look by (simp add: get_candidates_def)
  moreover have "rv_doh r1 = sample_client_of True" "rv_prober r1 = rv_prober sample_resolver"
    by (simp_all add: cache_lookup_keeps(1,2) [OF look] stale_resolver_def cache_store_keeps)
  moreover have "cache_inv (\<lambda>l. l) (rv_cache r1)"
    unfolding cache_lookup_keeps(5) [OF look] stale
    by (intro list_lru.inv_get list_lru.inv_insert list_lru.inv_with_ttl)
  moreover have "ec_max_entries (rv_cache r1) = 1000" "ec_ttl (rv_cache r1) = Some (secs 300)"
    by (simp_all add: cache_lookup_keeps(3,4) [OF look] stale ecache_insert_keeps ecache_with_ttl_def)
  ultimately show thesis by (intro that)
qed

theorem fallback_replaces_answer_witness:
  "\<exists>r2. fst (connect_with_fallback list_lru_ops
      (sample_origin_env\<lparr>oe_domestic := sample_env 20, oe_international := sample_env 40,
        oe_first := \<lambda>ips. Err (AllFailed 1)\<rparr>) ''github.com'' stale_resolver) =
      Ok \<lparr>up_ip = V4 140 82 121 3, up_port = 443, up_name = ''github.com'', up_verified = True\<rparr> \<and>
    fst (get_candidates list_lru_ops (sample_env 60) ''github.com'' r2) = Ok [V4 140 82 121 3]"
proof -
  let ?env = "sample_origin_env\<lparr>oe_domestic := sample_env 20, oe_international := sample_env 40,
      oe_first := \<lambda>ips. Err (AllFailed 1)\<rparr>"
  obtain r1 where r1: "get_candidates list_lru_ops (sample_env 20) ''github.com'' stale_resolver = (Ok [V4 192 0 2 1], r1)"
    "rv_doh r1 = sample_client_of True" "rv_prober r1 = rv_prober sample_resolver"
    "cache_inv (\<lambda>l. l) (rv_cache r1)" "ec_max_entries (rv_cache r1) = 1000"
    "ec_ttl (rv_cache r1) = Some (secs 300)" using stale_hit .
  let ?r = "resolver_invalidate list_lru_ops ''github.com'' r1"
  obtain d where doh: "doh_resolve_international list_lru_ops (re_net (sample_env 40)) ''github.com'' (rv_doh ?r) =
      (Ok \<lparr>dr_ips = [V4 140 82 121 3], dr_doh_servers = [''alidns'']\<rparr>, d)"
    using sample_international r1(2) by (auto simp: resolver_invalidate_def sample_env_def)
  obtain ranked r3 where k: "rank list_lru_ops (sample_env 40) ''github.com'' [V4 140 82 121 3] (?r\<lparr>rv_doh := d\<rparr>) =
      (ranked, r3)" by fastforce
  have "ranked = [V4 140 82 121 3]"
    using sample_rank [of "?r\<lparr>rv_doh := d\<rparr>" 40 "''github.com''"] k
    by (simp add: resolver_invalidate_def prober_invalidate_def forget_best_def r1(3) sample_resolver_def resolver_new_def
        prober_new_def default_dns_def)
  then obtain r2 where r2: "resolve_international list_lru_ops (sample_env 40) ''github.com'' ?r = (Ok [V4 140 82 121 3], r2)"
    using doh k by (auto simp: resolve_international_def Let_def)
  have "connect_with_fallback list_lru_ops ?env ''github.com'' stale_resolver =
      (lift_connect (oe_second ?env [V4 140 82 121 3]), r2) \<and>
    fst (get_candidates list_lru_ops (sample_env 60) ''github.com'' r2) = Ok [V4 140 82 121 3]"
    by (rule fallback_replaces_answer [OF list_lru.lru_index_axioms r1(4), where ttl = "secs 300"
          and candidates = "[V4 192 0 2 1]" and e = "AllFailed 1"])
      (use r1 r2 in \<open>simp_all add: sample_origin_env_def sample_env_def\<close>)
  then show ?thesis by (auto simp: sample_origin_env_def first_connects_def)
qed

end
