(* ===== verification/Session.thy ===== *)
theory Session
  imports Wire Resource_Cache Intercept_Matcher Domain_Rules Mirror_Health Tls_Origin
begin

text \<open>
  The state that the connections of the proxy share and what one connection meets
  (\<open>HandlerContext\<close> and \<open>ProxyAction\<close> of \<open>src/proxy/handler.rs\<close>), and the tunnel
  (\<open>src/proxy/tunnel.rs\<close>). A connection runs in an environment: what the attempts to connect give,
  what tokio's \<open>copy_bidirectional\<close> under its time limit does with two connections, in which order
  the counted copy is served, and the clock. A failure of \<open>set_nodelay\<close> counts as one of the
  connection.
\<close>

section \<open>Context and environment\<close>

record handler_ctx =
  hc_mitm_enabled :: bool
  hc_domain_rules :: domain_rules
  hc_intercept_matcher :: intercept_matcher
  hc_hash :: "string \<Rightarrow> string"
  hc_default_fake_sni :: string
  hc_sni_spoof_enabled :: bool
  hc_proxy_port :: nat
  hc_idle_timeout_secs :: nat

text \<open>The certificates, the TLS connectors and the shared objects are no part of the record here.\<close>

definition handler_context_new ::
    "bool \<Rightarrow> domain_rules \<Rightarrow> intercept_matcher \<Rightarrow> (string \<Rightarrow> string) \<Rightarrow> string \<Rightarrow> bool \<Rightarrow> nat \<Rightarrow> nat \<Rightarrow> handler_ctx" where
  "handler_context_new mitm_enabled domain_rules intercept_matcher hash default_fake_sni sni_spoof_enabled
       proxy_port idle_timeout_secs =
     \<lparr>hc_mitm_enabled = mitm_enabled, hc_domain_rules = domain_rules, hc_intercept_matcher = intercept_matcher,
      hc_hash = hash, hc_default_fake_sni = default_fake_sni, hc_sni_spoof_enabled = sni_spoof_enabled,
      hc_proxy_port = proxy_port, hc_idle_timeout_secs = idle_timeout_secs\<rparr>"

lemmas handler_context_simps [simp] = handler_context_new_def

record proxy_state =
  ps_cache :: res_cache
  ps_mirrors :: mirror_tracker
  ps_metrics :: metrics
  ps_tasks :: "cache_task list"

datatype proxy_action =
    HttpForward string nat
  | HttpsTunnel string nat bool
  | MitmIntercept string nat

text \<open>
  The connections that the handler asks for: with the certificate checked for the domain, with a
  fake name, to an address that was resolved, to a port through the resolver, or through the
  operating system.
\<close>

datatype connect_request =
    Verified string
  | Spoofed string string
  | ToAddress ip_addr nat
  | Resolved string nat
  | BySystem string nat

datatype connect_failure = OriginFailed origin_error | SpoofFailed stream_error | SystemFailed

datatype handler_error =
    HandshakeFailed | ReadError | WriteError | RelayError
  | NoUpstream connect_failure | NotResolved

datatype relay_result = Relayed nat nat | RelayFailed | RelayTimedOut

text \<open>The number of an attempt tells two attempts of one connection apart.\<close>

record conn_env =
  ce_handshake :: "endpoint option"
  ce_connect :: "nat \<Rightarrow> connect_request \<Rightarrow> (connect_failure, endpoint) outcome"
  ce_resolve :: "string \<Rightarrow> (resolver_error, ip_addr) outcome"
  ce_relay :: "endpoint \<Rightarrow> endpoint \<Rightarrow> relay_result \<times> endpoint \<times> endpoint"
  ce_schedule :: "nat \<Rightarrow> bool"
  ce_failed_at :: nat
  ce_response_time :: rat
  ce_get_time :: "64 word"
  ce_put_time :: "64 word"
  ce_put_write :: write_result

text \<open>
  One connection: the stream the handler talks on, the TCP stream below it after a TLS handshake,
  and the upstream it was connected to with the request that was made for it.
\<close>

record session =
  ss_client :: endpoint
  ss_below :: "endpoint option"
  ss_server :: "(connect_request \<times> endpoint) option"
  ss_state :: proxy_state

definition on_metrics :: "(metrics \<Rightarrow> metrics) \<Rightarrow> session \<Rightarrow> session" where
  "on_metrics f ss = ss\<lparr>ss_state := (ss_state ss)\<lparr>ps_metrics := f (ps_metrics (ss_state ss))\<rparr>\<rparr>"

definition on_mirrors :: "(mirror_tracker \<Rightarrow> mirror_tracker) \<Rightarrow> session \<Rightarrow> session" where
  "on_mirrors f ss = ss\<lparr>ss_state := (ss_state ss)\<lparr>ps_mirrors := f (ps_mirrors (ss_state ss))\<rparr>\<rparr>"

definition spawn_tasks :: "cache_task list \<Rightarrow> session \<Rightarrow> session" where
  "spawn_tasks ts ss = ss\<lparr>ss_state := (ss_state ss)\<lparr>ps_tasks := ps_tasks (ss_state ss) @ ts\<rparr>\<rparr>"

definition set_cache :: "res_cache \<Rightarrow> session \<Rightarrow> session" where
  "set_cache c ss = ss\<lparr>ss_state := (ss_state ss)\<lparr>ps_cache := c\<rparr>\<rparr>"

definition send_client :: "string \<Rightarrow> session \<Rightarrow> bool \<times> session" where
  "send_client s ss = (let (ok, client) = write_all s (ss_client ss) in (ok, ss\<lparr>ss_client := client\<rparr>))"

definition reply :: "string \<Rightarrow> session \<Rightarrow> (handler_error, unit) outcome \<times> session" where
  "reply s ss = (let (ok, ss1) = send_client s ss in (if ok then Ok () else Err WriteError, ss1))"

definition BIDIRECTIONAL_TIMEOUT_SECS :: nat where
  "BIDIRECTIONAL_TIMEOUT_SECS = 3600"

text \<open>Both directions are copied by tokio; the bytes are counted, or not.\<close>

definition relay :: "conn_env \<Rightarrow> connect_request \<Rightarrow> endpoint \<Rightarrow> session \<Rightarrow> relay_result \<times> session" where
  "relay env q server ss =
     (case ce_relay env (ss_client ss) server of
        (r, client1, server1) \<Rightarrow> (r, ss\<lparr>ss_client := client1, ss_server := Some (q, server1)\<rparr>))"

definition count_relayed :: "relay_result \<Rightarrow> session \<Rightarrow> session" where
  "count_relayed r ss =
     (case r of
        Relayed c2s s2c \<Rightarrow>
          on_metrics (add_bytes_received (of_nat s2c)) (on_metrics (add_bytes_sent (of_nat c2s)) ss)
      | RelayFailed \<Rightarrow> ss
      | RelayTimedOut \<Rightarrow> ss)"

definition relay_counted ::
    "conn_env \<Rightarrow> connect_request \<Rightarrow> endpoint \<Rightarrow> session \<Rightarrow> (handler_error, unit) outcome \<times> session" where
  "relay_counted env q server ss =
     (let (r, ss1) = relay env q server ss in (Ok (), count_relayed r ss1))"

definition relay_uncounted ::
    "conn_env \<Rightarrow> connect_request \<Rightarrow> endpoint \<Rightarrow> session \<Rightarrow> (handler_error, unit) outcome \<times> session" where
  "relay_uncounted env q server ss = (let (r, ss1) = relay env q server ss in (Ok (), ss1))"

section \<open>The tunnel\<close>

definition TUNNEL_TIMEOUT :: nat where
  "TUNNEL_TIMEOUT = secs 3600"

definition establish_tunnel ::
    "conn_env \<Rightarrow> string \<Rightarrow> nat \<Rightarrow> bool \<Rightarrow> session \<Rightarrow> (handler_error, unit) outcome \<times> session" where
  "establish_tunnel env host port use_doh ss =
     (let q = (if use_doh then Resolved host port else BySystem host port)
      in case ce_connect env 0 q of
           Ok target \<Rightarrow> relay_counted env q target ss
         | Err e \<Rightarrow> (Err (NoUpstream e), ss)
         | Panic \<Rightarrow> (Panic, ss))"

section \<open>Lemmas\<close>

named_theorems session_simps \<open>parts of a session after an update\<close>

lemma on_metrics_parts [session_simps]:
  "ss_client (on_metrics f ss) = ss_client ss" "ss_server (on_metrics f ss) = ss_server ss"
  "ss_below (on_metrics f ss) = ss_below ss"
  "ps_cache (ss_state (on_metrics f ss)) = ps_cache (ss_state ss)"
  "ps_mirrors (ss_state (on_metrics f ss)) = ps_mirrors (ss_state ss)"
  "ps_tasks (ss_state (on_metrics f ss)) = ps_tasks (ss_state ss)"
  "ps_metrics (ss_state (on_metrics f ss)) = f (ps_metrics (ss_state ss))"
  by (simp_all add: on_metrics_def)

lemma on_mirrors_parts [session_simps]:
  "ss_client (on_mirrors g ss) = ss_client ss" "ss_server (on_mirrors g ss) = ss_server ss"
  "ss_below (on_mirrors g ss) = ss_below ss"
  "ps_cache (ss_state (on_mirrors g ss)) = ps_cache (ss_state ss)"
  "ps_mirrors (ss_state (on_mirrors g ss)) = g (ps_mirrors (ss_state ss))"
  "ps_tasks (ss_state (on_mirrors g ss)) = ps_tasks (ss_state ss)"
  "ps_metrics (ss_state (on_mirrors g ss)) = ps_metrics (ss_state ss)"
  by (simp_all add: on_mirrors_def)

lemma spawn_tasks_parts [session_simps]:
  "ss_client (spawn_tasks ts ss) = ss_client ss" "ss_server (spawn_tasks ts ss) = ss_server ss"
  "ss_below (spawn_tasks ts ss) = ss_below ss"
  "ps_cache (ss_state (spawn_tasks ts ss)) = ps_cache (ss_state ss)"
  "ps_mirrors (ss_state (spawn_tasks ts ss)) = ps_mirrors (ss_state ss)"
  "ps_tasks (ss_state (spawn_tasks ts ss)) = ps_tasks (ss_state ss) @ ts"
  "ps_metrics (ss_state (spawn_tasks ts ss)) = ps_metrics (ss_state ss)"
  by (simp_all add: spawn_tasks_def)

lemma set_cache_parts [session_simps]:
  "ss_client (set_cache c ss) = ss_client ss" "ss_server (set_cache c ss) = ss_server ss"
  "ss_below (set_cache c ss) = ss_below ss"
  "ps_cache (ss_state (set_cache c ss)) = c"
  "ps_mirrors (ss_state (set_cache c ss)) = ps_mirrors (ss_state ss)"
  "ps_tasks (ss_state (set_cache c ss)) = ps_tasks (ss_state ss)"
  "ps_metrics (ss_state (set_cache c ss)) = ps_metrics (ss_state ss)"
  by (simp_all add: set_cache_def)

lemma send_client_parts:
  "send_client s ss = (ok, ss') \<Longrightarrow>
     ss_server ss' = ss_server ss \<and> ss_below ss' = ss_below ss \<and> ss_state ss' = ss_state ss
     \<and> write_all s (ss_client ss) = (ok, ss_client ss')"
  by (auto simp: send_client_def split_beta intro: prod_eqI)

lemma relay_parts [session_simps]:
  "ss_state (snd (relay env q server ss)) = ss_state ss"
  "ss_below (snd (relay env q server ss)) = ss_below ss"
  by (simp_all add: relay_def split_beta)

lemma count_relayed_parts [session_simps]:
  "ss_client (count_relayed r ss) = ss_client ss" "ss_server (count_relayed r ss) = ss_server ss"
  "ss_below (count_relayed r ss) = ss_below ss"
  "ps_cache (ss_state (count_relayed r ss)) = ps_cache (ss_state ss)"
  "ps_mirrors (ss_state (count_relayed r ss)) = ps_mirrors (ss_state ss)"
  "ps_tasks (ss_state (count_relayed r ss)) = ps_tasks (ss_state ss)"
  by (simp_all add: count_relayed_def session_simps split: relay_result.split)

end
