(* ===== verification/Proxy_Handler.thy ===== *)
theory Proxy_Handler
  imports Session
begin

text \<open>
  The handling of one connection (\<open>src/proxy/handler.rs\<close>): the CONNECT request and its decision, the
  intercepted TLS session with its four kinds of upstream, the resource cache and the mirror script
  in it, and the plain HTTP request. Each function returns its result together with the session,
  which holds all that was written to either side and the shared state afterwards. What is only
  logged is left out.
\<close>

section \<open>Which upstream\<close>

datatype upstream_decision =
    RedirectTo string
  | ProxyMirror string string
  | SpoofSni string string
  | DirectUp
  | AbortUp

definition resolve_real_host :: "string \<Rightarrow> string \<Rightarrow> string" where
  "resolve_real_host rule_host actual_host =
     (if CHR ''*'' \<in> set rule_host then actual_host else rule_host)"

definition resolve_upstream :: "string \<Rightarrow> string \<Rightarrow> handler_ctx \<Rightarrow> string \<Rightarrow> upstream_decision" where
  "resolve_upstream host path ctx pending_request =
     (case match_domain (hc_intercept_matcher ctx) host path of
        Some (SniSpoof sni real_host) \<Rightarrow>
          if hc_sni_spoof_enabled ctx then SpoofSni (resolve_real_host real_host host) sni else DirectUp
      | Some (Proxy mirror) \<Rightarrow> ProxyMirror mirror (rewrite_request_for_mirror pending_request mirror host)
      | Some (Redirect target) \<Rightarrow>
          RedirectTo (build_redirect_response (replace_all ''{path}'' path target))
      | Some (Abort _) \<Rightarrow> AbortUp
      | None \<Rightarrow> DirectUp)"

section \<open>Through a mirror\<close>

definition mirror_session ::
    "conn_env \<Rightarrow> string \<Rightarrow> string \<Rightarrow> connect_request \<Rightarrow> endpoint \<Rightarrow> session
     \<Rightarrow> (handler_error, unit) outcome \<times> session" where
  "mirror_session env mirror rewritten_request q server ss =
     (let ss1 = on_mirrors (mirror_success mirror (ce_response_time env)) ss
      in case write_all rewritten_request server of
           (False, server1) \<Rightarrow> (Err WriteError, ss1\<lparr>ss_server := Some (q, server1)\<rparr>)
         | (True, server1) \<Rightarrow> relay_counted env q server1 ss1)"

definition mitm_mirror ::
    "conn_env \<Rightarrow> string \<Rightarrow> string \<Rightarrow> string \<Rightarrow> session \<Rightarrow> (handler_error, unit) outcome \<times> session" where
  "mitm_mirror env host mirror rewritten_request ss =
     (case ce_connect env 0 (Verified mirror) of
        Ok server \<Rightarrow> mirror_session env mirror rewritten_request (Verified mirror) server ss
      | Panic \<Rightarrow> (Panic, ss)
      | Err e \<Rightarrow>
          let ss1 = on_mirrors (mirror_failure (ce_failed_at env) mirror) ss
          in case ce_connect env 1 (Verified host) of
               Ok server \<Rightarrow> mirror_session env mirror rewritten_request (Verified host) server ss1
             | Err e2 \<Rightarrow> (Err (NoUpstream e2), ss1)
             | Panic \<Rightarrow> (Panic, ss1))"

section \<open>The cache\<close>

definition resource_url :: "string \<Rightarrow> string \<Rightarrow> string" where
  "resource_url host path = ''https://'' @ host @ path"

text \<open>A hit is answered without any upstream.\<close>

definition serve_cached :: "cached_resource \<Rightarrow> session \<Rightarrow> (handler_error, unit) outcome \<times> session" where
  "serve_cached cached ss =
     (let (ok, ss1) = send_client (build_response_from_cache cached) ss
      in if ok then (Ok (), on_metrics (add_bytes_received (of_nat (length (cr_data cached)))) ss1)
         else (Err WriteError, ss1))"

definition resource_lookup :: "conn_env \<Rightarrow> handler_ctx \<Rightarrow> string \<Rightarrow> session \<Rightarrow> cached_resource option \<times> session" where
  "resource_lookup env ctx url ss =
     (if is_cacheable_url url then
        let (hit, ts) = rc_get (hc_hash ctx) (ce_get_time env) url (ps_cache (ss_state ss))
        in (hit, spawn_tasks ts ss)
      else (None, ss))"

definition store_body :: "conn_env \<Rightarrow> handler_ctx \<Rightarrow> string \<Rightarrow> string \<Rightarrow> string \<Rightarrow> session \<Rightarrow> session" where
  "store_body env ctx url content_type body ss =
     (let cached = \<lparr>cr_content_type = content_type, cr_data = body, cr_etag = None, cr_last_modified = None\<rparr>;
          (result, cache) = rc_put (hc_hash ctx) (ce_put_time env) (ce_put_write env) url cached
                              (ps_cache (ss_state ss));
          ss1 = set_cache cache ss
      in case result of Ok ts \<Rightarrow> spawn_tasks ts ss1 | Err e \<Rightarrow> ss1 | Panic \<Rightarrow> ss1)"

text \<open>
  A response whose first bytes are \<open>response_buf\<close> is passed on, and stored when it is whole. Making
  room for a body of \<open>2 ^ 63\<close> bytes or more is a panic of \<open>Vec::reserve\<close>.
\<close>

definition cache_response ::
    "conn_env \<Rightarrow> handler_ctx \<Rightarrow> string \<Rightarrow> nat option \<Rightarrow> string \<Rightarrow> connect_request \<Rightarrow> endpoint \<Rightarrow> session
     \<Rightarrow> (handler_error, unit) outcome \<times> session" where
  "cache_response env ctx url header_end response_buf q server ss =
     (case send_client response_buf ss of
        (False, ss1) \<Rightarrow> (Err WriteError, ss1\<lparr>ss_server := Some (q, server)\<rparr>)
      | (True, ss1) \<Rightarrow>
          let ss2 = on_metrics (add_bytes_received (of_nat (length response_buf))) ss1
          in case parse_response_headers response_buf of
               (Some content_type, Some total_body) \<Rightarrow>
                 if \<not> is_cacheable url content_type then relay_uncounted env q server ss2
                 else
                   let body = (case header_end of Some pos \<Rightarrow> drop (pos + 4) response_buf | None \<Rightarrow> [])
                   in if length body < total_body \<and> 2 ^ 63 \<le> total_body
                      then (Panic, ss2\<lparr>ss_server := Some (q, server)\<rparr>)
                      else
                        (case forward_body total_body body (ss_client ss2) server (ps_metrics (ss_state ss2)) of
                           (ok, body1, client1, server1, mx) \<Rightarrow>
                             let ss3 = on_metrics (\<lambda>_. mx) (ss2\<lparr>ss_client := client1\<rparr>)
                             in if \<not> ok then (Err WriteError, ss3\<lparr>ss_server := Some (q, server1)\<rparr>)
                                else if length body1 = total_body
                                then relay_uncounted env q server1 (store_body env ctx url content_type body1 ss3)
                                else relay_uncounted env q server1 ss3)
             | _ \<Rightarrow> relay_uncounted env q server ss2)"

section \<open>Straight to the host\<close>

definition direct_cached ::
    "conn_env \<Rightarrow> handler_ctx \<Rightarrow> string \<Rightarrow> connect_request \<Rightarrow> endpoint \<Rightarrow> session
     \<Rightarrow> (handler_error, unit) outcome \<times> session" where
  "direct_cached env ctx url q server ss =
     (case read_head False 8192 65536 [] server of
        (stop, response_buf, server1) \<Rightarrow>
          (case stop of
             HeaderFailed \<Rightarrow> (Err ReadError, ss\<lparr>ss_server := Some (q, server1)\<rparr>)
           | HeaderAt pos \<Rightarrow> cache_response env ctx url (Some pos) response_buf q server1 ss
           | _ \<Rightarrow> cache_response env ctx url None response_buf q server1 ss))"

definition mitm_direct ::
    "conn_env \<Rightarrow> handler_ctx \<Rightarrow> string \<Rightarrow> string \<Rightarrow> string \<Rightarrow> session
     \<Rightarrow> (handler_error, unit) outcome \<times> session" where
  "mitm_direct env ctx host path pending_request ss =
     (let url = resource_url host path
      in case resource_lookup env ctx url ss of
           (Some cached, ss1) \<Rightarrow> serve_cached cached ss1
         | (None, ss1) \<Rightarrow>
             (case ce_connect env 0 (Verified host) of
                Err e \<Rightarrow> (Err (NoUpstream e), ss1)
              | Panic \<Rightarrow> (Panic, ss1)
              | Ok server \<Rightarrow>
                  (case (if pending_request = [] then (True, server) else write_all pending_request server) of
                     (False, server1) \<Rightarrow> (Err WriteError, ss1\<lparr>ss_server := Some (Verified host, server1)\<rparr>)
                   | (True, server1) \<Rightarrow>
                       if is_cacheable_url url then direct_cached env ctx url (Verified host) server1 ss1
                       else relay_counted env (Verified host) server1 ss1)))"

section \<open>With a fake name\<close>

definition is_assets_page :: "string \<Rightarrow> string \<Rightarrow> bool" where
  "is_assets_page real_host pending_request \<longleftrightarrow>
     real_host = ''github.com'' \<and> contains_sub (utf8_lossy pending_request) ''/releases/expanded_assets/''"

text \<open>The connection with the fake name, and without if that fails.\<close>

definition spoof_connect ::
    "conn_env \<Rightarrow> string \<Rightarrow> string \<Rightarrow> (connect_failure, connect_request \<times> endpoint) outcome" where
  "spoof_connect env real_host fake_sni =
     (case ce_connect env 0 (Spoofed real_host fake_sni) of
        Ok server \<Rightarrow> Ok (Spoofed real_host fake_sni, server)
      | Panic \<Rightarrow> Panic
      | Err e \<Rightarrow>
          (case ce_connect env 1 (Verified real_host) of
             Ok server \<Rightarrow> Ok (Verified real_host, server)
           | Err e2 \<Rightarrow> Err e2
           | Panic \<Rightarrow> Panic))"

text \<open>The counted copy; whatever ends it, the handler returns.\<close>

definition copy_counted ::
    "conn_env \<Rightarrow> connect_request \<Rightarrow> endpoint \<Rightarrow> session \<Rightarrow> (handler_error, unit) outcome \<times> session" where
  "copy_counted env q server ss =
     (case copy_with_metrics (ce_schedule env) 0 0 0 (ss_client ss) server (ps_metrics (ss_state ss)) of
        (r, client1, server1, mx) \<Rightarrow>
          (Ok (), on_metrics (\<lambda>_. mx) (ss\<lparr>ss_client := client1, ss_server := Some (q, server1)\<rparr>)))"

definition is_html_header :: "string \<Rightarrow> bool" where
  "is_html_header header =
     (let lower = to_lowercase (utf8_lossy header)
      in contains_sub lower ''content-type:'' \<and> contains_sub lower ''text/html'')"

definition is_gzip_header :: "string \<Rightarrow> bool" where
  "is_gzip_header header =
     (let lower = to_lowercase (utf8_lossy header)
      in contains_sub lower ''content-encoding:'' \<and> (contains_sub lower ''gzip'' \<or> contains_sub lower ''deflate''))"

definition is_chunked_header :: "string \<Rightarrow> bool" where
  "is_chunked_header header =
     (let lower = to_lowercase (utf8_lossy header)
      in contains_sub lower ''transfer-encoding:'' \<and> contains_sub lower ''chunked'')"

text \<open>The rest of the page, by its length, by its chunks or to the end.\<close>

definition read_page :: "string \<Rightarrow> string \<Rightarrow> endpoint \<Rightarrow> string \<times> endpoint" where
  "read_page header body server =
     (case parse_content_length header of
        Some total_len \<Rightarrow> read_length (total_len - length body) body server
      | None \<Rightarrow>
          if is_chunked_header header then read_chunks body server else read_to_end body server)"

definition spoof_assets ::
    "conn_env \<Rightarrow> connect_request \<Rightarrow> endpoint \<Rightarrow> session \<Rightarrow> (handler_error, unit) outcome \<times> session" where
  "spoof_assets env q server ss =
     (case read_head False 8192 65536 [] server of
        (stop, raw_buf, server1) \<Rightarrow>
          let (header, body) = (case stop of
                 HeaderAt pos \<Rightarrow> (take (pos + 4) raw_buf, drop (pos + 4) raw_buf)
               | _ \<Rightarrow> (raw_buf, []))
          in if is_html_header header \<and> \<not> is_gzip_header header then
               (let (page, server2) = read_page header body server1;
                    modified_html = inject_mirror_script (utf8_lossy (header @ page))
                in reply modified_html (ss\<lparr>ss_server := Some (q, server2)\<rparr>))
             else
               (case send_client header ss of
                  (False, ss1) \<Rightarrow> (Err WriteError, ss1\<lparr>ss_server := Some (q, server1)\<rparr>)
                | (True, ss1) \<Rightarrow>
                    (case (if body = [] then (True, ss1) else send_client body ss1) of
                       (False, ss2) \<Rightarrow> (Err WriteError, ss2\<lparr>ss_server := Some (q, server1)\<rparr>)
                     | (True, ss2) \<Rightarrow> copy_counted env q server1 ss2)))"

text \<open>Here the header has a time limit, and a response without one is passed on as it comes.\<close>

definition spoof_cached ::
    "conn_env \<Rightarrow> handler_ctx \<Rightarrow> string \<Rightarrow> connect_request \<Rightarrow> endpoint \<Rightarrow> session
     \<Rightarrow> (handler_error, unit) outcome \<times> session" where
  "spoof_cached env ctx url q server ss =
     (case read_head True 8192 65536 [] server of
        (stop, response_buf, server1) \<Rightarrow>
          (case stop of
             HeaderAt pos \<Rightarrow> cache_response env ctx url (Some pos) response_buf q server1 ss
           | _ \<Rightarrow>
               if response_buf = [] then relay_uncounted env q server1 ss
               else
                 (case send_client response_buf ss of
                    (False, ss1) \<Rightarrow> (Err WriteError, ss1\<lparr>ss_server := Some (q, server1)\<rparr>)
                  | (True, ss1) \<Rightarrow>
                      relay_uncounted env q server1
                        (on_metrics (add_bytes_received (of_nat (length response_buf))) ss1))))"

definition mitm_spoof ::
    "conn_env \<Rightarrow> handler_ctx \<Rightarrow> string \<Rightarrow> string \<Rightarrow> string \<Rightarrow> string \<Rightarrow> session
     \<Rightarrow> (handler_error, unit) outcome \<times> session" where
  "mitm_spoof env ctx real_host fake_sni path pending_request ss =
     (let url = resource_url real_host path
      in case resource_lookup env ctx url ss of
           (Some cached, ss1) \<Rightarrow> serve_cached cached ss1
         | (None, ss1) \<Rightarrow>
             (case spoof_connect env real_host fake_sni of
                Err e \<Rightarrow> (Err (NoUpstream e), ss1)
              | Panic \<Rightarrow> (Panic, ss1)
              | Ok (q, server) \<Rightarrow>
                  (case (if pending_request = [] then (True, server) else write_all pending_request server) of
                     (False, server1) \<Rightarrow> (Err WriteError, ss1\<lparr>ss_server := Some (q, server1)\<rparr>)
                   | (True, server1) \<Rightarrow>
                       if is_assets_page real_host pending_request then spoof_assets env q server1 ss1
                       else if is_cacheable_url url then spoof_cached env ctx url q server1 ss1
                       else copy_counted env q server1 ss1)))"

section \<open>The intercepted session\<close>

definition request_path :: "string \<Rightarrow> string" where
  "request_path pending_request =
     (case str_lines (utf8_lossy pending_request) of
        [] \<Rightarrow> ''/''
      | line # _ \<Rightarrow> (case parse_request_path line of None \<Rightarrow> ''/'' | Some path \<Rightarrow> path))"

text \<open>One read of at most 8192 bytes within 30 seconds is taken for the request.\<close>

definition perform_mitm ::
    "conn_env \<Rightarrow> handler_ctx \<Rightarrow> string \<Rightarrow> session \<Rightarrow> (handler_error, unit) outcome \<times> session" where
  "perform_mitm env ctx host ss =
     (case ce_handshake env of
        None \<Rightarrow> (Err HandshakeFailed, ss)
      | Some client_tls \<Rightarrow>
          (case read_some True 8192 client_tls of
             (r, client1) \<Rightarrow>
               let ss1 = ss\<lparr>ss_client := client1, ss_below := Some (ss_client ss)\<rparr>
               in case r of
                    ReadTimedOut \<Rightarrow> (Ok (), ss1)
                  | ReadFailed \<Rightarrow> (Err ReadError, ss1)
                  | Got pending_request \<Rightarrow>
                      if pending_request = [] then (Ok (), ss1)
                      else
                        let path = request_path pending_request
                        in (case resolve_upstream host path ctx pending_request of
                              RedirectTo response \<Rightarrow> reply response ss1
                            | ProxyMirror mirror rewritten_request \<Rightarrow> mitm_mirror env host mirror rewritten_request ss1
                            | SpoofSni real_host fake_sni \<Rightarrow> mitm_spoof env ctx real_host fake_sni path pending_request ss1
                            | DirectUp \<Rightarrow> mitm_direct env ctx host path pending_request ss1
                            | AbortUp \<Rightarrow> (Ok (), ss1))))"

section \<open>CONNECT\<close>

definition established :: string where
  "established = ''HTTP/1.1 200 Connection Established'' @ header_sep"

definition forbidden :: string where
  "forbidden = ''HTTP/1.1 403 Forbidden'' @ header_sep"

definition bad_request :: string where
  "bad_request = ''HTTP/1.1 400 Bad Request'' @ header_sep"

definition header_too_large :: string where
  "header_too_large = ''HTTP/1.1 431 Request Header Fields Too Large'' @ header_sep"

definition first_line :: "string \<Rightarrow> string" where
  "first_line request_buf = (case str_lines (utf8_lossy request_buf) of [] \<Rightarrow> [] | line # _ \<Rightarrow> line)"

text \<open>What is to be done with a host, unless an intercept rule aborts it.\<close>

definition connect_action :: "handler_ctx \<Rightarrow> string \<Rightarrow> nat \<Rightarrow> proxy_action option" where
  "connect_action ctx host port =
     (case classify (hc_domain_rules ctx) host of
        ActProxy \<Rightarrow>
          if hc_mitm_enabled ctx then Some (MitmIntercept host port) else Some (HttpsTunnel host port True)
      | ActDirect \<Rightarrow> Some (HttpsTunnel host port False)
      | ActBlock \<Rightarrow> None)"

definition is_aborted :: "handler_ctx \<Rightarrow> string \<Rightarrow> bool" where
  "is_aborted ctx host =
     (case match_domain (hc_intercept_matcher ctx) host ''/'' of Some (Abort _) \<Rightarrow> True | _ \<Rightarrow> False)"

definition connect_to ::
    "conn_env \<Rightarrow> handler_ctx \<Rightarrow> string \<Rightarrow> nat \<Rightarrow> session \<Rightarrow> (handler_error, unit) outcome \<times> session" where
  "connect_to env ctx host port ss =
     (if is_aborted ctx host then reply established ss
      else
        (case connect_action ctx host port of
           None \<Rightarrow> reply forbidden ss
         | Some action \<Rightarrow>
             (case send_client established ss of
                (False, ss1) \<Rightarrow> (Err WriteError, ss1)
              | (True, ss1) \<Rightarrow>
                  (case action of
                     HttpsTunnel h p use_doh \<Rightarrow> establish_tunnel env h p use_doh ss1
                   | MitmIntercept h p \<Rightarrow>
                       (case perform_mitm env ctx h ss1 of
                          (Panic, ss2) \<Rightarrow> (Panic, ss2)
                        | (_, ss2) \<Rightarrow> (Ok (), ss2))
                   | HttpForward h p \<Rightarrow> (Panic, ss1)))))"

definition handle_connect ::
    "conn_env \<Rightarrow> handler_ctx \<Rightarrow> session \<Rightarrow> (handler_error, unit) outcome \<times> session" where
  "handle_connect env ctx ss =
     (case read_head False 4096 8192 [] (ss_client ss) of
        (stop, request_buf, client1) \<Rightarrow>
          let ss1 = ss\<lparr>ss_client := client1\<rparr>
          in case stop of
               HeaderFailed \<Rightarrow> (Err ReadError, ss1)
             | HeaderAt _ \<Rightarrow>
                 (case parse_connect_target (first_line request_buf) of
                    Some (host, port) \<Rightarrow> connect_to env ctx host port ss1
                  | None \<Rightarrow> reply bad_request ss1)
             | _ \<Rightarrow> (Ok (), ss1))"

section \<open>Plain HTTP\<close>

definition forward_http ::
    "conn_env \<Rightarrow> string \<Rightarrow> string \<Rightarrow> nat \<Rightarrow> session \<Rightarrow> (handler_error, unit) outcome \<times> session" where
  "forward_http env request_str host port ss =
     (case ce_resolve env host of
        Err e \<Rightarrow> (Err NotResolved, ss)
      | Panic \<Rightarrow> (Panic, ss)
      | Ok ip \<Rightarrow>
          (case ce_connect env 0 (ToAddress ip port) of
             Err e \<Rightarrow> (Err (NoUpstream e), ss)
           | Panic \<Rightarrow> (Panic, ss)
           | Ok target \<Rightarrow>
               (case write_all (rewrite_http_request request_str) target of
                  (False, target1) \<Rightarrow> (Err WriteError, ss\<lparr>ss_server := Some (ToAddress ip port, target1)\<rparr>)
                | (True, target1) \<Rightarrow>
                    (let (r, ss1) = relay env (ToAddress ip port) target1 ss
                     in case r of
                          Relayed c2s s2c \<Rightarrow> (Ok (), count_relayed r ss1)
                        | _ \<Rightarrow> (Err RelayError, ss1)))))"

definition handle_http ::
    "conn_env \<Rightarrow> handler_ctx \<Rightarrow> session \<Rightarrow> (handler_error, unit) outcome \<times> session" where
  "handle_http env ctx ss =
     (case read_head False 4096 65536 [] (ss_client ss) of
        (stop, request_buf, client1) \<Rightarrow>
          let ss1 = ss\<lparr>ss_client := client1\<rparr>
          in case stop of
               HeaderFailed \<Rightarrow> (Err ReadError, ss1)
             | HeaderTooLong \<Rightarrow> reply header_too_large ss1
             | HeaderAt _ \<Rightarrow>
                 if is_pac_request (first_line request_buf) then reply (pac_response (hc_proxy_port ctx)) ss1
                 else
                   (case parse_http_target (first_line request_buf) of
                      None \<Rightarrow> reply bad_request ss1
                    | Some (host, port) \<Rightarrow>
                        (case classify (hc_domain_rules ctx) host of
                           ActBlock \<Rightarrow> reply forbidden ss1
                         | _ \<Rightarrow>
                             (case forward_http env (utf8_lossy request_buf) host port ss1 of
                                (Panic, ss2) \<Rightarrow> (Panic, ss2)
                              | (_, ss2) \<Rightarrow> (Ok (), ss2))))
             | _ \<Rightarrow> (Ok (), ss1))"

section \<open>Any connection\<close>

definition handle_connection ::
    "conn_env \<Rightarrow> handler_ctx \<Rightarrow> session \<Rightarrow> (handler_error, unit) outcome \<times> session" where
  "handle_connection env ctx ss =
     (case peek_some 4096 (ss_client ss) of
        Got first_bytes \<Rightarrow>
          if first_bytes = [] then (Ok (), ss)
          else if starts_with first_bytes ''CONNECT'' then handle_connect env ctx ss
          else if is_http_method first_bytes then handle_http env ctx ss
          else (Ok (), ss)
      | _ \<Rightarrow> (Err ReadError, ss))"

section \<open>Who is contacted\<close>

text \<open>The upstream of a session is the one before, or it was asked for by a request in \<open>Q\<close>.\<close>

definition contacts :: "connect_request set \<Rightarrow> session \<Rightarrow> session \<Rightarrow> bool" where
  "contacts Q ss ss' \<longleftrightarrow>
     ss_server ss' = ss_server ss \<or> (\<exists>q e. ss_server ss' = Some (q, e) \<and> q \<in> Q)"

named_theorems contacts_intros \<open>the upstream of a session\<close>

lemma contacts_refl [contacts_intros]: "ss_server ss' = ss_server ss \<Longrightarrow> contacts Q ss ss'"
  by (simp add: contacts_def)

lemma contacts_new [contacts_intros]: "ss_server ss' = Some (q, e) \<Longrightarrow> q \<in> Q \<Longrightarrow> contacts Q ss ss'"
  by (simp add: contacts_def)

lemma contacts_mono: "contacts Q ss ss' \<Longrightarrow> Q \<subseteq> Q' \<Longrightarrow> contacts Q' ss ss'"
  unfolding contacts_def by blast

lemma relay_server:
  "\<exists>e. ss_server (snd (relay env q server ss)) = Some (q, e)"
  by (simp add: relay_def split_beta)

lemma relay_uncounted_server:
  "\<exists>e. ss_server (snd (relay_uncounted env q server ss)) = Some (q, e)"
  using relay_server by (simp add: relay_uncounted_def split_beta)

lemma relay_counted_server:
  "\<exists>e. ss_server (snd (relay_counted env q server ss)) = Some (q, e)"
  using relay_server by (simp add: relay_counted_def split_beta session_simps)

lemma reply_contacts [contacts_intros]: "contacts Q ss (snd (reply s ss))"
  by (simp add: reply_def send_client_def split_beta contacts_def)

lemma copy_counted_server: "\<exists>e. ss_server (snd (copy_counted env q server ss)) = Some (q, e)"
  by (simp add: copy_counted_def split_beta session_simps)

lemma cache_response_server:
  "\<exists>e. ss_server (snd (cache_response env ctx url header_end buf q server ss)) = Some (q, e)"
  unfolding cache_response_def Let_def
  by (auto simp: session_simps relay_uncounted_server split: prod.splits bool.splits option.splits)

lemma spoof_assets_server: "\<exists>e. ss_server (snd (spoof_assets env q server ss)) = Some (q, e)"
  unfolding spoof_assets_def Let_def
  by (auto simp: reply_def send_client_def copy_counted_server split: prod.splits bool.splits header_stop.splits)

lemma spoof_cached_server: "\<exists>e. ss_server (snd (spoof_cached env ctx url q server ss)) = Some (q, e)"
  unfolding spoof_cached_def
  by (auto simp: relay_uncounted_server cache_response_server split: prod.splits bool.splits header_stop.splits)

lemma direct_cached_server: "\<exists>e. ss_server (snd (direct_cached env ctx url q server ss)) = Some (q, e)"
  unfolding direct_cached_def
  by (auto simp: cache_response_server split: prod.splits header_stop.splits)

lemma serve_cached_server [simp]: "ss_server (snd (serve_cached cached ss)) = ss_server ss"
  by (auto simp: serve_cached_def send_client_def split_beta session_simps)

lemma resource_lookup_parts [session_simps]:
  "ss_server (snd (resource_lookup env ctx url ss)) = ss_server ss"
  "ss_client (snd (resource_lookup env ctx url ss)) = ss_client ss"
  "ps_cache (ss_state (snd (resource_lookup env ctx url ss))) = ps_cache (ss_state ss)"
  "ps_mirrors (ss_state (snd (resource_lookup env ctx url ss))) = ps_mirrors (ss_state ss)"
  by (simp_all add: resource_lookup_def split_beta session_simps)

lemma mirror_session_server:
  "\<exists>e. ss_server (snd (mirror_session env mirror rewritten q server ss)) = Some (q, e)"
  unfolding mirror_session_def Let_def
  by (auto simp: relay_counted_server split: prod.splits bool.splits)

lemma mitm_mirror_contacts:
  "contacts {Verified mirror, Verified host} ss (snd (mitm_mirror env host mirror rewritten ss))"
proof -
  have m: "contacts {Verified mirror, Verified host} ss (snd (mirror_session env mirror rewritten q server ss'))"
    if "q = Verified mirror \<or> q = Verified host" for q server ss'
    using mirror_session_server [of env mirror rewritten q server ss'] that by (auto simp: contacts_def)
  show ?thesis
    by (auto simp: mitm_mirror_def Let_def m contacts_refl session_simps split: outcome.splits)
qed

lemma mitm_direct_contacts: "contacts {Verified host} ss (snd (mitm_direct env ctx host path req ss))"
proof -
  obtain hit ss1 where look: "resource_lookup env ctx (resource_url host path) ss = (hit, ss1)"
    by (cases "resource_lookup env ctx (resource_url host path) ss")
  then have ss1: "ss_server ss1 = ss_server ss" by (metis resource_lookup_parts(1) snd_conv)
  show ?thesis
  proof (cases hit)
    case (Some cached)
    then show ?thesis by (simp add: mitm_direct_def Let_def look ss1 contacts_refl)
  next
    case None
    show ?thesis
    proof (cases "ce_connect env 0 (Verified host)")
      case (Ok server)
      have "\<exists>e. ss_server (snd (mitm_direct env ctx host path req ss)) = Some (Verified host, e)"
        unfolding mitm_direct_def Let_def look None Ok
        by (auto simp: direct_cached_server relay_counted_server None Ok split: prod.splits bool.splits)
      then show ?thesis by (auto simp: contacts_def)
    qed (simp_all add: mitm_direct_def Let_def look None ss1 contacts_refl)
  qed
qed

lemma spoof_connect_requests:
  "spoof_connect env real_host fake_sni = Ok (q, server) \<Longrightarrow> q \<in> {Spoofed real_host fake_sni, Verified real_host}"
  by (auto simp: spoof_connect_def split: outcome.splits)

lemma mitm_spoof_contacts:
  "contacts {Spoofed real_host fake_sni, Verified real_host} ss
     (snd (mitm_spoof env ctx real_host fake_sni path req ss))"
proof -
  let ?Q = "{Spoofed real_host fake_sni, Verified real_host}"
  obtain hit ss1 where look: "resource_lookup env ctx (resource_url real_host path) ss = (hit, ss1)"
    by (cases "resource_lookup env ctx (resource_url real_host path) ss")
  then have ss1: "ss_server ss1 = ss_server ss" by (metis resource_lookup_parts(1) snd_conv)
  show ?thesis
  proof (cases hit)
    case (Some cached)
    then show ?thesis by (simp add: mitm_spoof_def Let_def look ss1 contacts_refl)
  next
    case None
    show ?thesis
    proof (cases "spoof_connect env real_host fake_sni")
      case (Ok a)
      obtain q server where a: "a = (q, server)" by (cases a)
      have q: "q \<in> ?Q" using spoof_connect_requests Ok a by blast
      have "\<exists>e. ss_server (snd (mitm_spoof env ctx real_host fake_sni path req ss)) = Some (q, e)"
        unfolding mitm_spoof_def Let_def look None Ok a
        by (auto simp: spoof_assets_server spoof_cached_server copy_counted_server split: prod.splits bool.splits)
      with q show ?thesis by (auto simp: contacts_def)
    qed (simp_all add: mitm_spoof_def Let_def look None ss1 contacts_refl)
  qed
qed

text \<open>What the rules allow a session to be connected to.\<close>

definition allowed_upstreams :: "handler_ctx \<Rightarrow> string \<Rightarrow> string \<Rightarrow> connect_request set" where
  "allowed_upstreams ctx host path =
     (case match_domain (hc_intercept_matcher ctx) host path of
        Some (Proxy mirror) \<Rightarrow> {Verified mirror, Verified host}
      | Some (SniSpoof sni real_host) \<Rightarrow>
          if hc_sni_spoof_enabled ctx
          then {Spoofed (resolve_real_host real_host host) sni, Verified (resolve_real_host real_host host)}
          else {Verified host}
      | Some (Redirect _) \<Rightarrow> {}
      | Some (Abort _) \<Rightarrow> {}
      | None \<Rightarrow> {Verified host})"

definition first_request :: "conn_env \<Rightarrow> string" where
  "first_request env =
     (case ce_handshake env of
        None \<Rightarrow> []
      | Some client_tls \<Rightarrow> (case fst (read_some True 8192 client_tls) of Got s \<Rightarrow> s | _ \<Rightarrow> []))"

lemma perform_mitm_contacts:
  "contacts (allowed_upstreams ctx host (request_path (first_request env))) ss (snd (perform_mitm env ctx host ss))"
proof (cases "ce_handshake env")
  case None
  then show ?thesis by (simp add: perform_mitm_def contacts_refl)
next
  case (Some client_tls)
  obtain r client1 where r: "read_some True 8192 client_tls = (r, client1)"
    by (cases "read_some True 8192 client_tls")
  show ?thesis
  proof (cases "\<exists>s. r = Got s \<and> s \<noteq> []")
    case False
    with Some r show ?thesis
      by (auto simp: perform_mitm_def Let_def contacts_def split: wire_result.splits)
  next
    case True
    then obtain s where s: "r = Got s" "s \<noteq> []" by blast
    let ?ss1 = "ss\<lparr>ss_client := client1, ss_below := Some (ss_client ss)\<rparr>"
    have first: "first_request env = s" using Some r s by (simp add: first_request_def)
    have same: "contacts Q ?ss1 x \<Longrightarrow> contacts Q ss x" for Q x by (simp add: contacts_def)
    have pm: "perform_mitm env ctx host ss =
       (case resolve_upstream host (request_path s) ctx s of
          RedirectTo response \<Rightarrow> reply response ?ss1
        | ProxyMirror mirror rewritten_request \<Rightarrow> mitm_mirror env host mirror rewritten_request ?ss1
        | SpoofSni real_host fake_sni \<Rightarrow> mitm_spoof env ctx real_host fake_sni (request_path s) s ?ss1
        | DirectUp \<Rightarrow> mitm_direct env ctx host (request_path s) s ?ss1
        | AbortUp \<Rightarrow> (Ok (), ?ss1))"
      using Some r s by (simp add: perform_mitm_def Let_def)
    show ?thesis
    proof (cases "match_domain (hc_intercept_matcher ctx) host (request_path s)")
      case None
      then show ?thesis
        by (simp add: pm first resolve_upstream_def allowed_upstreams_def same [OF mitm_direct_contacts])
    next
      case (Some action)
      show ?thesis
      proof (cases action)
        case (Proxy mirror)
        with Some show ?thesis
          by (simp add: pm first resolve_upstream_def allowed_upstreams_def same [OF mitm_mirror_contacts])
      next
        case (SniSpoof sni real)
        with Some show ?thesis
          by (simp add: pm first resolve_upstream_def allowed_upstreams_def
              same [OF mitm_direct_contacts] same [OF mitm_spoof_contacts])
      next
        case (Redirect target)
        with Some show ?thesis
          by (simp add: pm first resolve_upstream_def same [OF reply_contacts])
      next
        case (Abort x)
        with Some show ?thesis
          by (simp add: pm first resolve_upstream_def contacts_def)
      qed
    qed
  qed
qed

definition connect_upstreams :: "conn_env \<Rightarrow> handler_ctx \<Rightarrow> string \<Rightarrow> nat \<Rightarrow> connect_request set" where
  "connect_upstreams env ctx host port =
     (if is_aborted ctx host then {}
      else
        (case classify (hc_domain_rules ctx) host of
           ActBlock \<Rightarrow> {}
         | ActDirect \<Rightarrow> {BySystem host port}
         | ActProxy \<Rightarrow>
             if hc_mitm_enabled ctx then allowed_upstreams ctx host (request_path (first_request env))
             else {Resolved host port}))"

lemma send_client_server: "ss_server (snd (send_client s ss)) = ss_server ss"
  by (simp add: send_client_def split_beta)

lemma establish_tunnel_contacts:
  "contacts {if use_doh then Resolved host port else BySystem host port} ss
     (snd (establish_tunnel env host port use_doh ss))"
proof (cases "ce_connect env 0 (if use_doh then Resolved host port else BySystem host port)")
  case (Ok target)
  obtain e where "ss_server (snd (relay_counted env (if use_doh then Resolved host port else BySystem host port) target ss))
      = Some (if use_doh then Resolved host port else BySystem host port, e)"
    using relay_counted_server by blast
  with Ok show ?thesis by (simp only: establish_tunnel_def Let_def outcome.case) (rule contacts_new, auto)
qed (simp_all add: establish_tunnel_def Let_def contacts_refl)

text \<open>An error that is only logged: the result is \<open>Ok\<close>, the session is the same.\<close>

lemma swallow_error:
  "snd ((case x of (Panic, ss2) \<Rightarrow> (Panic, ss2) | (_, ss2) \<Rightarrow> (Ok (), ss2)) :: (handler_error, unit) outcome \<times> session) = snd x"
  for x :: "(handler_error, unit) outcome \<times> session"
  by (auto split: prod.splits outcome.splits)

lemma connect_to_contacts: "contacts (connect_upstreams env ctx host port) ss (snd (connect_to env ctx host port ss))"
proof (cases "is_aborted ctx host")
  case True
  then show ?thesis by (simp add: connect_to_def reply_contacts)
next
  case False
  obtain ok ss1 where send: "send_client established ss = (ok, ss1)" by (cases "send_client established ss")
  then have ss1: "ss_server ss1 = ss_server ss" by (metis send_client_server snd_conv)
  have same: "contacts Q ss1 x \<Longrightarrow> contacts Q ss x" for Q x by (simp add: contacts_def ss1)
  show ?thesis
  proof (cases "classify (hc_domain_rules ctx) host")
    case ActBlock
    with False show ?thesis by (simp add: connect_to_def connect_action_def reply_contacts)
  next
    case ActDirect
    with False show ?thesis
      using establish_tunnel_contacts [of False host port ss1 env]
      by (cases ok) (simp_all add: connect_to_def connect_action_def send connect_upstreams_def same contacts_refl ss1)
  next
    case ActProxy
    show ?thesis
    proof (cases "hc_mitm_enabled ctx")
      case True
      have "contacts (allowed_upstreams ctx host (request_path (first_request env))) ss
          (snd (perform_mitm env ctx host ss1))"
        by (rule same) (rule perform_mitm_contacts)
      then show ?thesis
        using False ActProxy True
        by (cases ok) (simp_all add: swallow_error connect_to_def connect_action_def send connect_upstreams_def contacts_refl ss1)
    next
      case nomitm: False
      with False ActProxy show ?thesis
        using establish_tunnel_contacts [of True host port ss1 env]
        by (cases ok) (simp_all add: connect_to_def connect_action_def send connect_upstreams_def same contacts_refl ss1)
    qed
  qed
qed

lemma forward_http_server:
  "ss_server (snd (forward_http env req host port ss)) = ss_server ss
     \<or> (\<exists>ip e. ce_resolve env host = Ok ip
          \<and> ss_server (snd (forward_http env req host port ss)) = Some (ToAddress ip port, e))"
proof (cases "ce_resolve env host")
  case (Ok ip)
  show ?thesis
  proof (cases "ce_connect env 0 (ToAddress ip port)")
    case conn: (Ok target)
    obtain w t1 where w: "write_all (rewrite_http_request req) target = (w, t1)"
      by (cases "write_all (rewrite_http_request req) target")
    obtain rr ss1 where rel: "relay env (ToAddress ip port) t1 ss = (rr, ss1)"
      by (cases "relay env (ToAddress ip port) t1 ss")
    with relay_server [of env "ToAddress ip port" t1 ss] obtain e where "ss_server ss1 = Some (ToAddress ip port, e)"
      by auto
    with Ok conn w rel show ?thesis
      by (cases w; cases rr) (auto simp: forward_http_def session_simps)
  qed (simp_all add: forward_http_def Ok)
qed (simp_all add: forward_http_def)

lemma handler_contacts:
  assumes "ss' = snd (handle_connection env ctx ss)" and "ss_server ss' \<noteq> ss_server ss"
  shows "\<exists>buf rest host port q server. sent_bytes (ep_reads (ss_client ss)) = buf @ rest \<and> ss_server ss' = Some (q, server)
     \<and> (parse_connect_target (first_line buf) = Some (host, port) \<and> q \<in> connect_upstreams env ctx host port
        \<or> parse_http_target (first_line buf) = Some (host, port)
           \<and> classify (hc_domain_rules ctx) host \<noteq> ActBlock
           \<and> (\<exists>ip. ce_resolve env host = Ok ip \<and> q = ToAddress ip port))"
proof -
  consider (connect) "ss' = snd (handle_connect env ctx ss)" | (http) "ss' = snd (handle_http env ctx ss)"
    using assms unfolding handle_connection_def
    by (auto split: wire_result.splits if_splits)
  then show ?thesis
  proof cases
    case connect
    obtain stop buf client1 where head: "read_head False 4096 8192 [] (ss_client ss) = (stop, buf, client1)"
      by (metis prod_cases3)
    let ?ss1 = "ss\<lparr>ss_client := client1\<rparr>"
    have no: "ss_server (snd (reply t ?ss1)) = ss_server ss" for t
      using reply_contacts [of "{}" ?ss1 t] by (auto simp: contacts_def)
    from connect assms(2) obtain pos host port where target: "stop = HeaderAt pos"
        "parse_connect_target (first_line buf) = Some (host, port)"
        "ss' = snd (connect_to env ctx host port ?ss1)"
      using no [of bad_request]
      by (auto simp: handle_connect_def head Let_def split: header_stop.splits option.splits)
    obtain q server where "ss_server ss' = Some (q, server)" "q \<in> connect_upstreams env ctx host port"
      using connect_to_contacts [of env ctx host port ?ss1] assms(2) target(3) by (auto simp: contacts_def)
    with read_head_sent [OF head] target(2) show ?thesis by auto
  next
    case http
    obtain stop buf client1 where head: "read_head False 4096 65536 [] (ss_client ss) = (stop, buf, client1)"
      by (metis prod_cases3)
    let ?ss1 = "ss\<lparr>ss_client := client1\<rparr>"
    have no: "ss_server (snd (reply t ?ss1)) = ss_server ss" for t
      using reply_contacts [of "{}" ?ss1 t] by (auto simp: contacts_def)
    from http assms(2) no obtain host port where target:
        "parse_http_target (first_line buf) = Some (host, port)"
        "classify (hc_domain_rules ctx) host \<noteq> ActBlock"
        "ss' = snd (forward_http env (utf8_lossy buf) host port ?ss1)"
      by (auto simp: handle_http_def head Let_def swallow_error
          split: header_stop.splits option.splits if_splits domain_action.splits)
    obtain ip e where "ce_resolve env host = Ok ip" "ss_server ss' = Some (ToAddress ip port, e)"
      using forward_http_server [of env "utf8_lossy buf" host port ?ss1] target(3) assms(2) by auto
    with read_head_sent [OF head] target(1,2) show ?thesis by auto
  qed
qed

text \<open>
  Property C1.
  Whatever the client sends and the network does, a connection of the proxy reaches only the
  upstream its rules allow: for a CONNECT to a host, none if the host is blocked or aborted, the
  host itself by the system's resolver if it is direct, the host by the proxy's resolver if it is
  proxied without interception, and otherwise the host, or the mirror or the spoofed connection that
  the first matching intercept rule names for the requested path; for a plain HTTP request to a host
  that is not blocked, the address the proxy's resolver gave for it.
\<close>

theorem contacts_follow_rules:
  assumes "handle_connection env ctx ss = (result, ss')"
    and "ss_server ss = None" and "ss_server ss' = Some (q, server)"
  shows "\<exists>buf rest host port. sent_bytes (ep_reads (ss_client ss)) = buf @ rest
     \<and> (parse_connect_target (first_line buf) = Some (host, port) \<and> q \<in> connect_upstreams env ctx host port
        \<or> parse_http_target (first_line buf) = Some (host, port)
           \<and> classify (hc_domain_rules ctx) host \<noteq> ActBlock
           \<and> (\<exists>ip. ce_resolve env host = Ok ip \<and> q = ToAddress ip port))"
proof -
  have "ss' = snd (handle_connection env ctx ss)" "ss_server ss' \<noteq> ss_server ss" using assms by auto
  from handler_contacts [OF this] assms(3) show ?thesis by auto
qed

section \<open>Where the handler can panic\<close>

lemma relay_result_ok [simp]:
  "fst (relay_counted env q server ss) = Ok ()" "fst (relay_uncounted env q server ss) = Ok ()"
  by (simp_all add: relay_counted_def relay_uncounted_def split_beta)

lemma reply_no_panic [simp]: "fst (reply s ss) \<noteq> Panic"
  by (simp add: reply_def split_beta)

lemma copy_counted_ok [simp]: "fst (copy_counted env q server ss) = Ok ()"
  by (simp add: copy_counted_def split_beta)

lemma serve_cached_no_panic [simp]: "fst (serve_cached cached ss) \<noteq> Panic"
  by (simp add: serve_cached_def split_beta)

definition huge_length :: "string \<Rightarrow> bool" where
  "huge_length buf \<longleftrightarrow> (\<exists>ct n. parse_response_headers buf = (Some ct, Some n) \<and> 2 ^ 63 \<le> n)"

lemma cache_response_panic:
  assumes "fst (cache_response env ctx url header_end buf q server ss) = Panic"
  shows "huge_length buf"
  using assms unfolding cache_response_def Let_def huge_length_def
  by (auto split: prod.splits bool.splits option.splits if_splits)

text \<open>A server announced a body of \<open>2 ^ 63\<close> bytes or more.\<close>

definition announced_huge :: "endpoint \<Rightarrow> bool" where
  "announced_huge server \<longleftrightarrow> (\<exists>buf rest. sent_bytes (ep_reads server) = buf @ rest \<and> huge_length buf)"

lemma read_head_announced:
  "read_head timed 8192 limit [] server = (stop, buf, server1) \<Longrightarrow> huge_length buf \<Longrightarrow> announced_huge server"
  unfolding announced_huge_def
  using read_head_sent [of timed 8192 limit "[]" server stop buf server1] by auto

lemma direct_cached_panic:
  assumes "fst (direct_cached env ctx url q server ss) = Panic"
  shows "announced_huge server"
proof -
  obtain stop buf server1 where head: "read_head False 8192 65536 [] server = (stop, buf, server1)"
    by (metis prod_cases3)
  with assms have "huge_length buf"
    by (auto simp: direct_cached_def split: header_stop.splits dest: cache_response_panic)
  with head show ?thesis by (rule read_head_announced)
qed

lemma spoof_cached_panic:
  assumes "fst (spoof_cached env ctx url q server ss) = Panic"
  shows "announced_huge server"
proof -
  obtain stop buf server1 where head: "read_head True 8192 65536 [] server = (stop, buf, server1)"
    by (metis prod_cases3)
  with assms have "huge_length buf"
    by (auto simp: spoof_cached_def split: header_stop.splits if_splits prod.splits bool.splits
        dest: cache_response_panic)
  with head show ?thesis by (rule read_head_announced)
qed

lemma spoof_assets_no_panic [simp]: "fst (spoof_assets env q server ss) \<noteq> Panic"
  unfolding spoof_assets_def Let_def
  by (auto split: header_stop.splits if_splits prod.splits bool.splits)

text \<open>The reasons for a panic that the handler does not have itself.\<close>

definition env_panics :: "conn_env \<Rightarrow> bool" where
  "env_panics env \<longleftrightarrow>
     (\<exists>i q. ce_connect env i q = Panic) \<or> (\<exists>h. ce_resolve env h = Panic)
     \<or> (\<exists>i q server. ce_connect env i q = Ok server \<and> announced_huge server)"

lemma env_panics_intros:
  "ce_connect env i q = Panic \<Longrightarrow> env_panics env"
  "ce_resolve env h = Panic \<Longrightarrow> env_panics env"
  "ce_connect env i q = Ok server \<Longrightarrow> announced_huge server \<Longrightarrow> env_panics env"
  unfolding env_panics_def by blast+

lemma announced_huge_write: "announced_huge (snd (write_all s server)) = announced_huge server"
  by (simp add: announced_huge_def)

lemma mitm_mirror_panic: "fst (mitm_mirror env host mirror rewritten ss) = Panic \<Longrightarrow> env_panics env"
  by (auto simp: mitm_mirror_def mirror_session_def Let_def intro: env_panics_intros
      split: outcome.splits prod.splits bool.splits)

lemma mitm_direct_panic:
  assumes "fst (mitm_direct env ctx host path req ss) = Panic"
  shows "env_panics env"
proof -
  obtain hit ss1 where look: "resource_lookup env ctx (resource_url host path) ss = (hit, ss1)"
    by (cases "resource_lookup env ctx (resource_url host path) ss")
  show ?thesis
  proof (cases "ce_connect env 0 (Verified host)")
    case (Ok server)
    obtain ok server1 where w: "(if req = [] then (True, server) else write_all req server) = (ok, server1)"
      by (cases "if req = [] then (True, server) else write_all req server")
    from assms have "announced_huge server1"
      unfolding mitm_direct_def Let_def look
      by (auto simp: Ok w intro: direct_cached_panic split: option.splits prod.splits bool.splits if_splits)
    moreover have "announced_huge server1 = announced_huge server"
      using w announced_huge_write [of req server] by (auto split: if_splits)
    ultimately show ?thesis using Ok env_panics_intros(3) by simp
  next
    case (Err e)
    with assms show ?thesis
      unfolding mitm_direct_def Let_def look by (auto split: option.splits)
  next
    case Panic
    then show ?thesis by (rule env_panics_intros)
  qed
qed

lemma mitm_spoof_panic:
  assumes "fst (mitm_spoof env ctx real_host fake_sni path req ss) = Panic"
  shows "env_panics env"
proof -
  obtain hit ss1 where look: "resource_lookup env ctx (resource_url real_host path) ss = (hit, ss1)"
    by (cases "resource_lookup env ctx (resource_url real_host path) ss")
  show ?thesis
  proof (cases "spoof_connect env real_host fake_sni")
    case (Ok a)
    obtain q server where a: "a = (q, server)" by (cases a)
    obtain ok server1 where w: "(if req = [] then (True, server) else write_all req server) = (ok, server1)"
      by (cases "if req = [] then (True, server) else write_all req server")
    from assms have "announced_huge server1"
      unfolding mitm_spoof_def Let_def look
      by (auto simp: Ok a w intro: spoof_cached_panic split: option.splits prod.splits bool.splits if_splits)
    moreover have "announced_huge server1 = announced_huge server"
      using w announced_huge_write [of req server] by (auto split: if_splits)
    moreover obtain i q' where "ce_connect env i q' = Ok server"
      using Ok a by (auto simp: spoof_connect_def split: outcome.splits)
    ultimately show ?thesis using env_panics_intros(3) by simp
  next
    case (Err e)
    with assms show ?thesis
      unfolding mitm_spoof_def Let_def look by (auto split: option.splits)
  next
    case Panic
    then show ?thesis
      by (auto simp: spoof_connect_def intro: env_panics_intros split: outcome.splits)
  qed
qed

lemma perform_mitm_panic: "fst (perform_mitm env ctx host ss) = Panic \<Longrightarrow> env_panics env"
  by (auto simp: perform_mitm_def Let_def
      intro: mitm_mirror_panic mitm_direct_panic mitm_spoof_panic
      split: option.splits prod.splits wire_result.splits if_splits upstream_decision.splits)

lemma perform_mitm_panic': "perform_mitm env ctx host ss = (Panic, ss') \<Longrightarrow> env_panics env"
  by (rule perform_mitm_panic [of env ctx host ss]) simp

lemma connect_to_panic: "fst (connect_to env ctx host port ss) = Panic \<Longrightarrow> env_panics env"
  by (auto simp: connect_to_def connect_action_def establish_tunnel_def Let_def
      intro: env_panics_intros perform_mitm_panic'
      split: option.splits prod.splits bool.splits if_splits domain_action.splits outcome.splits)

lemma handle_connect_panic: "fst (handle_connect env ctx ss) = Panic \<Longrightarrow> env_panics env"
  by (auto simp: handle_connect_def Let_def intro: connect_to_panic
      split: prod.splits header_stop.splits option.splits)

lemma forward_http_panic: "forward_http env req host port ss = (Panic, ss') \<Longrightarrow> env_panics env"
  by (auto simp: forward_http_def Let_def intro: env_panics_intros
      split: outcome.splits prod.splits bool.splits relay_result.splits)

lemma handle_http_panic: "fst (handle_http env ctx ss) = Panic \<Longrightarrow> env_panics env"
  by (auto simp: handle_http_def Let_def intro: forward_http_panic
      split: prod.splits header_stop.splits option.splits if_splits domain_action.splits outcome.splits)

lemma handle_connection_panic: "fst (handle_connection env ctx ss) = Panic \<Longrightarrow> env_panics env"
  by (auto simp: handle_connection_def intro: handle_connect_panic handle_http_panic
      split: wire_result.splits if_splits)

end
