(* ===== verification/Handler_Properties.thy ===== *)
theory Handler_Properties
  imports Proxy_Handler
begin

text \<open>
  What the handler of \<open>Proxy_Handler\<close> guarantees: who is contacted, where it can panic, what the
  cache holds and serves, and what becomes of a mirror that fails, each with a run of a sample
  session.
\<close>

section \<open>A sample session\<close>

text \<open>A session to try the handler on: an intercepted CONNECT to \<open>github.com\<close>.\<close>

definition peer :: "read_event list \<Rightarrow> endpoint" where
  "peer es = \<lparr>ep_reads = es, ep_written = [], ep_room = None\<rparr>"

definition full_relay :: "endpoint \<Rightarrow> endpoint \<Rightarrow> relay_result \<times> endpoint \<times> endpoint" where
  "full_relay a b =
     (let xs = sent_bytes (ep_reads a); ys = sent_bytes (ep_reads b)
      in (Relayed (length xs) (length ys),
          a\<lparr>ep_reads := [], ep_written := ep_written a @ ys\<rparr>,
          b\<lparr>ep_reads := [], ep_written := ep_written b @ xs\<rparr>))"

definition sample_ctx :: "intercept_rule list \<Rightarrow> handler_ctx" where
  "sample_ctx rules =
     \<lparr>hc_mitm_enabled = True, hc_domain_rules = github_defaults,
      hc_intercept_matcher = matcher_new rules, hc_hash = pad_hash,
      hc_default_fake_sni = ''www.baidu.com'', hc_sni_spoof_enabled = True, hc_proxy_port = 2830,
      hc_idle_timeout_secs = 300\<rparr>"

definition image_request :: string where
  "image_request = ''GET /a.png HTTP/1.1'' @ header_sep"

definition sample_conn :: "string \<Rightarrow> read_event list \<Rightarrow> conn_env" where
  "sample_conn req answer =
     \<lparr>ce_handshake = Some (peer [Arrived req]),
      ce_connect = (\<lambda>i q. case q of Verified d \<Rightarrow> Ok (peer answer) | _ \<Rightarrow> Err SystemFailed),
      ce_resolve = (\<lambda>h. Ok (V4 140 82 121 3)), ce_relay = full_relay, ce_schedule = (\<lambda>i. False),
      ce_failed_at = 0, ce_response_time = 1, ce_get_time = 10, ce_put_time = 10, ce_put_write = Written\<rparr>"

definition sample_state :: proxy_state where
  "sample_state =
     \<lparr>ps_cache = rc_new [] None default_cache, ps_mirrors = default_tracker, ps_metrics = metrics_new 0,
      ps_tasks = []\<rparr>"

definition sample_session :: "string \<Rightarrow> session" where
  "sample_session request_text =
     \<lparr>ss_client = peer [Arrived request_text], ss_below = None, ss_server = None, ss_state = sample_state\<rparr>"

definition connect_github :: string where
  "connect_github = ''CONNECT github.com:443 HTTP/1.1'' @ header_sep"

lemma read_some_peer: "s \<noteq> [] \<Longrightarrow> length s \<le> n \<Longrightarrow> read_some timed n (peer [Arrived s]) = (Got s, peer [])"
  by (simp add: read_some_def peer_def)

lemma read_head_peer:
  "s \<noteq> [] \<Longrightarrow> length s \<le> n \<Longrightarrow> find_header_end s = Some pos
     \<Longrightarrow> read_head timed n limit [] (peer [Arrived s]) = (HeaderAt pos, s, peer [])"
  by (subst read_head.simps) (simp add: read_some_peer)

text \<open>An answer of a server with a status line, a type, a length and a body.\<close>

definition answer_lines :: "string \<Rightarrow> string \<Rightarrow> nat \<Rightarrow> string list" where
  "answer_lines status content_type n =
     [status, ''Content-Type: '' @ content_type, ''Content-Length: '' @ show_nat n]"

definition answer :: "string \<Rightarrow> string \<Rightarrow> nat \<Rightarrow> string \<Rightarrow> string" where
  "answer status content_type n body = join crlf (answer_lines status content_type n) @ header_sep @ body"

definition plain_text :: "string \<Rightarrow> bool" where
  "plain_text s \<longleftrightarrow> s \<noteq> [] \<and> LF \<notin> set s \<and> CR \<notin> set s \<and> ascii s"

lemma answer_lines_good:
  assumes "plain_text status" and "plain_text content_type"
  shows "\<forall>l \<in> set (answer_lines status content_type n). header_line l"
    and "\<forall>l \<in> set (answer_lines status content_type n). ascii l"
proof -
  have digits: "LF \<notin> set (show_nat n)" "CR \<notin> set (show_nat n)" "ascii (show_nat n)"
    using show_nat_no_ws [of n] show_nat_is_digit [of n] by (auto simp: is_ws_def list_all_iff is_digit_def)
  show "\<forall>l \<in> set (answer_lines status content_type n). header_line l"
    using assms digits(1,2) by (simp add: answer_lines_def plain_text_def header_line_def)
  show "\<forall>l \<in> set (answer_lines status content_type n). ascii l"
    using assms digits(3) unfolding answer_lines_def plain_text_def
    by (simp add: ball_Un)
qed

lemma answer_head_end:
  assumes "plain_text status" and "plain_text content_type"
  shows "find_header_end (answer status content_type n body)
    = Some (length (join crlf (answer_lines status content_type n)))"
  unfolding find_header_end_def answer_def
  by (rule find_sep_join) (simp add: answer_lines_def, rule answer_lines_good [OF assms])

lemma answer_body: "drop (length (join crlf (answer_lines status ct n)) + 4) (answer status ct n body) = body"
  by (simp add: answer_def header_sep_def)

lemma scan_answer_lines:
  "fold scan_header_line (drop 1 (answer_lines status ct n)) (None, None) =
     (Some (trim ct), parse_uint (u64_size - 1) (trim (show_nat n)))"
proof -
  define a b where "a = ''Content-Type: '' @ ct" and "b = ''Content-Length: '' @ show_nat n"
  have "drop 1 (answer_lines status ct n) = [a, b]" by (simp add: answer_lines_def a_def b_def)
  then show ?thesis
    by (simp only: fold_simps a_def b_def scan_header_values snd_conv fst_conv)
qed

lemma parse_answer:
  assumes "plain_text status" and "plain_text content_type" and "n < u64_size"
  shows "parse_response_headers (answer status content_type n body) = (Some (trim content_type), Some n)"
proof -
  let ?head = "join crlf (answer_lines status content_type n)"
  note good = answer_lines_good [OF assms(1,2), of n]
  have head: "take (length ?head) (answer status content_type n body) = ?head"
    by (simp add: answer_def)
  have ne: "answer_lines status content_type n \<noteq> []" by (simp add: answer_lines_def)
  have "parse_uint (u64_size - 1) (trim (show_nat n)) = Some n"
    using assms(3) by (simp add: trim_no_ws show_nat_no_ws parse_show_nat)
  then show ?thesis
    unfolding parse_response_headers_def answer_head_end [OF assms(1,2)] option.case head
      utf8_lossy_ascii [OF ascii_join [OF good(2)]] str_lines_join [OF ne good(1)] scan_answer_lines
    by simp
qed

section \<open>What is stored\<close>

text \<open>tokio's copy only appends to what was written before.\<close>

definition relay_appends :: "conn_env \<Rightarrow> bool" where
  "relay_appends env \<longleftrightarrow>
     (\<forall>a b. case ce_relay env a b of (r, a', b') \<Rightarrow>
        (\<exists>t. ep_written a' = ep_written a @ t) \<and> (\<exists>t. ep_written b' = ep_written b @ t))"

lemma relay_appends_full: "ce_relay env = full_relay \<Longrightarrow> relay_appends env"
  by (simp add: relay_appends_def full_relay_def Let_def)

lemma relay_uncounted_appends:
  assumes "relay_appends env" and "relay_uncounted env q server ss = (r, ss')"
  shows "\<exists>t. ep_written (ss_client ss') = ep_written (ss_client ss) @ t"
    and "ps_cache (ss_state ss') = ps_cache (ss_state ss)"
proof -
  obtain rr a b where rr: "ce_relay env (ss_client ss) server = (rr, a, b)"
    by (metis prod_cases3)
  with assms(2) have "ss_client ss' = a"
    by (auto simp: relay_uncounted_def relay_def)
  moreover have "\<exists>t. ep_written a = ep_written (ss_client ss) @ t"
    using assms(1) [unfolded relay_appends_def, rule_format, of "ss_client ss" server] rr by simp
  ultimately show "\<exists>t. ep_written (ss_client ss') = ep_written (ss_client ss) @ t" by simp
  from rr assms(2) show "ps_cache (ss_state ss') = ps_cache (ss_state ss)"
    by (auto simp: relay_uncounted_def relay_def)
qed

lemma store_body_cache:
  "ps_cache (ss_state (store_body env ctx url ct body ss)) =
     snd (rc_put (hc_hash ctx) (ce_put_time env) (ce_put_write env) url
       \<lparr>cr_content_type = ct, cr_data = body, cr_etag = None, cr_last_modified = None\<rparr> (ps_cache (ss_state ss)))"
  "ss_client (store_body env ctx url ct body ss) = ss_client ss"
  by (auto simp: store_body_def Let_def session_simps split: prod.splits outcome.splits)

lemma cache_response_stores:
  assumes relay: "relay_appends env"
    and run: "cache_response env ctx url header_end buf q server ss = (r, ss')"
    and changed: "ps_cache (ss_state ss') \<noteq> ps_cache (ss_state ss)"
  shows "\<exists>ct body s t. parse_response_headers buf = (Some ct, Some (length body))
     \<and> body = (case header_end of Some pos \<Rightarrow> drop (pos + 4) buf | None \<Rightarrow> []) @ s
     \<and> ps_cache (ss_state ss') = snd (rc_put (hc_hash ctx) (ce_put_time env) (ce_put_write env) url
          \<lparr>cr_content_type = ct, cr_data = body, cr_etag = None, cr_last_modified = None\<rparr> (ps_cache (ss_state ss)))
     \<and> ep_written (ss_client ss') = ep_written (ss_client ss) @ buf @ s @ t"
proof -
  let ?start = "case header_end of Some pos \<Rightarrow> drop (pos + 4) buf | None \<Rightarrow> []"
  obtain ok ss1 where send: "send_client buf ss = (ok, ss1)" by (cases "send_client buf ss")
  note ss1 = send_client_parts [OF send]
  have ok: "ok" using run changed ss1 by (cases ok) (auto simp: cache_response_def send)
  let ?ss2 = "on_metrics (add_bytes_received (of_nat (length buf))) ss1"
  have same2: "ps_cache (ss_state ?ss2) = ps_cache (ss_state ss)"
    using ss1 by (simp add: session_simps)
  have no_relay: "relay_uncounted env q sv ?ss2 \<noteq> (r, ss')" for sv
    using relay_uncounted_appends(2) [OF relay] same2 changed by metis
  obtain ct n where h: "parse_response_headers buf = (Some ct, Some n)" and cacheable: "is_cacheable url ct"
    using run no_relay unfolding cache_response_def send
    by (auto simp: ok Let_def split: option.splits if_splits prod.splits)
  obtain fok body c1 sv1 mx where fwd:
    "forward_body n ?start (ss_client ?ss2) server (ps_metrics (ss_state ?ss2)) = (fok, body, c1, sv1, mx)"
    by (metis prod_cases5)
  let ?ss3 = "on_metrics (\<lambda>_. mx) (?ss2\<lparr>ss_client := c1\<rparr>)"
  have same3: "ps_cache (ss_state ?ss3) = ps_cache (ss_state ss)"
    using same2 by (simp add: session_simps)
  have no_relay3: "relay_uncounted env q sv ?ss3 \<noteq> (r, ss')" for sv
    using relay_uncounted_appends(2) [OF relay] same3 changed by metis
  have same: "ps_cache (ss_state (x\<lparr>ss_server := v\<rparr>)) = ps_cache (ss_state x)" for x v by simp
  have fok: "fok" and len: "length body = n"
    and final: "relay_uncounted env q sv1 (store_body env ctx url ct body ?ss3) = (r, ss')"
    using run no_relay3 changed same2 same3 unfolding cache_response_def send
    by (auto simp: ok h cacheable Let_def fwd split: if_splits)
  obtain s where s: "body = ?start @ s" "ep_written c1 = ep_written (ss_client ?ss2) @ s"
    using forward_body_result [OF fwd] fok by blast
  obtain t where t: "ep_written (ss_client ss') = ep_written c1 @ t"
    using relay_uncounted_appends(1) [OF relay final] by (auto simp: store_body_cache session_simps)
  have "ep_written (ss_client ss1) = ep_written (ss_client ss) @ buf"
    using ss1 ok write_all_ok by simp
  then have "ep_written (ss_client ss') = ep_written (ss_client ss) @ buf @ s @ t"
    using s(2) t by (simp add: session_simps)
  moreover have "ps_cache (ss_state ss') = snd (rc_put (hc_hash ctx) (ce_put_time env) (ce_put_write env) url
      \<lparr>cr_content_type = ct, cr_data = body, cr_etag = None, cr_last_modified = None\<rparr> (ps_cache (ss_state ss)))"
    using relay_uncounted_appends(2) [OF relay final] same3 by (simp add: store_body_cache)
  ultimately show ?thesis using h len s(1) by blast
qed

lemma write_none: "(if req = [] then (True, server) else write_all req server) = (ok, server1)
    \<Longrightarrow> ep_reads server1 = ep_reads server"
  by (metis prod.inject write_all_pending)

text \<open>
  Property C12.
  The cache only keeps what the client got: when a direct session changes the table or the files, the
  server's answer had a complete header with a type and a length, the body that is put for the
  requested URL has exactly that length, and the client received the header and this very body before
  anything else that was sent to it.
\<close>

theorem cached_is_what_client_got:
  assumes "relay_appends env" and "mitm_direct env ctx host path req ss = (r, ss')"
    and "ps_cache (ss_state ss') \<noteq> ps_cache (ss_state ss)"
  shows "\<exists>buf pos ct body t. find_header_end buf = Some pos
     \<and> parse_response_headers buf = (Some ct, Some (length body))
     \<and> ep_written (ss_client ss') = ep_written (ss_client ss) @ take (pos + 4) buf @ body @ t
     \<and> ps_cache (ss_state ss') =
          snd (rc_put (hc_hash ctx) (ce_put_time env) (ce_put_write env) (resource_url host path)
            \<lparr>cr_content_type = ct, cr_data = body, cr_etag = None, cr_last_modified = None\<rparr>
            (ps_cache (ss_state ss)))"
proof -
  obtain hit ss1 where look: "resource_lookup env ctx (resource_url host path) ss = (hit, ss1)"
    by (cases "resource_lookup env ctx (resource_url host path) ss")
  have ss1: "ps_cache (ss_state ss1) = ps_cache (ss_state ss)" "ss_client ss1 = ss_client ss"
    using resource_lookup_parts [of env ctx "resource_url host path" ss] by (simp_all add: look)
  have served: "ps_cache (ss_state (snd (serve_cached c ss1))) = ps_cache (ss_state ss)" for c
    using ss1 by (auto simp: serve_cached_def session_simps split: prod.splits dest!: send_client_parts)
  have relayed: "ps_cache (ss_state (snd (relay_counted env q sv ss1))) = ps_cache (ss_state ss)" for q sv
    using ss1 by (simp add: relay_counted_def split_beta session_simps)
  have changed: "ps_cache (ss_state (snd (mitm_direct env ctx host path req ss))) \<noteq> ps_cache (ss_state ss)"
    using assms(2,3) by simp
  from changed served have miss: "hit = None"
    by (cases hit) (auto simp: mitm_direct_def Let_def look)
  from changed ss1 obtain server where conn: "ce_connect env 0 (Verified host) = Ok server"
    by (cases "ce_connect env 0 (Verified host)") (auto simp: mitm_direct_def Let_def look miss)
  obtain ok server1 where w: "(if req = [] then (True, server) else write_all req server) = (ok, server1)"
    by (cases "if req = [] then (True, server) else write_all req server")
  from changed ss1 relayed have dc: "mitm_direct env ctx host path req ss =
      direct_cached env ctx (resource_url host path) (Verified host) server1 ss1"
    unfolding mitm_direct_def Let_def look miss option.case prod.case conn outcome.case w
    by (auto split: bool.splits if_splits)
  obtain stop buf server2 where head: "read_head False 8192 65536 [] server1 = (stop, buf, server2)"
    by (metis prod_cases3)
  from dc changed ss1 obtain header_end where
    cr: "cache_response env ctx (resource_url host path) header_end buf (Verified host) server2 ss1 = (r, ss')"
      and he: "header_end = (case stop of HeaderAt pos \<Rightarrow> Some pos | _ \<Rightarrow> None)"
    using assms(2) by (auto simp: direct_cached_def head split: header_stop.splits)
  from cache_response_stores [OF assms(1) cr] assms(3) ss1 obtain ct body s t where
    h: "parse_response_headers buf = (Some ct, Some (length body))"
    and b: "body = (case header_end of Some pos \<Rightarrow> drop (pos + 4) buf | None \<Rightarrow> []) @ s"
    and put: "ps_cache (ss_state ss') = snd (rc_put (hc_hash ctx) (ce_put_time env) (ce_put_write env)
        (resource_url host path) \<lparr>cr_content_type = ct, cr_data = body, cr_etag = None, cr_last_modified = None\<rparr>
        (ps_cache (ss_state ss)))"
    and out: "ep_written (ss_client ss') = ep_written (ss_client ss) @ buf @ s @ t"
    by auto
  have "find_header_end buf \<noteq> None"
    using h by (auto simp: parse_response_headers_def split: option.splits)
  have start: "find_header_end [] = None" by (simp add: find_header_end_def header_sep_def)
  obtain pos where stop: "stop = HeaderAt pos"
    using read_head_no_end [OF head start] \<open>find_header_end buf \<noteq> None\<close> by (cases stop) simp_all
  with read_head_result [OF head] have pos: "find_header_end buf = Some pos" by blast
  have "buf @ s = take (pos + 4) buf @ body" by (simp add: b he stop)
  then have "ep_written (ss_client ss') = ep_written (ss_client ss) @ take (pos + 4) buf @ body @ t"
    using out by (metis append.assoc)
  with h pos put show ?thesis by blast
qed

section \<open>What is served later\<close>

lemma relay_uncounted_cache [session_simps]:
  "ps_cache (ss_state (snd (relay_uncounted env q server ss))) = ps_cache (ss_state ss)"
  by (simp add: relay_uncounted_def split_beta session_simps)

lemma forward_nothing: "total_body \<le> length body
    \<Longrightarrow> forward_body total_body body client server mx = (True, body, client, server, mx)"
  by (simp add: forward_body.simps)

text \<open>An answer that comes whole in one read is put into the cache.\<close>

lemma cache_response_answer:
  assumes "plain_text status" and "plain_text ct" and "trim ct = ct" and "is_cacheable url ct"
    and "length body < u64_size" and "ep_room (ss_client ss) = None"
    and "pos = length (join crlf (answer_lines status ct (length body)))"
  shows "ps_cache (ss_state (snd (cache_response env ctx url (Some pos) (answer status ct (length body) body) q server ss)))
    = snd (rc_put (hc_hash ctx) (ce_put_time env) (ce_put_write env) url
        \<lparr>cr_content_type = ct, cr_data = body, cr_etag = None, cr_last_modified = None\<rparr> (ps_cache (ss_state ss)))"
proof -
  let ?buf = "answer status ct (length body) body"
  obtain ss1 where send: "send_client ?buf ss = (True, ss1)" and same: "ss_state ss1 = ss_state ss"
    using assms(6) by (simp add: send_client_def)
  have drop: "drop (pos + 4) ?buf = body" unfolding assms(7) by (rule answer_body)
  show ?thesis
    unfolding cache_response_def send Let_def
    by (simp add: parse_answer [OF assms(1,2,5)] assms(3,4) drop forward_nothing session_simps
        store_body_cache same)
qed

lemma direct_cached_answer:
  assumes "plain_text status" and "plain_text ct" and "trim ct = ct" and "is_cacheable url ct"
    and "length (answer status ct (length body) body) \<le> 8192" and "ep_room (ss_client ss) = None"
    and "ep_reads server = [Arrived (answer status ct (length body) body)]"
  shows "ps_cache (ss_state (snd (direct_cached env ctx url q server ss)))
    = snd (rc_put (hc_hash ctx) (ce_put_time env) (ce_put_write env) url
        \<lparr>cr_content_type = ct, cr_data = body, cr_etag = None, cr_last_modified = None\<rparr> (ps_cache (ss_state ss)))"
proof -
  let ?buf = "answer status ct (length body) body"
  have ne: "?buf \<noteq> []" by (simp add: answer_def header_sep_def)
  have len: "length body < u64_size" using assms(5) by (simp add: answer_def)
  have "read_some False 8192 server = (Got ?buf, server\<lparr>ep_reads := []\<rparr>)"
    using assms(5,7) by (simp add: read_some_def)
  then have "read_head False 8192 65536 [] server
      = (HeaderAt (length (join crlf (answer_lines status ct (length body)))), ?buf, server\<lparr>ep_reads := []\<rparr>)"
    by (subst read_head.simps) (simp add: ne answer_head_end [OF assms(1,2)])
  then show ?thesis
    unfolding direct_cached_def
    by (simp add: cache_response_answer [OF assms(1-4) len assms(6) refl])
qed

lemma rc_put_get:
  assumes "accepts (rc_config c) url resource" and "now' - now \<le> ttl_seconds c"
  shows "rc_get hash now' url (snd (rc_put hash now Written url resource c)) = (Some resource, [])"
proof -
  from assms(1) have "xc_enabled (rc_config c)" by (simp add: accepts_def)
  with assms show ?thesis
    by (simp add: rc_get_def rc_put_unfold Let_def write_file_def update_conv' ttl_seconds_def not_less)
qed

lemma mitm_direct_answer:
  assumes "plain_text status" and "plain_text ct" and "trim ct = ct" and "is_cacheable url ct"
    and "length (answer status ct (length body) body) \<le> 8192" and "ep_room (ss_client ss) = None"
    and "ce_connect env 0 (Verified host) = Ok server" and "ep_room server = None"
    and "ep_reads server = [Arrived (answer status ct (length body) body)]"
    and "url = resource_url host path" and "is_cacheable_url url"
    and "fst (rc_get (hc_hash ctx) (ce_get_time env) url (ps_cache (ss_state ss))) = None"
  shows "ps_cache (ss_state (snd (mitm_direct env ctx host path req ss)))
    = snd (rc_put (hc_hash ctx) (ce_put_time env) (ce_put_write env) url
        \<lparr>cr_content_type = ct, cr_data = body, cr_etag = None, cr_last_modified = None\<rparr> (ps_cache (ss_state ss)))"
proof -
  obtain ss1 where look: "resource_lookup env ctx url ss = (None, ss1)"
    using assms(11,12) by (cases "rc_get (hc_hash ctx) (ce_get_time env) url (ps_cache (ss_state ss))")
      (simp add: resource_lookup_def)
  have ss1: "ps_cache (ss_state ss1) = ps_cache (ss_state ss)" "ss_client ss1 = ss_client ss"
    using resource_lookup_parts [of env ctx url ss] by (simp_all add: look)
  obtain server1 where w: "(if req = [] then (True, server) else write_all req server) = (True, server1)"
    and reads: "ep_reads server1 = ep_reads server"
    using assms(8) by (cases "req = []") simp_all
  have "mitm_direct env ctx host path req ss = direct_cached env ctx url (Verified host) server1 ss1"
    unfolding mitm_direct_def Let_def assms(10) [symmetric] look prod.case option.case assms(7) outcome.case w
    by (simp add: assms(11))
  then show ?thesis
    using direct_cached_answer [OF assms(1-5), of ss1 server1 env ctx "Verified host"] assms(6,9)
    by (simp add: ss1 reads)
qed

text \<open>The facts on a sample answer: an error page of type \<open>image/png\<close>.\<close>

abbreviation empty_sample :: session where
  "empty_sample \<equiv> \<lparr>ss_client = peer [], ss_below = None, ss_server = None, ss_state = sample_state\<rparr>"

definition image_404 :: string where
  "image_404 = answer ''HTTP/1.1 404 Not Found'' ''image/png'' (length ''x'') ''x''"

definition conn_404 :: conn_env where
  "conn_404 = sample_conn [] [Arrived image_404]"

abbreviation image_x :: cached_resource where
  "image_x \<equiv> \<lparr>cr_content_type = ''image/png'', cr_data = ''x'', cr_etag = None, cr_last_modified = None\<rparr>"

lemma sample_url: "resource_url ''github.com'' ''/a.png'' = avatar_url"
  by (simp add: resource_url_def avatar_url_def)

lemma avatar_cacheable: "is_cacheable_url avatar_url" "is_cacheable avatar_url ''image/png''"
  by code_simp+

lemma sample_plain: "plain_text ''HTTP/1.1 404 Not Found''" "plain_text ''image/png''" "trim ''image/png'' = ''image/png''"
  by (simp_all add: plain_text_def trim_no_ws is_ws_def)

lemma image_404_short: "length (answer ''HTTP/1.1 404 Not Found'' ''image/png'' (length ''x'') ''x'') \<le> 8192"
  by (simp add: answer_def answer_lines_def crlf_def header_sep_def show_nat.simps [of "Suc 0"])

lemma conn_404_parts:
  "ce_connect conn_404 0 (Verified ''github.com'') = Ok (peer [Arrived image_404])"
  "ce_put_write conn_404 = Written" "ce_put_time conn_404 = 10" "ce_get_time conn_404 = 10"
  "ce_relay conn_404 = full_relay"
  by (simp_all add: conn_404_def sample_conn_def)

lemma sample_ctx_hash: "hc_hash (sample_ctx rules) = pad_hash"
  by (simp add: sample_ctx_def)

lemma sample_miss:
  "fst (rc_get (hc_hash (sample_ctx [])) (ce_get_time conn_404) avatar_url (ps_cache (ss_state empty_sample))) = None"
  by (simp add: sample_state_def rc_get_def rc_new_def)

lemma sample_room: "ep_room (peer es) = None" "ep_room (ss_client empty_sample) = None"
  by (simp_all add: peer_def)

lemma image_404_reads:
  "ep_reads (peer [Arrived image_404]) = [Arrived (answer ''HTTP/1.1 404 Not Found'' ''image/png'' (length ''x'') ''x'')]"
  by (simp only: peer_def endpoint.select_convs image_404_def)

lemma sample_state_accepts: "accepts (rc_config (ps_cache (ss_state empty_sample))) avatar_url image_x"
  using sample_accepts [of "CHR ''x''"] by (simp add: sample_state_def rc_new_def)

lemma conn_404_stores:
  "ps_cache (ss_state (snd (mitm_direct conn_404 (sample_ctx []) ''github.com'' ''/a.png'' [] empty_sample)))
     = snd (rc_put pad_hash 10 Written avatar_url image_x (ps_cache (ss_state empty_sample)))"
  using mitm_direct_answer [OF sample_plain avatar_cacheable(2) image_404_short sample_room(2) conn_404_parts(1)
      sample_room(1) image_404_reads sample_url [symmetric] avatar_cacheable(1) sample_miss, of "[]"]
  unfolding sample_ctx_hash conn_404_parts .

lemma conn_404_changes:
  "ps_cache (ss_state (snd (mitm_direct conn_404 (sample_ctx []) ''github.com'' ''/a.png'' [] empty_sample)))
     \<noteq> ps_cache (ss_state empty_sample)"
proof -
  have "rc_get pad_hash 10 avatar_url (snd (rc_put pad_hash 10 Written avatar_url image_x (ps_cache (ss_state empty_sample))))
      = (Some image_x, [])"
    by (rule rc_put_get [OF sample_state_accepts]) simp
  moreover have "fst (rc_get pad_hash 10 avatar_url (ps_cache (ss_state empty_sample))) = None"
    using sample_miss unfolding sample_ctx_hash conn_404_parts .
  ultimately show ?thesis unfolding conn_404_stores by (metis fst_conv option.distinct(1))
qed

lemma cached_is_what_client_got_witness:
  "\<exists>buf pos ct body t. find_header_end buf = Some pos
     \<and> parse_response_headers buf = (Some ct, Some (length body))
     \<and> ep_written (ss_client (snd (mitm_direct conn_404 (sample_ctx []) ''github.com'' ''/a.png'' [] empty_sample)))
         = take (pos + 4) buf @ body @ t"
proof -
  let ?run = "mitm_direct conn_404 (sample_ctx []) ''github.com'' ''/a.png'' [] empty_sample"
  have "?run = (fst ?run, snd ?run)" by simp
  from cached_is_what_client_got [OF relay_appends_full [OF conn_404_parts(5)] this conn_404_changes]
  obtain buf pos ct body t where "find_header_end buf = Some pos"
    "parse_response_headers buf = (Some ct, Some (length body))"
    "ep_written (ss_client (snd ?run)) = ep_written (ss_client empty_sample) @ take (pos + 4) buf @ body @ t"
    by blast
  moreover have "ep_written (ss_client empty_sample) = []" by (simp add: peer_def)
  ultimately show ?thesis by (metis append_Nil)
qed

text \<open>
  Property C30.
  The status of an answer is not looked at: an answer with any status line, an image type and a whole
  body is stored, and the next request for the URL within the time to live is answered from the cache
  with \<open>200 OK\<close> and that body, without contacting the server. An error page of a server becomes an
  image that the proxy serves for days.
\<close>

theorem error_answer_becomes_ok:
  assumes "plain_text status" and "plain_text ct" and "trim ct = ct" and "url = resource_url host path"
    and "is_cacheable_url url" and "is_cacheable url ct"
    and "length (answer status ct (length body) body) \<le> 8192"
    and "ce_connect env 0 (Verified host) = Ok server" and "ep_room server = None"
    and "ep_reads server = [Arrived (answer status ct (length body) body)]"
    and "ep_room (ss_client ss) = None" and "ep_room (ss_client ss') = None" and "ce_put_write env = Written"
    and "accepts (rc_config (ps_cache (ss_state ss))) url
           \<lparr>cr_content_type = ct, cr_data = body, cr_etag = None, cr_last_modified = None\<rparr>"
    and "fst (rc_get (hc_hash ctx) (ce_get_time env) url (ps_cache (ss_state ss))) = None"
    and "ps_cache (ss_state ss') = ps_cache (ss_state (snd (mitm_direct env ctx host path req ss)))"
    and "ce_get_time env' - ce_put_time env \<le> ttl_seconds (ps_cache (ss_state ss))"
  shows "\<exists>ss''. mitm_direct env' ctx host path req' ss' = (Ok (), ss'') \<and> ss_server ss'' = ss_server ss'
     \<and> ep_written (ss_client ss'') = ep_written (ss_client ss')
          @ ''HTTP/1.1 200 OK'' @ crlf @ ''Content-Type: '' @ ct @ crlf
          @ ''Content-Length: '' @ show_nat (length body) @ crlf @ ''Connection: close'' @ header_sep @ body"
proof -
  let ?res = "\<lparr>cr_content_type = ct, cr_data = body, cr_etag = None, cr_last_modified = None\<rparr>"
  have "ps_cache (ss_state ss') = snd (rc_put (hc_hash ctx) (ce_put_time env) Written url ?res (ps_cache (ss_state ss)))"
    unfolding assms(16) assms(13) [symmetric]
    by (rule mitm_direct_answer [where status = status and server = server]) (use assms in simp_all)
  then have hit: "rc_get (hc_hash ctx) (ce_get_time env') url (ps_cache (ss_state ss')) = (Some ?res, [])"
    using rc_put_get [OF assms(14,17)] by simp
  have look: "resource_lookup env' ctx url ss' = (Some ?res, ss')"
    using assms(5) hit by (simp add: resource_lookup_def spawn_tasks_def)
  have "mitm_direct env' ctx host path req' ss' = serve_cached ?res ss'"
    unfolding mitm_direct_def Let_def assms(4) [symmetric] look by simp
  moreover have "build_response_from_cache ?res = ''HTTP/1.1 200 OK'' @ crlf @ ''Content-Type: '' @ ct @ crlf
      @ ''Content-Length: '' @ show_nat (length body) @ crlf @ ''Connection: close'' @ header_sep @ body"
    by (simp add: build_response_from_cache_def)
  ultimately show ?thesis
    using assms(12) by (simp add: serve_cached_def send_client_def session_simps)
qed

lemma error_answer_becomes_ok_witness:
  "\<exists>ss' ss''. mitm_direct conn_404 (sample_ctx []) ''github.com'' ''/a.png'' [] ss' = (Ok (), ss'')
     \<and> ss_server ss'' = None
     \<and> ep_written (ss_client ss'') = ''HTTP/1.1 200 OK'' @ crlf @ ''Content-Type: '' @ ''image/png'' @ crlf
          @ ''Content-Length: '' @ show_nat 1 @ crlf @ ''Connection: close'' @ header_sep @ ''x''"
proof -
  let ?state = "ss_state (snd (mitm_direct conn_404 (sample_ctx []) ''github.com'' ''/a.png'' [] empty_sample))"
  let ?ss = "empty_sample\<lparr>ss_state := ?state\<rparr>"
  have room: "ep_room (ss_client ?ss) = None" by (simp add: peer_def)
  have same: "ps_cache (ss_state ?ss) = ps_cache ?state" by simp
  have ttl: "ce_get_time conn_404 - ce_put_time conn_404 \<le> ttl_seconds (ps_cache (ss_state empty_sample))"
    by (simp add: conn_404_parts)
  obtain ss'' where "mitm_direct conn_404 (sample_ctx []) ''github.com'' ''/a.png'' [] ?ss = (Ok (), ss'')"
    "ss_server ss'' = ss_server ?ss"
    "ep_written (ss_client ss'') = ep_written (ss_client ?ss) @ ''HTTP/1.1 200 OK'' @ crlf @ ''Content-Type: '' @ ''image/png'' @ crlf
          @ ''Content-Length: '' @ show_nat (length ''x'') @ crlf @ ''Connection: close'' @ header_sep @ ''x''"
    using error_answer_becomes_ok [OF sample_plain sample_url [symmetric] avatar_cacheable image_404_short
        conn_404_parts(1) sample_room(1) image_404_reads sample_room(2) room conn_404_parts(2)
        sample_state_accepts sample_miss same ttl, of "[]"] by blast
  then show ?thesis by (intro exI [of _ ?ss] exI [of _ ss'']) (simp add: peer_def)
qed

section \<open>A mirror that fails\<close>

lemma relay_counted_parts:
  "ps_mirrors (ss_state (snd (relay_counted env q server ss))) = ps_mirrors (ss_state ss)"
  by (simp add: relay_counted_def split_beta session_simps)

lemma relay_counted_written:
  assumes "relay_appends env"
  shows "\<exists>server' t. ss_server (snd (relay_counted env q server ss)) = Some (q, server')
     \<and> ep_written server' = ep_written server @ t"
proof -
  obtain rr a b where rr: "ce_relay env (ss_client ss) server = (rr, a, b)"
    by (metis prod_cases3)
  have "\<exists>t. ep_written b = ep_written server @ t"
    using assms [unfolded relay_appends_def, rule_format, of "ss_client ss" server] rr by simp
  with rr show ?thesis by (auto simp: relay_counted_def relay_def session_simps)
qed

lemma mirror_session_mirrors:
  "ps_mirrors (ss_state (snd (mirror_session env mirror rewritten q server ss)))
     = mirror_success mirror (ce_response_time env) (ps_mirrors (ss_state ss))"
  by (auto simp: mirror_session_def Let_def relay_counted_parts session_simps split: prod.splits bool.splits)

text \<open>
  Property C31.
  What a mirror session records: a success if the mirror was reached, and a failure if neither the
  mirror nor the host was. But when the mirror fails and the host is reached, the failure is followed
  by a success of the mirror, so the mirror counts as healthy, and the request that was rewritten for
  the mirror is sent to the host.
\<close>

theorem mirror_fallback_counts_as_success:
  assumes "relay_appends env" and "mitm_mirror env host mirror rewritten ss = (r, ss')"
  shows "case ce_connect env 0 (Verified mirror) of
       Ok server \<Rightarrow>
         ps_mirrors (ss_state ss') = mirror_success mirror (ce_response_time env) (ps_mirrors (ss_state ss))
     | Panic \<Rightarrow> ss' = ss \<and> r = Panic
     | Err e \<Rightarrow>
         let failed = mirror_failure (ce_failed_at env) mirror (ps_mirrors (ss_state ss))
         in case ce_connect env 1 (Verified host) of
              Ok server \<Rightarrow>
                ps_mirrors (ss_state ss') = mirror_success mirror (ce_response_time env) failed
                \<and> mh_consecutive_failures (health_of mirror (ps_mirrors (ss_state ss'))) = 0
                \<and> (ep_room server = None \<longrightarrow>
                     (\<exists>server' t. ss_server ss' = Some (Verified host, server')
                        \<and> ep_written server' = ep_written server @ rewritten @ t))
            | Err e2 \<Rightarrow> ps_mirrors (ss_state ss') = failed \<and> r = Err (NoUpstream e2)
            | Panic \<Rightarrow> ps_mirrors (ss_state ss') = failed \<and> r = Panic"
proof -
  have zero: "mh_consecutive_failures (health_of mirror (mirror_success mirror x t)) = 0" for x t
    by (simp add: mirror_success_def Let_def)
  have sent: "\<exists>server' t. ss_server (snd (mirror_session env mirror rewritten q server ss1)) = Some (q, server')
      \<and> ep_written server' = ep_written server @ rewritten @ t" if "ep_room server = None" for q server ss1
  proof -
    let ?server1 = "server\<lparr>ep_written := ep_written server @ rewritten\<rparr>"
    let ?ss1 = "on_mirrors (mirror_success mirror (ce_response_time env)) ss1"
    have "mirror_session env mirror rewritten q server ss1 = relay_counted env q ?server1 ?ss1"
      using that by (simp add: mirror_session_def)
    with relay_counted_written [OF assms(1), of q ?server1 ?ss1] show ?thesis by simp
  qed
  have run: "ss' = snd (mitm_mirror env host mirror rewritten ss)" "r = fst (mitm_mirror env host mirror rewritten ss)"
    using assms(2) by simp_all
  show ?thesis
  proof (cases "ce_connect env 0 (Verified mirror)")
    case (Err e)
    let ?ss1 = "on_mirrors (mirror_failure (ce_failed_at env) mirror) ss"
    show ?thesis
    proof (cases "ce_connect env 1 (Verified host)")
      case (Ok server)
      then have "ss' = snd (mirror_session env mirror rewritten (Verified host) server ?ss1)"
        using Err by (simp add: run mitm_mirror_def Let_def)
      with sent [of server "Verified host" ?ss1] Err Ok show ?thesis
        by (simp add: Let_def mirror_session_mirrors session_simps zero)
    qed (use Err in \<open>simp_all add: run mitm_mirror_def Let_def session_simps\<close>)
  qed (simp_all add: run mitm_mirror_def mirror_session_mirrors)
qed

text \<open>A network that reaches every host but the mirror.\<close>

definition conn_no_mirror :: conn_env where
  "conn_no_mirror =
     (sample_conn [] [])\<lparr>ce_connect := (\<lambda>i q. if q = Verified ''mirror'' then Err SystemFailed else Ok (peer []))\<rparr>"

lemma mirror_fallback_counts_as_success_witness:
  "let ss' = snd (mitm_mirror conn_no_mirror ''github.com'' ''mirror'' ''GET /'' empty_sample)
   in mh_consecutive_failures (health_of ''mirror'' (ps_mirrors (ss_state ss'))) = 0
      \<and> (\<exists>server' t. ss_server ss' = Some (Verified ''github.com'', server') \<and> ep_written server' = ''GET /'' @ t)"
proof -
  let ?run = "mitm_mirror conn_no_mirror ''github.com'' ''mirror'' ''GET /'' empty_sample"
  have conn: "ce_connect conn_no_mirror 0 (Verified ''mirror'') = Err SystemFailed"
    "ce_connect conn_no_mirror 1 (Verified ''github.com'') = Ok (peer [])"
    by (simp_all add: conn_no_mirror_def)
  have "relay_appends conn_no_mirror"
    by (rule relay_appends_full) (simp add: conn_no_mirror_def sample_conn_def)
  from conjunct2 [OF mirror_fallback_counts_as_success [OF this prod.collapse [symmetric, of ?run],
        unfolded conn outcome.case Let_def sample_room simp_thms]]
  have "mh_consecutive_failures (health_of ''mirror'' (ps_mirrors (ss_state (snd ?run)))) = 0
      \<and> (\<exists>server' t. ss_server (snd ?run) = Some (Verified ''github.com'', server')
           \<and> ep_written server' = ep_written (peer []) @ ''GET /'' @ t)"
    .
  moreover have "ep_written (peer []) = []" by (simp add: peer_def)
  ultimately show ?thesis unfolding Let_def by simp
qed

section \<open>Panics and contacts\<close>


lemma connect_github_line:
  "first_line connect_github = ''CONNECT'' @ SP # (''github.com'' @ CHR '':'' # show_nat 443) @ SP # ''HTTP/1.1''"
  "find_header_end connect_github = Some 31"
  by code_simp+

lemma connect_github_size: "connect_github \<noteq> []" "length connect_github \<le> 4096"
  by (simp_all add: connect_github_def header_sep_def)

lemma connect_github_start: "starts_with connect_github ''CONNECT''"
  by (simp add: connect_github_def)

lemma connect_github_target: "parse_connect_target (first_line connect_github) = Some (''github.com'', 443)"
  using parse_connect_line [of "''github.com''" "''HTTP/1.1''" 443]
  by (simp add: connect_github_line word_def is_ws_def)

lemma handle_connect_github:
  assumes "ss_client ss = peer [Arrived connect_github]"
  shows "handle_connection env ctx ss = connect_to env ctx ''github.com'' 443 (ss\<lparr>ss_client := peer []\<rparr>)"
proof -
  have "peek_some 4096 (ss_client ss) = Got connect_github"
    using assms connect_github_size by (simp add: peek_some_def peer_def)
  then have "handle_connection env ctx ss = handle_connect env ctx ss"
    using connect_github_size connect_github_start by (simp add: handle_connection_def)
  also have "\<dots> = connect_to env ctx ''github.com'' 443 (ss\<lparr>ss_client := peer []\<rparr>)"
    unfolding handle_connect_def assms read_head_peer [OF connect_github_size connect_github_line(2)]
    by (simp add: Let_def connect_github_target)
  finally show ?thesis .
qed

text \<open>A context that intercepts \<open>github.com\<close> and has no intercept rules.\<close>

definition intercepts_github :: "handler_ctx \<Rightarrow> bool" where
  "intercepts_github ctx \<longleftrightarrow>
     hc_mitm_enabled ctx \<and> hc_domain_rules ctx = github_defaults \<and> hc_intercept_matcher ctx = matcher_new []"

lemma sample_ctx_intercepts: "intercepts_github (sample_ctx [])"
  by (simp add: intercepts_github_def sample_ctx_def)

lemma connect_to_github:
  assumes "intercepts_github ctx" and "ep_room (ss_client ss) = None"
  shows "\<exists>ss1. ss_server ss1 = ss_server ss \<and> ss_state ss1 = ss_state ss
     \<and> fst (connect_to env ctx ''github.com'' 443 ss)
         = (case fst (perform_mitm env ctx ''github.com'' ss1) of Panic \<Rightarrow> Panic | _ \<Rightarrow> Ok ())
     \<and> snd (connect_to env ctx ''github.com'' 443 ss)
         = snd (perform_mitm env ctx ''github.com'' ss1)"
proof -
  have "classify (hc_domain_rules ctx) ''github.com'' = ActProxy"
    using assms(1) by (simp add: intercepts_github_def classify_def github_defaults_def subdomain_of_def)
  moreover have "\<not> is_aborted ctx ''github.com''"
    using assms(1) by (simp add: intercepts_github_def is_aborted_def matcher_new_def match_domain_def Let_def)
  moreover have "hc_mitm_enabled ctx" using assms(1) by (simp add: intercepts_github_def)
  moreover obtain ss1 where "send_client established ss = (True, ss1)" "ss_server ss1 = ss_server ss" "ss_state ss1 = ss_state ss"
    using assms(2) by (simp add: send_client_def)
  ultimately show ?thesis
    by (intro exI [of _ ss1])
      (auto simp: connect_to_def connect_action_def swallow_error split: prod.splits outcome.splits)
qed

lemma image_request_facts:
  "image_request \<noteq> []" "length image_request \<le> 8192" "request_path image_request = ''/a.png''"
proof -
  show "request_path image_request = ''/a.png''" by code_simp
qed (simp_all add: image_request_def header_sep_def)

lemma peer_write: "write_all s (peer es) = (True, (peer es)\<lparr>ep_written := s\<rparr>)"
  by (simp add: peer_def)

lemma sample_mitm:
  assumes "intercepts_github ctx"
  shows "\<exists>ss1 server1. ep_reads server1 = answer_events \<and> ss_state ss1 = ss_state ss \<and> ep_room (ss_client ss1) = None
     \<and> (ps_cache (ss_state ss) = rc_new [] None default_cache \<longrightarrow>
         perform_mitm (sample_conn image_request answer_events) ctx ''github.com'' ss
           = direct_cached (sample_conn image_request answer_events) ctx avatar_url (Verified ''github.com'') server1 ss1)"
proof -
  let ?env = "sample_conn image_request answer_events"
  let ?ss1 = "ss\<lparr>ss_client := peer [], ss_below := Some (ss_client ss)\<rparr>"
  let ?server1 = "(peer answer_events)\<lparr>ep_written := image_request\<rparr>"
  have read: "ce_handshake ?env = Some (peer [Arrived image_request])"
    "ce_connect ?env 0 (Verified ''github.com'') = Ok (peer answer_events)"
    by (simp_all add: sample_conn_def)
  have up: "resolve_upstream ''github.com'' ''/a.png'' ctx image_request = DirectUp"
    using assms by (simp add: resolve_upstream_def intercepts_github_def matcher_new_def match_domain_def Let_def)
  have "perform_mitm ?env ctx ''github.com'' ss
      = mitm_direct ?env ctx ''github.com'' ''/a.png'' image_request ?ss1"
    unfolding perform_mitm_def read option.case read_some_peer [OF image_request_facts(1,2)]
    by (simp add: Let_def image_request_facts up)
  moreover have "mitm_direct ?env ctx ''github.com'' ''/a.png'' image_request ?ss1
      = direct_cached ?env ctx avatar_url (Verified ''github.com'') ?server1 ?ss1"
    if "ps_cache (ss_state ss) = rc_new [] None default_cache"
  proof -
    have "resource_lookup ?env ctx avatar_url ?ss1 = (None, ?ss1)"
      using that by (simp add: resource_lookup_def rc_get_def rc_new_def spawn_tasks_def)
    then show ?thesis
      unfolding mitm_direct_def Let_def sample_url
      by (simp add: read image_request_facts(1) peer_write avatar_cacheable)
  qed
  ultimately show ?thesis
    by (intro exI [of _ ?ss1] exI [of _ ?server1]) (simp add: peer_def)
qed

definition huge_answer :: string where
  "huge_answer = answer ''HTTP/1.1 200 OK'' ''image/png'' (2 ^ 63) []"

lemma direct_cached_huge:
  assumes "ep_reads server = [Arrived huge_answer]" and "ep_room (ss_client ss) = None"
  shows "fst (direct_cached env ctx avatar_url q server ss) = Panic"
proof -
  have plain: "plain_text ''HTTP/1.1 200 OK''" "plain_text ''image/png''"
    by (simp_all add: plain_text_def)
  have digits: "length (show_nat 9223372036854775808) = 19"
    by (simp add: show_nat.simps)
  have short: "length huge_answer \<le> 8192"
    by (simp add: huge_answer_def answer_def answer_lines_def crlf_def header_sep_def digits)
  let ?pos = "length (join crlf (answer_lines ''HTTP/1.1 200 OK'' ''image/png'' (2 ^ 63)))"
  have ne: "huge_answer \<noteq> []" by (simp add: huge_answer_def answer_def header_sep_def)
  have head_end: "find_header_end huge_answer = Some ?pos"
    unfolding huge_answer_def by (rule answer_head_end [OF plain])
  have "read_some False 8192 server = (Got huge_answer, server\<lparr>ep_reads := []\<rparr>)"
    using assms(1) short by (simp add: read_some_def)
  then have head: "read_head False 8192 65536 [] server = (HeaderAt ?pos, huge_answer, server\<lparr>ep_reads := []\<rparr>)"
    by (subst read_head.simps) (simp only: ne head_end append_Nil option.case if_False prod.case wire_result.case)
  have parse: "parse_response_headers huge_answer = (Some ''image/png'', Some (2 ^ 63))"
    unfolding huge_answer_def using parse_answer [OF plain, of "2 ^ 63" "[]"] sample_plain(3) by simp
  have body: "drop (?pos + 4) huge_answer = []"
    unfolding huge_answer_def by (rule answer_body)
  obtain ss1 where send: "send_client huge_answer ss = (True, ss1)"
    using assms(2) by (simp add: send_client_def)
  show ?thesis
    unfolding direct_cached_def head prod.case header_stop.case cache_response_def send bool.case parse option.case
      Let_def body by (simp add: avatar_cacheable)
qed

lemma sample_client: "ss_client (sample_session t) = peer [Arrived t]" "ss_state (sample_session t) = sample_state"
  "ss_server (sample_session t) = None"
  by (simp_all add: sample_session_def)

lemma sample_run:
  "\<exists>ss1 server1. ep_reads server1 = es \<and> ep_room (ss_client ss1) = None \<and>
     handle_connection (sample_conn image_request es) (sample_ctx []) (sample_session connect_github)
       = (let (r, ss2) = direct_cached (sample_conn image_request es) (sample_ctx []) avatar_url
                           (Verified ''github.com'') server1 ss1
          in (case r of Panic \<Rightarrow> Panic | _ \<Rightarrow> Ok (), ss2))"
proof -
  let ?env = "sample_conn image_request es"
  let ?ss = "(sample_session connect_github)\<lparr>ss_client := peer []\<rparr>"
  have "ep_room (ss_client ?ss) = None" by (simp add: peer_def)
  from connect_to_github [OF sample_ctx_intercepts this, of ?env] obtain ss1 where
    ss1: "ss_state ss1 = sample_state"
      "fst (connect_to ?env (sample_ctx []) ''github.com'' 443 ?ss)
         = (case fst (perform_mitm ?env (sample_ctx []) ''github.com'' ss1) of Panic \<Rightarrow> Panic | _ \<Rightarrow> Ok ())"
      "snd (connect_to ?env (sample_ctx []) ''github.com'' 443 ?ss)
         = snd (perform_mitm ?env (sample_ctx []) ''github.com'' ss1)"
    by (auto simp: sample_client)
  from sample_mitm [OF sample_ctx_intercepts, of es ss1] ss1(1) obtain ss2 server1 where
    "ep_reads server1 = es" "ep_room (ss_client ss2) = None"
    "perform_mitm ?env (sample_ctx []) ''github.com'' ss1
       = direct_cached ?env (sample_ctx []) avatar_url (Verified ''github.com'') server1 ss2"
    by (auto simp: sample_state_def)
  with ss1(2,3) handle_connect_github [OF sample_client(1), of ?env "sample_ctx []"] show ?thesis
    by (intro exI [of _ ss2] exI [of _ server1]) (simp add: prod_eq_iff split_beta)
qed


lemma contacts_follow_rules_witness:
  "\<exists>q server buf rest host port.
     ss_server (snd (handle_connection (sample_conn image_request [Arrived image_404]) (sample_ctx [])
       (sample_session connect_github))) = Some (q, server)
     \<and> sent_bytes (ep_reads (peer [Arrived connect_github])) = buf @ rest
     \<and> (parse_connect_target (first_line buf) = Some (host, port)
          \<and> q \<in> connect_upstreams (sample_conn image_request [Arrived image_404]) (sample_ctx []) host port
        \<or> parse_http_target (first_line buf) = Some (host, port)
           \<and> classify (hc_domain_rules (sample_ctx [])) host \<noteq> ActBlock
           \<and> (\<exists>ip. ce_resolve (sample_conn image_request [Arrived image_404]) host = Ok ip \<and> q = ToAddress ip port))"
proof -
  let ?env = "sample_conn image_request [Arrived image_404]"
  let ?run = "handle_connection ?env (sample_ctx []) (sample_session connect_github)"
  obtain ss1 server1 where run: "?run = (let (r, ss2) = direct_cached ?env (sample_ctx []) avatar_url (Verified ''github.com'') server1 ss1
          in (case r of Panic \<Rightarrow> Panic | _ \<Rightarrow> Ok (), ss2))"
    using sample_run by blast
  obtain e where e: "ss_server (snd ?run) = Some (Verified ''github.com'', e)"
    using direct_cached_server [of ?env "sample_ctx []" avatar_url "Verified ''github.com''" server1 ss1]
    by (auto simp: run split_beta)
  from contacts_follow_rules [OF prod.collapse [symmetric, of ?run] sample_client(3) e] show ?thesis
    unfolding sample_client(1) using e by blast
qed

end
