(* ===== verification/Proxy_Server.thy ===== *)
theory Proxy_Server
  imports Handler_Properties Config "HOL-Library.Multiset"
begin

text \<open>
  The accept loop (\<open>src/proxy/server.rs\<close>): every accepted connection becomes a task that waits for a
  permit if the number of connections is limited, counts itself as active, runs the handler of
  \<open>Proxy_Handler\<close> on the shared state and counts itself out. The steps of the tasks interleave freely;
  what a handler does to the shared state is one step, at its end. Which of the waiting tasks gets a
  free permit is left open. A handler that panics ends the process (\<open>panic = "abort"\<close> in the release
  profile).
\<close>

section \<open>The handler keeps the connection counters\<close>

definition open_count :: "metrics \<Rightarrow> 64 word \<times> 64 word" where
  "open_count mx = (mx_active mx, mx_total mx)"

abbreviation session_count :: "session \<Rightarrow> 64 word \<times> 64 word" where
  "session_count ss \<equiv> open_count (ps_metrics (ss_state ss))"

named_theorems count_simps \<open>operations that leave the connection counters alone\<close>

lemma open_count_bytes [count_simps]:
  "open_count (add_bytes_sent n mx) = open_count mx" "open_count (add_bytes_received n mx) = open_count mx"
  by (simp_all add: open_count_def metrics_simps)

lemma send_client_count:
  "send_client s ss = (ok, ss') \<Longrightarrow> session_count ss' = session_count ss"
  using send_client_parts by auto

lemma reply_count [count_simps]: "session_count (snd (reply s ss)) = session_count ss"
  by (cases "send_client s ss") (simp add: reply_def send_client_count)

lemma relay_counts [count_simps]:
  "session_count (snd (relay_counted env q server ss)) = session_count ss"
  "session_count (snd (relay_uncounted env q server ss)) = session_count ss"
  "session_count (count_relayed r ss) = session_count ss"
  by (simp_all add: relay_counted_def relay_uncounted_def count_relayed_def split_beta session_simps count_simps
      split: relay_result.split)

lemma copy_counted_count [count_simps]: "session_count (snd (copy_counted env q server ss)) = session_count ss"
proof -
  obtain r client1 server1 mx where
    "copy_with_metrics (ce_schedule env) 0 0 0 (ss_client ss) server (ps_metrics (ss_state ss)) = (r, client1, server1, mx)"
    by (metis prod_cases4)
  with copy_result [OF this] show ?thesis by (auto simp: copy_counted_def session_simps count_simps)
qed

lemma serve_cached_count [count_simps]: "session_count (snd (serve_cached cached ss)) = session_count ss"
  by (cases "send_client (build_response_from_cache cached) ss")
    (simp add: serve_cached_def session_simps count_simps send_client_count)

lemma resource_lookup_count: "resource_lookup env ctx url ss = (hit, ss') \<Longrightarrow> session_count ss' = session_count ss"
  by (auto simp: resource_lookup_def session_simps split: if_splits prod.splits)

lemma store_body_count [count_simps]: "session_count (store_body env ctx url ct body ss) = session_count ss"
  by (auto simp: store_body_def Let_def session_simps split: prod.splits outcome.splits)

lemma forward_body_count:
  "forward_body n body client server mx = (ok, body', client', server', mx') \<Longrightarrow> open_count mx' = open_count mx"
proof (induction n body client server mx rule: forward_body.induct)
  case (1 n body client server mx)
  from 1(2) show ?case
    by (subst (asm) forward_body.simps)
      (auto simp: count_simps dest!: 1(1) split: if_splits prod.splits wire_result.splits bool.splits)
qed

lemma session_count_server [simp]: "session_count (ss\<lparr>ss_server := x\<rparr>) = session_count ss"
  by simp

lemma cache_response_count [count_simps]:
  "session_count (snd (cache_response env ctx url header_end buf q server ss)) = session_count ss"
  unfolding cache_response_def Let_def
  by (auto simp: session_simps count_simps dest!: send_client_count forward_body_count
      split: prod.splits bool.splits option.splits)

lemma direct_cached_count [count_simps]:
  "session_count (snd (direct_cached env ctx url q server ss)) = session_count ss"
  unfolding direct_cached_def by (auto simp: count_simps split: prod.splits header_stop.splits)

lemma spoof_cached_count [count_simps]:
  "session_count (snd (spoof_cached env ctx url q server ss)) = session_count ss"
  unfolding spoof_cached_def
  by (auto simp: count_simps session_simps dest!: send_client_count split: prod.splits header_stop.splits bool.splits)

lemma spoof_assets_count [count_simps]: "session_count (snd (spoof_assets env q server ss)) = session_count ss"
  unfolding spoof_assets_def Let_def
  by (auto simp: count_simps dest!: send_client_count split: prod.splits header_stop.splits bool.splits if_splits)

lemma mitm_direct_count [count_simps]: "session_count (snd (mitm_direct env ctx host path req ss)) = session_count ss"
  unfolding mitm_direct_def Let_def
  by (auto simp: count_simps dest!: resource_lookup_count split: prod.splits option.splits outcome.splits bool.splits)

lemma mitm_spoof_count [count_simps]:
  "session_count (snd (mitm_spoof env ctx real_host fake_sni path req ss)) = session_count ss"
  unfolding mitm_spoof_def Let_def
  by (auto simp: count_simps dest!: resource_lookup_count split: prod.splits option.splits outcome.splits bool.splits)

lemma mirror_session_count [count_simps]:
  "session_count (snd (mirror_session env mirror rewritten q server ss)) = session_count ss"
  unfolding mirror_session_def Let_def
  by (auto simp: count_simps session_simps split: prod.splits bool.splits)

lemma mitm_mirror_count [count_simps]: "session_count (snd (mitm_mirror env host mirror rewritten ss)) = session_count ss"
  unfolding mitm_mirror_def Let_def by (auto simp: count_simps session_simps split: outcome.splits)

lemma perform_mitm_count [count_simps]: "session_count (snd (perform_mitm env ctx host ss)) = session_count ss"
  unfolding perform_mitm_def Let_def
  by (auto simp: count_simps split: option.splits prod.splits wire_result.splits upstream_decision.splits)

lemma establish_tunnel_count [count_simps]:
  "session_count (snd (establish_tunnel env host port use_doh ss)) = session_count ss"
  unfolding establish_tunnel_def Let_def by (auto simp: count_simps split: outcome.splits)

lemma perform_mitm_count': "perform_mitm env ctx host ss = (r, ss') \<Longrightarrow> session_count ss' = session_count ss"
  using perform_mitm_count by (metis snd_conv)

lemma connect_to_count [count_simps]: "session_count (snd (connect_to env ctx host port ss)) = session_count ss"
  unfolding connect_to_def
  by (auto simp: count_simps swallow_error dest!: send_client_count perform_mitm_count'
      split: option.splits prod.splits bool.splits proxy_action.splits outcome.splits)

lemma forward_http_count [count_simps]: "session_count (snd (forward_http env req host port ss)) = session_count ss"
proof -
  have "session_count ss1 = session_count ss" if "relay env q server ss = (r, ss1)" for q server r ss1
    using that relay_parts(1) [of env q server ss] by simp
  then show ?thesis
    unfolding forward_http_def Let_def
    by (auto simp: count_simps split: outcome.splits prod.splits bool.splits relay_result.splits)
qed

lemma forward_http_count':
  "forward_http env req host port ss = (r, ss') \<Longrightarrow> session_count ss' = session_count ss"
  using forward_http_count by (metis snd_conv)

lemma handle_connection_count: "session_count (snd (handle_connection env ctx ss)) = session_count ss"
proof -
  have "session_count (snd (handle_connect env ctx ss)) = session_count ss"
    unfolding handle_connect_def Let_def
    by (auto simp: count_simps split: prod.splits header_stop.splits option.splits)
  moreover have "session_count (snd (handle_http env ctx ss)) = session_count ss"
    unfolding handle_http_def Let_def
    by (auto simp: count_simps dest!: forward_http_count'
        split: prod.splits header_stop.splits option.splits domain_action.splits outcome.splits)
  ultimately show ?thesis
    unfolding handle_connection_def by (auto split: wire_result.splits)
qed

section \<open>The loop and its tasks\<close>

record server =
  sv_limit :: "nat option"
  sv_listening :: bool
  sv_waiting :: "nat list"
  sv_running :: "nat list"
  sv_state :: proxy_state

datatype server_conf = Up server | Aborted

datatype server_error = BindFailed

text \<open>
  The tasks have a number. A connection that is served met the environment \<open>env\<close>, and its client
  sent what the endpoint holds.
\<close>

datatype server_event =
    Accepted nat | AcceptFailed | PermitTaken nat | Served nat conn_env endpoint | ShutdownReceived

text \<open>\<open>Semaphore::new\<close> panics on more than \<open>max_permits\<close> permits; a limit of 0 is no limit.\<close>

definition server_start :: "nat \<Rightarrow> bool \<Rightarrow> proxy_config \<Rightarrow> proxy_state \<Rightarrow> (server_error, server) outcome" where
  "server_start max_permits bound config st =
     (if \<not> bound then Err BindFailed
      else if 0 < pc_max_connections config \<and> max_permits < pc_max_connections config then Panic
      else Ok \<lparr>sv_limit = (if 0 < pc_max_connections config then Some (pc_max_connections config) else None),
              sv_listening = True, sv_waiting = [], sv_running = [], sv_state = st\<rparr>)"

definition permit_free :: "server \<Rightarrow> bool" where
  "permit_free s \<longleftrightarrow> (case sv_limit s of None \<Rightarrow> True | Some n \<Rightarrow> length (sv_running s) < n)"

definition begin_connection :: "nat \<Rightarrow> server \<Rightarrow> server" where
  "begin_connection i s =
     s\<lparr>sv_waiting := remove1 i (sv_waiting s), sv_running := i # sv_running s,
       sv_state := (sv_state s)\<lparr>ps_metrics := inc_active (ps_metrics (sv_state s))\<rparr>\<rparr>"

definition new_session :: "endpoint \<Rightarrow> proxy_state \<Rightarrow> session" where
  "new_session client st = \<lparr>ss_client = client, ss_below = None, ss_server = None, ss_state = st\<rparr>"

text \<open>An error of the handler is only logged.\<close>

definition end_connection ::
    "(conn_env \<Rightarrow> session \<Rightarrow> (handler_error, unit) outcome \<times> session) \<Rightarrow> nat \<Rightarrow> conn_env \<Rightarrow> endpoint \<Rightarrow> server
     \<Rightarrow> server_conf" where
  "end_connection handle i env client s =
     (case handle env (new_session client (sv_state s)) of
        (Panic, _) \<Rightarrow> Aborted
      | (_, ss) \<Rightarrow>
          Up (s\<lparr>sv_running := remove1 i (sv_running s),
               sv_state := (ss_state ss)\<lparr>ps_metrics := dec_active (ps_metrics (ss_state ss))\<rparr>\<rparr>))"

inductive server_step ::
    "(conn_env \<Rightarrow> session \<Rightarrow> (handler_error, unit) outcome \<times> session) \<Rightarrow> server_conf \<Rightarrow> server_event \<Rightarrow> server_conf \<Rightarrow> bool"
  for handle where
  accept: "sv_listening s \<Longrightarrow>
    server_step handle (Up s) (Accepted i) (Up (s\<lparr>sv_waiting := sv_waiting s @ [i]\<rparr>))"
| accept_error: "sv_listening s \<Longrightarrow> server_step handle (Up s) AcceptFailed (Up s)"
| permit: "i \<in> set (sv_waiting s) \<Longrightarrow> permit_free s \<Longrightarrow>
    server_step handle (Up s) (PermitTaken i) (Up (begin_connection i s))"
| serve: "i \<in> set (sv_running s) \<Longrightarrow>
    server_step handle (Up s) (Served i env client) (end_connection handle i env client s)"
| shutdown: "sv_listening s \<Longrightarrow> server_step handle (Up s) ShutdownReceived (Up (s\<lparr>sv_listening := False\<rparr>))"

inductive server_run ::
    "(conn_env \<Rightarrow> session \<Rightarrow> (handler_error, unit) outcome \<times> session) \<Rightarrow> server_conf \<Rightarrow> server_event list \<Rightarrow> server_conf \<Rightarrow> bool"
  for handle where
  run_end: "server_run handle c [] c"
| run_step: "server_step handle c e c' \<Longrightarrow> server_run handle c' es c'' \<Longrightarrow> server_run handle c (e # es) c''"

inductive_simps server_step_Aborted [simp]: "server_step handle Aborted e c"
inductive_simps server_run_Nil [simp]: "server_run handle c [] c'"
inductive_simps server_run_Cons: "server_run handle c (e # es) c'"

lemma server_run_Aborted [simp]: "server_run handle Aborted es c \<longleftrightarrow> es = [] \<and> c = Aborted"
  by (cases es) (auto simp: server_run_Cons)

section \<open>What the tasks add up to\<close>

fun accepted :: "server_event list \<Rightarrow> nat list" where
  "accepted [] = []"
| "accepted (Accepted i # es) = i # accepted es"
| "accepted (_ # es) = accepted es"

fun served :: "server_event list \<Rightarrow> nat list" where
  "served [] = []"
| "served (Served i env client # es) = i # served es"
| "served (_ # es) = served es"

fun permits :: "server_event list \<Rightarrow> nat" where
  "permits [] = 0"
| "permits (PermitTaken i # es) = permits es + 1"
| "permits (_ # es) = permits es"

text \<open>The contract of the handler that the server relies on: it leaves the connection counters alone.\<close>

locale connection_handler =
  fixes handle :: "conn_env \<Rightarrow> session \<Rightarrow> (handler_error, unit) outcome \<times> session"
  assumes handle_count: "session_count (snd (handle env ss)) = session_count ss"
begin

definition within_limit :: "server \<Rightarrow> bool" where
  "within_limit s \<longleftrightarrow> (\<forall>n. sv_limit s = Some n \<longrightarrow> length (sv_running s) \<le> n)"

definition counts :: "server \<Rightarrow> 64 word \<times> 64 word" where
  "counts s = open_count (ps_metrics (sv_state s))"

lemma end_connection_Up:
  assumes "end_connection handle i env client s = Up s'"
  shows "sv_limit s' = sv_limit s \<and> sv_waiting s' = sv_waiting s \<and> sv_running s' = remove1 i (sv_running s)
     \<and> sv_listening s' = sv_listening s \<and> counts s' = (fst (counts s) - 1, snd (counts s))"
proof -
  obtain r ss where h: "handle env (new_session client (sv_state s)) = (r, ss)"
    by (cases "handle env (new_session client (sv_state s))")
  with handle_count [of env "new_session client (sv_state s)"]
  have "session_count ss = open_count (ps_metrics (sv_state s))" by (simp add: new_session_def)
  with assms h show ?thesis
    by (auto simp: end_connection_def counts_def open_count_def dec_active_def split: outcome.splits)
qed

lemma step_accounts:
  assumes "server_step handle (Up s) e (Up s')" and "within_limit s"
    and "fst (counts s) = of_nat (length (sv_running s))"
  shows "sv_limit s' = sv_limit s \<and> within_limit s' \<and> fst (counts s') = of_nat (length (sv_running s'))
     \<and> snd (counts s') = snd (counts s) + of_nat (permits [e])
     \<and> mset (sv_waiting s) + mset (sv_running s) + mset (accepted [e])
         = mset (sv_waiting s') + mset (sv_running s') + mset (served [e])"
  using assms(1)
proof (cases rule: server_step.cases)
  case (permit i)
  with assms(2,3) show ?thesis
    by (auto simp: within_limit_def permit_free_def begin_connection_def counts_def open_count_def
        inc_active_def split: option.splits)
next
  case (serve i env client)
  then have s': "end_connection handle i env client s = Up s'" by simp
  from serve have len: "length (sv_running s) = length (remove1 i (sv_running s)) + 1"
    using length_pos_if_in_set [of i "sv_running s"] by (simp add: length_remove1)
  with end_connection_Up [OF s'] assms(2,3) serve show ?thesis
    by (auto simp: within_limit_def split: option.splits)
qed (use assms(2,3) in \<open>auto simp: within_limit_def counts_def\<close>)

lemma run_accounts:
  assumes "server_run handle (Up s) evs (Up s')" and "within_limit s"
    and "fst (counts s) = of_nat (length (sv_running s))"
  shows "sv_limit s' = sv_limit s \<and> within_limit s' \<and> fst (counts s') = of_nat (length (sv_running s'))
     \<and> snd (counts s') = snd (counts s) + of_nat (permits evs)
     \<and> mset (sv_waiting s) + mset (sv_running s) + mset (accepted evs)
         = mset (sv_waiting s') + mset (sv_running s') + mset (served evs)"
  using assms
proof (induction evs arbitrary: s)
  case (Cons e evs)
  from Cons.prems(1) obtain c where c: "server_step handle (Up s) e c" "server_run handle c evs (Up s')"
    by (auto simp: server_run_Cons)
  then obtain t where t: "c = Up t" by (cases c) auto
  have one: "permits (e # evs) = permits [e] + permits evs" "accepted (e # evs) = accepted [e] @ accepted evs"
    "served (e # evs) = served [e] @ served evs"
    by (cases e; simp)+
  note step = step_accounts [OF c(1) [unfolded t] Cons.prems(2,3)]
  have run: "server_run handle (Up t) evs (Up s')" using c(2) t by simp
  from step Cons.IH [OF run] show ?case
    unfolding one by (auto simp: ac_simps)
qed simp

lemma step_limit: "server_step handle (Up s) e (Up s') \<Longrightarrow> sv_limit s' = sv_limit s"
  by (auto elim!: server_step.cases simp: begin_connection_def dest!: sym [of "Up s'"] end_connection_Up)

lemma run_limit: "server_run handle (Up s) evs (Up s') \<Longrightarrow> sv_limit s' = sv_limit s"
proof (induction evs arbitrary: s)
  case (Cons e evs)
  then obtain c where c: "server_step handle (Up s) e c" "server_run handle c evs (Up s')"
    by (auto simp: server_run_Cons)
  then obtain t where "c = Up t" by (cases c) auto
  with c step_limit Cons.IH [of t] show ?case by simp
qed simp

text \<open>Each task still has its permit to take and its connection to end.\<close>

definition work :: "server \<Rightarrow> nat" where
  "work s = 2 * length (sv_waiting s) + length (sv_running s)"

lemma step_work:
  assumes "server_step handle (Up s) e (Up s')" and "accepted [e] = []"
  shows "work s' + permits [e] + length (served [e]) = work s"
  using assms(1)
proof (cases rule: server_step.cases)
  case (permit i)
  then have "0 < length (sv_waiting s)" by (auto simp: length_pos_if_in_set)
  then have "2 * (length (sv_waiting s) - 1) + 2 = 2 * length (sv_waiting s)" by linarith
  with permit show ?thesis by (simp add: work_def begin_connection_def length_remove1)
next
  case (serve i env client)
  then have s': "end_connection handle i env client s = Up s'" by simp
  with end_connection_Up [OF s'] serve length_pos_if_in_set [of i "sv_running s"] show ?thesis
    by (auto simp: work_def length_remove1)
qed (use assms(2) in \<open>auto simp: work_def\<close>)

lemma run_work:
  assumes "server_run handle (Up s) evs (Up s')" and "accepted evs = []"
  shows "work s' + permits evs + length (served evs) = work s"
  using assms
proof (induction evs arbitrary: s)
  case (Cons e evs)
  from Cons.prems(1) obtain c where c: "server_step handle (Up s) e c" "server_run handle c evs (Up s')"
    by (auto simp: server_run_Cons)
  then obtain t where t: "c = Up t" by (cases c) auto
  have one: "permits (e # evs) = permits [e] + permits evs" "accepted (e # evs) = accepted [e] @ accepted evs"
    "served (e # evs) = served [e] @ served evs"
    by (cases e; simp)+
  have run: "server_run handle (Up t) evs (Up s')" using c(2) t by simp
  from step_work [OF c(1) [unfolded t]] Cons.IH [OF run] Cons.prems(2) show ?case unfolding one by simp
qed simp

lemma work_goes_on:
  assumes "sv_limit s \<noteq> Some 0" and "sv_waiting s \<noteq> [] \<or> sv_running s \<noteq> []"
  shows "(\<exists>i c. server_step handle (Up s) (PermitTaken i) c)
    \<or> (\<exists>i. \<forall>env client. \<exists>c. server_step handle (Up s) (Served i env client) c)"
proof (cases "sv_running s")
  case Nil
  with assms have "permit_free s" by (auto simp: permit_free_def split: option.split)
  moreover from assms(2) Nil obtain i where "i \<in> set (sv_waiting s)" by (cases "sv_waiting s") auto
  ultimately show ?thesis using server_step.permit by blast
next
  case (Cons i rest)
  then have "\<forall>env client. server_step handle (Up s) (Served i env client) (end_connection handle i env client s)"
    by (simp add: server_step.serve)
  then show ?thesis by blast
qed

end

interpretation proxy_handler: connection_handler "\<lambda>env. handle_connection env ctx" for ctx
  by unfold_locales (rule handle_connection_count)

lemma server_start_Ok:
  assumes "server_start max_permits bound config st = Ok s0"
  shows "sv_limit s0 = (if 0 < pc_max_connections config then Some (pc_max_connections config) else None)
    \<and> sv_waiting s0 = [] \<and> sv_running s0 = [] \<and> sv_state s0 = st"
  using assms by (auto simp: server_start_def split: if_splits)

text \<open>
  Property C9.
  The books of the server: whatever arrives and in whatever order the tasks run, as long as the
  process is up there are never more connections handled at a time than the limit allows, the gauge
  of active connections is their number and the total is the number of connections that were
  begun, and every accepted connection is waiting, handled or done, none is refused or lost.
\<close>

theorem server_accounts:
  assumes "server_start max_permits bound config st = Ok s0"
    and "mx_active (ps_metrics st) = 0" and "mx_total (ps_metrics st) = 0"
    and "server_run (\<lambda>env. handle_connection env ctx) (Up s0) evs (Up s)"
  shows "(0 < pc_max_connections config \<longrightarrow> length (sv_running s) \<le> pc_max_connections config)
     \<and> mx_active (ps_metrics (sv_state s)) = of_nat (length (sv_running s))
     \<and> mx_total (ps_metrics (sv_state s)) = of_nat (permits evs)
     \<and> mset (accepted evs) = mset (sv_waiting s) + mset (sv_running s) + mset (served evs)"
proof -
  note s0 = server_start_Ok [OF assms(1)]
  have "proxy_handler.within_limit s0" "fst (proxy_handler.counts s0) = of_nat (length (sv_running s0))"
    "snd (proxy_handler.counts s0) = 0"
    using s0 assms(2,3)
    by (auto simp: proxy_handler.within_limit_def proxy_handler.counts_def open_count_def)
  with proxy_handler.run_accounts [OF assms(4)] s0 show ?thesis
    by (auto simp: proxy_handler.within_limit_def proxy_handler.counts_def open_count_def split: if_splits)
qed


section \<open>A run of the server\<close>

text \<open>Two connections at a limit of one; both clients close without a request.\<close>

definition sample_server :: server where
  "sample_server =
     \<lparr>sv_limit = Some 1, sv_listening = True, sv_waiting = [], sv_running = [], sv_state = sample_state\<rparr>"

definition hang_up :: "nat \<Rightarrow> server_event" where
  "hang_up i = Served i (sample_conn [] []) (peer [])"

lemma sample_server_start:
  "server_start 100 True (default_proxy\<lparr>pc_max_connections := 1\<rparr>) sample_state = Ok sample_server"
  by (simp add: server_start_def sample_server_def default_proxy_def)

lemma hang_up_end:
  "end_connection (\<lambda>env. handle_connection env ctx) i env (peer []) s =
     Up (s\<lparr>sv_running := remove1 i (sv_running s),
          sv_state := (sv_state s)\<lparr>ps_metrics := dec_active (ps_metrics (sv_state s))\<rparr>\<rparr>)"
  by (simp add: end_connection_def handle_connection_def peek_some_def peer_def new_session_def)

lemma sample_server_run:
  "\<exists>s. server_run (\<lambda>env. handle_connection env (sample_ctx [])) (Up sample_server)
     [Accepted 1, Accepted 2, PermitTaken 2] (Up s)
     \<and> sv_waiting s = [1] \<and> sv_running s = [2] \<and> sv_limit s = Some 1"
  by (auto simp: server_run_Cons sample_server_def permit_free_def begin_connection_def
      intro!: server_step.accept server_step.permit exI)

theorem server_accounts_witness:
  "\<exists>s. server_run (\<lambda>env. handle_connection env (sample_ctx [])) (Up sample_server)
     [Accepted 1, Accepted 2, PermitTaken 2] (Up s)
     \<and> length (sv_running s) \<le> 1 \<and> mx_active (ps_metrics (sv_state s)) = 1"
proof -
  obtain s where s: "server_run (\<lambda>env. handle_connection env (sample_ctx [])) (Up sample_server)
      [Accepted 1, Accepted 2, PermitTaken 2] (Up s)" "sv_running s = [2]"
    using sample_server_run by blast
  have "mx_active (ps_metrics sample_state) = 0" "mx_total (ps_metrics sample_state) = 0"
    by (simp_all add: sample_state_def metrics_new_def)
  from server_accounts [OF sample_server_start this s(1)] s show ?thesis by auto
qed


end
