(* ===== verification/Git_Config.thy ===== *)
theory Git_Config
  imports Config Rust_Text
begin

text \<open>
  The proxy settings in the user's global Git configuration (\<open>src/git/config.rs\<close>). The program runs
  \<open>git config --global\<close>: what the command does to the configuration is a parameter, with the laws of
  the locale \<open>git_command\<close> as documented by Git for keys that occur at most once. The path of the
  certificate and whether it exists come from the outside.
\<close>

section \<open>The command\<close>

record 'w git_ops =
  go_get :: "string \<Rightarrow> 'w \<Rightarrow> string option"
  go_set :: "string \<Rightarrow> string \<Rightarrow> 'w \<Rightarrow> bool \<times> 'w"
  go_unset :: "string \<Rightarrow> 'w \<Rightarrow> 'w"

text \<open>
  \<open>single\<close> holds when no key occurs twice. \<open>--get\<close> prints the value and a line feed; a value is kept
  as it is given.
\<close>

locale git_command =
  fixes ops :: "'w git_ops" and single :: "'w \<Rightarrow> bool"
  assumes set_single: "go_set ops k v w = (ok, w') \<Longrightarrow> single w \<Longrightarrow> single w'"
    and unset_single: "single w \<Longrightarrow> single (go_unset ops k w)"
    and get_set: "go_set ops k v w = (True, w') \<Longrightarrow> single w \<Longrightarrow>
      go_get ops k' w' = (if k' = k then Some (v @ [LF]) else go_get ops k' w)"
    and set_failed: "go_set ops k v w = (False, w') \<Longrightarrow> go_get ops k' w' = go_get ops k' w"
    and get_unset: "single w \<Longrightarrow> go_get ops k' (go_unset ops k w) = (if k' = k then None else go_get ops k' w)"

section \<open>Reading and writing a key\<close>

datatype git_error = GitFailed

record git_config =
  gc_proxy_port :: nat
  gc_ca_cert_path :: string
  gc_original_proxy :: "string option"
  gc_original_ssl_ca_info :: "string option"

definition git_config_new :: "string \<Rightarrow> app_config \<Rightarrow> git_config" where
  "git_config_new ca_cert_path config =
     \<lparr>gc_proxy_port = pc_port (ac_proxy config), gc_ca_cert_path = ca_cert_path,
      gc_original_proxy = None, gc_original_ssl_ca_info = None\<rparr>"

definition read_git_config :: "'w git_ops \<Rightarrow> string \<Rightarrow> 'w \<Rightarrow> string option" where
  "read_git_config ops key w =
     (case go_get ops key w of
        None \<Rightarrow> None
      | Some out \<Rightarrow> if valid_utf8 out then Some (trim out) else None)"

definition run_git_config :: "'w git_ops \<Rightarrow> string \<Rightarrow> string \<Rightarrow> 'w \<Rightarrow> (git_error, unit) outcome \<times> 'w" where
  "run_git_config ops key val w =
     (let (ok, w1) = go_set ops key val w in (if ok then Ok () else Err GitFailed, w1))"

text \<open>A failure of \<open>--unset\<close> is ignored.\<close>

definition run_git_config_unset :: "'w git_ops \<Rightarrow> string \<Rightarrow> 'w \<Rightarrow> (git_error, unit) outcome \<times> 'w" where
  "run_git_config_unset ops key w = (Ok (), go_unset ops key w)"

definition github_proxy :: string where "github_proxy = ''http.https://github.com/.proxy''"
definition github_ssl :: string where "github_ssl = ''http.https://github.com/.sslCAInfo''"
definition raw_proxy :: string where "raw_proxy = ''http.https://raw.githubusercontent.com/.proxy''"
definition raw_ssl :: string where "raw_ssl = ''http.https://raw.githubusercontent.com/.sslCAInfo''"

definition proxy_url :: "nat \<Rightarrow> string" where
  "proxy_url port = ''http://127.0.0.1:'' @ show_nat port"

section \<open>Set-up and tear-down\<close>

definition git_setup :: "'w git_ops \<Rightarrow> bool \<Rightarrow> git_config \<Rightarrow> 'w \<Rightarrow> (git_error, unit) outcome \<times> git_config \<times> 'w" where
  "git_setup ops ca_exists g w =
     (let g1 = g\<lparr>gc_original_proxy := read_git_config ops github_proxy w,
                 gc_original_ssl_ca_info := read_git_config ops github_ssl w\<rparr>;
          url = proxy_url (gc_proxy_port g);
          (r, w1) =
            and_then (run_git_config ops github_proxy url w) (\<lambda>w.
            and_then (if ca_exists then run_git_config ops github_ssl (gc_ca_cert_path g) w else (Ok (), w)) (\<lambda>w.
            and_then (run_git_config ops raw_proxy url w) (\<lambda>w.
            run_git_config ops raw_ssl (gc_ca_cert_path g) w)))
      in (r, g1, w1))"

text \<open>One pair of keys is restored: the old value, or none.\<close>

definition restore_key ::
    "'w git_ops \<Rightarrow> string \<Rightarrow> string \<Rightarrow> string option \<Rightarrow> 'w \<Rightarrow> (git_error, unit) outcome \<times> 'w" where
  "restore_key ops github_key raw_key original w =
     (case original of
        Some val \<Rightarrow> and_then (run_git_config ops github_key val w) (\<lambda>w. run_git_config ops raw_key val w)
      | None \<Rightarrow> and_then (run_git_config_unset ops github_key w) (\<lambda>w. run_git_config_unset ops raw_key w))"

definition git_teardown :: "'w git_ops \<Rightarrow> git_config \<Rightarrow> 'w \<Rightarrow> (git_error, unit) outcome \<times> 'w" where
  "git_teardown ops g w =
     and_then (restore_key ops github_proxy raw_proxy (gc_original_proxy g) w) (\<lambda>w.
     restore_key ops github_ssl raw_ssl (gc_original_ssl_ca_info g) w)"

text \<open>The functions of the command line: each starts from a fresh \<open>GitConfig\<close>.\<close>

definition setup_command :: "'w git_ops \<Rightarrow> string \<Rightarrow> bool \<Rightarrow> app_config \<Rightarrow> 'w \<Rightarrow> (git_error, unit) outcome \<times> 'w" where
  "setup_command ops ca_cert_path ca_exists config w =
     (case git_setup ops ca_exists (git_config_new ca_cert_path config) w of (r, g, w1) \<Rightarrow> (r, w1))"

definition teardown_command :: "'w git_ops \<Rightarrow> string \<Rightarrow> 'w \<Rightarrow> (git_error, unit) outcome \<times> 'w" where
  "teardown_command ops ca_cert_path w =
     git_teardown ops
       \<lparr>gc_proxy_port = 2830, gc_ca_cert_path = ca_cert_path, gc_original_proxy = None,
        gc_original_ssl_ca_info = None\<rparr> w"

section \<open>A configuration file\<close>

text \<open>The file as a list of lines, with what Git does when a key occurs more than once.\<close>

definition list_git :: "(string \<times> string) list git_ops" where
  "list_git =
     \<lparr>go_get = (\<lambda>k w. case filter (\<lambda>(k', v). k' = k) w of [] \<Rightarrow> None | es \<Rightarrow> Some (snd (last es) @ [LF])),
      go_set = (\<lambda>k v w. if 1 < length (filter (\<lambda>(k', v). k' = k) w) then (False, w)
                        else (True, AList.update k v w)),
      go_unset = (\<lambda>k w. if length (filter (\<lambda>(k', v). k' = k) w) = 1 then AList.delete k w else w)\<rparr>"

lemma filter_key_distinct:
  "distinct (map fst w) \<Longrightarrow>
     filter (\<lambda>(k', v). k' = k) w = (case map_of w k of None \<Rightarrow> [] | Some v \<Rightarrow> [(k, v)])"
proof (induction w)
  case (Cons e w)
  then have "map_of w (fst e) = None" by (simp add: map_of_eq_None_iff)
  with Cons show ?case by (cases e) auto
qed simp

lemma list_git_get:
  "distinct (map fst w) \<Longrightarrow> go_get list_git k w = map_option (\<lambda>v. v @ [LF]) (map_of w k)"
  by (simp add: list_git_def filter_key_distinct split: option.split)

lemma list_git_set:
  "distinct (map fst w) \<Longrightarrow> go_set list_git k v w = (True, AList.update k v w)"
  by (simp add: list_git_def filter_key_distinct split: option.split)

lemma list_git_unset: "distinct (map fst w) \<Longrightarrow> go_unset list_git k w = AList.delete k w"
  by (auto simp: list_git_def filter_key_distinct delete_conv' map_of_eq_None_iff
      simp flip: map_of_eq_None_iff split: option.split)

interpretation list_git: git_command list_git "\<lambda>w. distinct (map fst w)"
proof
  fix k v ok k' and w w' :: "(string \<times> string) list"
  show "distinct (map fst w')" if "go_set list_git k v w = (ok, w')" "distinct (map fst w)"
    using that by (auto simp: list_git_set distinct_update)
  show "distinct (map fst (go_unset list_git k w))" if "distinct (map fst w)"
    using that by (simp add: list_git_unset distinct_delete)
  show "go_get list_git k' w' = (if k' = k then Some (v @ [LF]) else go_get list_git k' w)"
    if "go_set list_git k v w = (True, w')" "distinct (map fst w)"
    using that by (auto simp: list_git_set list_git_get distinct_update update_conv')
  show "go_get list_git k' w' = go_get list_git k' w" if "go_set list_git k v w = (False, w')"
    using that by (auto simp: list_git_def split: if_splits)
  show "go_get list_git k' (go_unset list_git k w) = (if k' = k then None else go_get list_git k' w)"
    if "distinct (map fst w)"
    using that by (auto simp: list_git_unset list_git_get distinct_delete delete_conv')
qed

section \<open>What is read afterwards\<close>

text \<open>Values as Git prints them: no white space around, and ASCII.\<close>

definition plain_value :: "string \<Rightarrow> bool" where
  "plain_value v \<longleftrightarrow> ascii v \<and> trim v = v"

lemma read_trimmed: "read_git_config ops k w = Some v \<Longrightarrow> trim v = v"
  by (auto simp: read_git_config_def trim_idem split: option.splits if_splits)

lemma read_printed: "plain_value v \<Longrightarrow> go_get ops k w = Some (v @ [LF]) \<Longrightarrow> read_git_config ops k w = Some v"
  by (simp add: read_git_config_def plain_value_def valid_utf8_ascii trim_output)

text \<open>All that can be read, as a map from keys to values.\<close>

definition reads :: "'w git_ops \<Rightarrow> 'w \<Rightarrow> string \<Rightarrow> string option" where
  "reads ops w = (\<lambda>key. read_git_config ops key w)"

context git_command
begin

lemma set_reads:
  assumes "run_git_config ops k v w = (Ok (), w')" and "single w" and "plain_value v"
  shows "single w' \<and> reads ops w' = (reads ops w)(k \<mapsto> v)"
proof -
  have s: "go_set ops k v w = (True, w')"
    using assms(1) by (auto simp: run_git_config_def split: prod.splits if_splits)
  have "reads ops w' k' = ((reads ops w)(k \<mapsto> v)) k'" for k'
    using get_set [OF s assms(2), of k'] read_printed [OF assms(3), of ops k w']
    by (auto simp: reads_def read_git_config_def)
  then show ?thesis using set_single [OF s assms(2)] by blast
qed

lemma unset_reads:
  assumes "single w"
  shows "single (go_unset ops k w)" and "reads ops (go_unset ops k w) = (reads ops w)(k := None)"
  using unset_single [OF assms] get_unset [OF assms]
  by (auto simp: reads_def read_git_config_def)

lemma restore_reads:
  assumes "restore_key ops github_key raw_key original w = (Ok (), w')" and "single w"
    and "\<forall>v. original = Some v \<longrightarrow> plain_value v"
  shows "single w' \<and> reads ops w' = (reads ops w)(github_key := original, raw_key := original)"
proof (cases original)
  case None
  with assms(1) have "w' = go_unset ops raw_key (go_unset ops github_key w)"
    by (auto simp: restore_key_def run_git_config_unset_def and_then_Ok)
  with unset_reads [OF assms(2), of github_key] unset_reads(1,2) show ?thesis
    by (simp add: None)
next
  case (Some v)
  with assms(1) obtain w1 where w1: "run_git_config ops github_key v w = (Ok (), w1)"
      "run_git_config ops raw_key v w1 = (Ok (), w')"
    by (auto simp: restore_key_def and_then_Ok)
  have v: "plain_value v" using assms(3) Some by simp
  from set_reads [OF w1(1) assms(2) v] set_reads [OF w1(2) _ v] show ?thesis by (simp add: Some)
qed

end

lemma git_keys_distinct:
  "github_proxy \<noteq> github_ssl" "github_proxy \<noteq> raw_proxy" "github_proxy \<noteq> raw_ssl"
  "github_ssl \<noteq> raw_proxy" "github_ssl \<noteq> raw_ssl" "raw_proxy \<noteq> raw_ssl"
  by (simp_all add: github_proxy_def github_ssl_def raw_proxy_def raw_ssl_def)

lemma proxy_url_plain: "plain_value (proxy_url n)"
proof -
  have "trim (''http://127.0.0.1:'' @ show_nat n) = ''http://127.0.0.1:'' @ show_nat n"
    using show_nat_no_ws [of n] by (intro trim_id) (auto simp: is_ws_def)
  then show ?thesis using show_nat_ascii by (auto simp: plain_value_def proxy_url_def)
qed

lemma setup_reads:
  assumes "git_command ops single" and "single w" and "plain_value (gc_ca_cert_path g)"
    and "git_setup ops ca_exists g w = (Ok (), g1, w1)"
  shows "single w1 \<and> gc_original_proxy g1 = reads ops w github_proxy
     \<and> gc_original_ssl_ca_info g1 = reads ops w github_ssl
     \<and> reads ops w1 = (reads ops w)
         (github_proxy \<mapsto> proxy_url (gc_proxy_port g),
          github_ssl := (if ca_exists then Some (gc_ca_cert_path g) else reads ops w github_ssl),
          raw_proxy \<mapsto> proxy_url (gc_proxy_port g),
          raw_ssl \<mapsto> gc_ca_cert_path g)"
proof -
  let ?url = "proxy_url (gc_proxy_port g)"
  note set_reads = git_command.set_reads [OF assms(1)]
  from assms(4) obtain a b c where
    steps: "run_git_config ops github_proxy ?url w = (Ok (), a)"
      "(if ca_exists then run_git_config ops github_ssl (gc_ca_cert_path g) a else (Ok (), a)) = (Ok (), b)"
      "run_git_config ops raw_proxy ?url b = (Ok (), c)"
      "run_git_config ops raw_ssl (gc_ca_cert_path g) c = (Ok (), w1)"
    and g1: "g1 = g\<lparr>gc_original_proxy := read_git_config ops github_proxy w,
                    gc_original_ssl_ca_info := read_git_config ops github_ssl w\<rparr>"
    by (auto simp: git_setup_def and_then_Ok Let_def split: prod.splits)
  note a = set_reads [OF steps(1) assms(2) proxy_url_plain]
  have b: "single b \<and> reads ops b = (if ca_exists then (reads ops a)(github_ssl \<mapsto> gc_ca_cert_path g) else reads ops a)"
    using steps(2) a set_reads [OF _ _ assms(3)] by (auto split: if_splits)
  note c = set_reads [OF steps(3) conjunct1 [OF b] proxy_url_plain]
  note d = set_reads [OF steps(4) conjunct1 [OF c] assms(3)]
  from a b c d g1 show ?thesis by (simp add: reads_def [of ops w] reads_def [of ops a] reads_def [of ops b] fun_eq_iff git_keys_distinct git_keys_distinct [symmetric])
qed

section \<open>Properties\<close>

text \<open>
  Property C23.
  Set-up and tear-down of one \<open>GitConfig\<close>: between them Git uses the proxy of the program and its
  certificate for both hosts, and afterwards every key has the value it had before, except that the
  two keys of \<open>raw.githubusercontent.com\<close> have those of \<open>github.com\<close>: what the user had set for them
  is not restored.
\<close>

theorem git_setup_teardown:
  assumes "git_command ops single" and "single w" and "plain_value (gc_ca_cert_path g)"
    and "\<forall>v. reads ops w github_proxy = Some v \<or> reads ops w github_ssl = Some v \<longrightarrow> ascii v"
    and "git_setup ops ca_exists g w = (Ok (), g1, w1)" and "git_teardown ops g1 w1 = (Ok (), w2)"
  shows "reads ops w1 github_proxy = Some (proxy_url (gc_proxy_port g))
     \<and> reads ops w1 raw_proxy = Some (proxy_url (gc_proxy_port g))
     \<and> reads ops w1 raw_ssl = Some (gc_ca_cert_path g)
     \<and> reads ops w2 = (reads ops w)(raw_proxy := reads ops w github_proxy, raw_ssl := reads ops w github_ssl)"
proof -
  note conf = setup_reads [OF assms(1-3,5)]
  have plain: "\<forall>v. reads ops w k = Some v \<longrightarrow> plain_value v" if "k = github_proxy \<or> k = github_ssl" for k
    using that assms(4) read_trimmed by (auto simp: reads_def plain_value_def)
  from assms(6) obtain a where
    a: "restore_key ops github_proxy raw_proxy (reads ops w github_proxy) w1 = (Ok (), a)"
      "restore_key ops github_ssl raw_ssl (reads ops w github_ssl) a = (Ok (), w2)"
    using conf by (auto simp: git_teardown_def and_then_Ok)
  note first = git_command.restore_reads [OF assms(1) a(1) conjunct1 [OF conf] plain]
  note second = git_command.restore_reads [OF assms(1) a(2) conjunct1 [OF first] plain]
  from conf first second show ?thesis
    by (simp add: fun_eq_iff git_keys_distinct git_keys_distinct [symmetric])
qed

lemma teardown_command_reads:
  assumes "git_command ops single" and "single w" and "teardown_command ops path w = (r, w')"
  shows "r = Ok () \<and> single w' \<and> reads ops w' =
     (reads ops w)(github_proxy := None, raw_proxy := None, github_ssl := None, raw_ssl := None)"
proof -
  have r: "r = Ok ()"
    using assms(3) by (auto simp: teardown_command_def git_teardown_def restore_key_def and_then_def
        run_git_config_unset_def)
  with assms(3) obtain a where
    a: "restore_key ops github_proxy raw_proxy None w = (Ok (), a)" "restore_key ops github_ssl raw_ssl None a = (Ok (), w')"
    by (auto simp: teardown_command_def git_teardown_def and_then_Ok)
  note first = git_command.restore_reads [OF assms(1) a(1) assms(2)]
  note second = git_command.restore_reads [OF assms(1) a(2) conjunct1 [OF first]]
  from r first second show ?thesis by simp
qed

text \<open>
  The tear-down of the command line, which the crash recovery runs as well, knows no old values: it
  always succeeds and removes the four keys, also a proxy or a certificate that the user had set
  before the program was ever run. No other key changes.
\<close>

theorem teardown_command_forgets:
  assumes "git_command ops single" and "single w" and "teardown_command ops path w = (r, w')"
  shows "r = Ok () \<and> single w' \<and> reads ops w' =
     (reads ops w)(github_proxy := None, raw_proxy := None, github_ssl := None, raw_ssl := None)"
  using assms by (rule teardown_command_reads)

text \<open>A user whose Git goes through a proxy of the company.\<close>

definition company_proxy :: string where "company_proxy = ''http://proxy:3128''"

definition sample_file :: "(string \<times> string) list" where
  "sample_file = [(raw_proxy, ''http://other:80''), (github_proxy, company_proxy)]"

lemma company_proxy_plain: "plain_value company_proxy"
  by (simp add: plain_value_def company_proxy_def trim_def is_ws_def)

lemma sample_file_single: "distinct (map fst sample_file)"
  using git_keys_distinct by (simp add: sample_file_def)

lemma sample_file_reads:
  "reads list_git sample_file github_proxy = Some company_proxy" "reads list_git sample_file github_ssl = None"
proof -
  have "map_of sample_file github_proxy = Some company_proxy" "map_of sample_file github_ssl = None"
    using git_keys_distinct by (simp_all add: sample_file_def)
  then have "go_get list_git github_proxy sample_file = Some (company_proxy @ [LF])"
    "go_get list_git github_ssl sample_file = None"
    by (simp_all add: list_git_get [OF sample_file_single])
  then show "reads list_git sample_file github_proxy = Some company_proxy" "reads list_git sample_file github_ssl = None"
    using read_printed [OF company_proxy_plain, of list_git github_proxy sample_file]
    by (simp_all add: reads_def read_git_config_def [of _ github_ssl])
qed

lemma list_git_set_single: "distinct (map fst w) \<Longrightarrow> run_git_config list_git k v w = (Ok (), AList.update k v w)"
  by (simp add: run_git_config_def list_git_set)

theorem git_setup_teardown_witness:
  "\<exists>g1 w1 w2. git_setup list_git True (git_config_new ''/ca.pem'' default_app) sample_file = (Ok (), g1, w1)
     \<and> git_teardown list_git g1 w1 = (Ok (), w2)
     \<and> reads list_git w1 github_proxy = Some ''http://127.0.0.1:2830''
     \<and> reads list_git w2 github_proxy = Some company_proxy \<and> reads list_git w2 raw_proxy = Some company_proxy"
proof -
  let ?g = "git_config_new ''/ca.pem'' default_app"
  have path: "plain_value (gc_ca_cert_path ?g)"
    by (simp add: git_config_new_def plain_value_def trim_def is_ws_def)
  have "\<exists>g1 w1. git_setup list_git True ?g sample_file = (Ok (), g1, w1) \<and> distinct (map fst w1)"
    by (simp add: git_setup_def Let_def and_then_def list_git_set_single distinct_update sample_file_single)
  then obtain g1 w1 where conf: "git_setup list_git True ?g sample_file = (Ok (), g1, w1)" "distinct (map fst w1)"
    by blast
  have "\<exists>w2. git_teardown list_git g1 w1 = (Ok (), w2)"
    using conf(2)
    by (auto simp: git_teardown_def restore_key_def and_then_def list_git_set_single distinct_update
        run_git_config_unset_def list_git_unset distinct_delete split: option.split)
  then obtain w2 where down: "git_teardown list_git g1 w1 = (Ok (), w2)" by blast
  have "\<forall>v. reads list_git sample_file github_proxy = Some v \<or> reads list_git sample_file github_ssl = Some v \<longrightarrow> ascii v"
    using company_proxy_plain by (auto simp: sample_file_reads plain_value_def)
  note result = git_setup_teardown [OF list_git.git_command_axioms sample_file_single path this conf(1) down]
  have "proxy_url (gc_proxy_port ?g) = ''http://127.0.0.1:2830''"
    by (simp add: proxy_url_def git_config_new_def default_app_def default_proxy_def show_nat.simps
        digit_char_def char_of_def bit_0)
  with result conf(1) down show ?thesis
    by (auto simp: sample_file_reads git_keys_distinct)
qed

theorem teardown_command_forgets_witness:
  "\<exists>w'. teardown_command list_git ''/ca.pem'' sample_file = (Ok (), w')
     \<and> reads list_git sample_file github_proxy = Some company_proxy \<and> reads list_git w' github_proxy = None"
proof -
  obtain r w' where t: "teardown_command list_git ''/ca.pem'' sample_file = (r, w')"
    by (cases "teardown_command list_git ''/ca.pem'' sample_file")
  from teardown_command_forgets [OF list_git.git_command_axioms sample_file_single t] t sample_file_reads(1)
  show ?thesis by (auto simp: git_keys_distinct)
qed

end
