(* ===== verification/Single_Instance.thy ===== *)
theory Single_Instance
  imports Rust_Text
begin

text \<open>
  The single instance of the program on Unix (\<open>src/utils/process.rs\<close>) and the paths of its files
  (\<open>src/utils/paths.rs\<close>). The file with the process number is opened and emptied, then locked with
  \<open>flock\<close>; a lock belongs to the file that was opened, not to its path, so the file at the path has
  an identity, a number that is new whenever the file is created anew. Writing the process number is
  taken to succeed. The Windows part (a named mutex) is in \<open>Process_Queries\<close>.
\<close>

section \<open>Paths\<close>

definition data_dir :: "string option \<Rightarrow> string option \<Rightarrow> string" where
  "data_dir config_dir home_dir =
     (case config_dir of
        Some d \<Rightarrow> d
      | None \<Rightarrow> (case home_dir of Some d \<Rightarrow> d | None \<Rightarrow> ''.'')) @ ''/.hakimi-hub''"

definition ca_cert_path :: "string \<Rightarrow> string" where "ca_cert_path dir = dir @ ''/ca.crt.pem''"
definition ca_key_path :: "string \<Rightarrow> string" where "ca_key_path dir = dir @ ''/ca.key.pem''"
definition cert_cache_dir :: "string \<Rightarrow> string" where "cert_cache_dir dir = dir @ ''/certs''"
definition pid_file_path :: "string \<Rightarrow> string" where "pid_file_path dir = dir @ ''/hakimi-hub.pid''"
definition log_dir :: "string \<Rightarrow> string" where "log_dir dir = dir @ ''/logs''"
definition cache_dir :: "string \<Rightarrow> string" where "cache_dir dir = dir @ ''/cache''"

section \<open>The lock\<close>

record instances =
  in_file :: "(nat \<times> string) option"
  in_locks :: "(nat \<times> nat) list"
  in_next :: nat

datatype instance_error = HeldBySelf | HeldByOther | PidUnreadable

definition holds :: "nat \<Rightarrow> instances \<Rightarrow> bool" where
  "holds pid w \<longleftrightarrow> pid \<in> snd ` set (in_locks w)"

text \<open>\<open>File::create\<close>: an existing file is emptied. \<open>creatable\<close> says if it can be opened.\<close>

definition create_file :: "instances \<Rightarrow> nat \<times> instances" where
  "create_file w =
     (case in_file w of
        Some (ino, _) \<Rightarrow> (ino, w\<lparr>in_file := Some (ino, [])\<rparr>)
      | None \<Rightarrow> (in_next w, w\<lparr>in_file := Some (in_next w, []), in_next := in_next w + 1\<rparr>))"

definition try_lock :: "bool \<Rightarrow> nat \<Rightarrow> instances \<Rightarrow> bool \<times> instances" where
  "try_lock creatable pid w =
     (if \<not> creatable then (False, w)
      else
        let (ino, w1) = create_file w
        in if ino \<in> fst ` set (in_locks w1) then (False, w1)
           else (True, w1\<lparr>in_file := Some (ino, show_nat pid @ [LF]), in_locks := (ino, pid) # in_locks w1\<rparr>))"

definition acquire_single_instance ::
    "bool \<Rightarrow> nat \<Rightarrow> instances \<Rightarrow> (instance_error, unit) outcome \<times> instances" where
  "acquire_single_instance creatable pid w =
     (if holds pid w then (Err HeldBySelf, w)
      else
        (case try_lock creatable pid w of
           (True, w1) \<Rightarrow> (Ok (), w1)
         | (False, w1) \<Rightarrow> (Err HeldByOther, w1)))"

text \<open>The end of a process gives up its locks; \<open>release\<close> removes the file at the path as well.\<close>

definition process_ends :: "nat \<Rightarrow> instances \<Rightarrow> instances" where
  "process_ends pid w = w\<lparr>in_locks := filter (\<lambda>(_, p). p \<noteq> pid) (in_locks w)\<rparr>"

definition remove_pid_file :: "instances \<Rightarrow> instances" where
  "remove_pid_file w = w\<lparr>in_file := None\<rparr>"

definition release_single_instance :: "nat \<Rightarrow> instances \<Rightarrow> instances" where
  "release_single_instance pid w = remove_pid_file (process_ends pid w)"

section \<open>The process number\<close>

definition parse_pid :: "string \<Rightarrow> nat option" where
  "parse_pid content = parse_uint (2 ^ 32 - 1) (hd (split_on LF (trim content)))"

text \<open>A file that does not hold a number is removed.\<close>

definition read_pid_file :: "instances \<Rightarrow> (instance_error, nat option) outcome \<times> instances" where
  "read_pid_file w =
     (case in_file w of
        None \<Rightarrow> (Ok None, w)
      | Some (_, content) \<Rightarrow>
          if \<not> valid_utf8 content then (Err PidUnreadable, w)
          else
            (case parse_pid content of
               Some pid \<Rightarrow> (Ok (Some pid), w)
             | None \<Rightarrow> (Ok None, remove_pid_file w)))"

text \<open>
  The commands \<open>status\<close> and \<open>stop\<close> (\<open>src/cli/commands.rs\<close>): what they report, and for \<open>stop\<close> the
  process that gets a signal. \<open>alive\<close> says which processes there are.
\<close>

definition status_command :: "(nat \<Rightarrow> bool) \<Rightarrow> instances \<Rightarrow> (instance_error, nat option) outcome \<times> instances" where
  "status_command alive w =
     (case read_pid_file w of
        (Ok (Some pid), w1) \<Rightarrow> if alive pid then (Ok (Some pid), w1) else (Ok None, remove_pid_file w1)
      | (r, w1) \<Rightarrow> (r, w1))"

definition stop_command :: "instances \<Rightarrow> (instance_error, nat option) outcome \<times> instances" where
  "stop_command w = read_pid_file w"

section \<open>Runs\<close>

text \<open>Only a process that was started properly releases the instance (the flag \<open>running\<close> of the hub).\<close>

datatype instance_op = Start bool nat | Stop nat | Die nat | Status | StopOrder

fun instance_step :: "(nat \<Rightarrow> bool) \<Rightarrow> instance_op \<Rightarrow> instances \<Rightarrow> instances" where
  "instance_step alive (Start creatable pid) w = snd (acquire_single_instance creatable pid w)"
| "instance_step alive (Stop pid) w = (if holds pid w then release_single_instance pid w else w)"
| "instance_step alive (Die pid) w = process_ends pid w"
| "instance_step alive Status w = snd (status_command alive w)"
| "instance_step alive StopOrder w = snd (stop_command w)"

fun asks :: "instance_op \<Rightarrow> bool" where
  "asks Status = True"
| "asks StopOrder = True"
| "asks _ = False"

definition no_instance :: instances where
  "no_instance = \<lparr>in_file = None, in_locks = [], in_next = 0\<rparr>"

text \<open>All locks are on the file at the path, so there is one at most.\<close>

definition instance_inv :: "instances \<Rightarrow> bool" where
  "instance_inv w \<longleftrightarrow> in_locks w = [] \<or> (\<exists>ino pid c. in_locks w = [(ino, pid)] \<and> in_file w = Some (ino, c))"

lemma instance_inv_step:
  assumes "instance_inv w" and "\<not> asks op"
  shows "instance_inv (instance_step alive op w)"
  using assms
  by (cases op) (auto simp: instance_inv_def acquire_single_instance_def try_lock_def create_file_def
      holds_def release_single_instance_def remove_pid_file_def process_ends_def split: option.splits if_splits)

lemma instance_inv_run:
  "\<forall>op \<in> set ops. \<not> asks op \<Longrightarrow> instance_inv w \<Longrightarrow> instance_inv (fold (instance_step alive) ops w)"
  by (induction ops arbitrary: w) (auto intro: instance_inv_step)



text \<open>
  Property C26.
  A failed start breaks this. When a process has the instance and the file, a second start is refused,
  but it empties the file: from then on \<open>status\<close> reports that nothing runs, and it removes the file as
  \<open>stop\<close> does, although the first process still runs. The next start creates a new file and gets a
  lock on it, so two processes have the instance; before, \<open>status\<close> had named the first one.
\<close>

theorem two_instances:
  assumes "in_locks w = [(ino, p)]" and "in_file w = Some (ino, show_nat p @ [LF])" and "p < 2 ^ 32"
    and "alive p" and "q \<noteq> p" and "r \<noteq> p"
    and "w1 = snd (acquire_single_instance True q w)" and "w2 = snd (status_command alive w1)"
    and "w3 = snd (acquire_single_instance True r w2)" and "ino < in_next w"
  shows "fst (status_command alive w) = Ok (Some p)
     \<and> fst (acquire_single_instance True q w) = Err HeldByOther
     \<and> fst (status_command alive w1) = Ok None \<and> fst (stop_command w1) = Ok None
     \<and> fst (acquire_single_instance True r w2) = Ok () \<and> holds p w3 \<and> holds r w3"
proof -
  have "trim (show_nat p) = show_nat p" using show_nat_no_ws by (rule trim_no_ws)
  then have "trim (show_nat p @ [LF]) = show_nat p" by (rule trim_output)
  moreover have "split_on LF (show_nat p) = [show_nat p]"
    using show_nat_no_ws [of p] by (intro split_by_none) (auto simp: is_ws_def)
  ultimately have parse: "parse_pid (show_nat p @ [LF]) = Some p"
    using assms(3) by (simp add: parse_pid_def parse_show_nat)
  have valid: "valid_utf8 (show_nat p @ [LF])" "valid_utf8 []"
    using show_nat_ascii [of p] by (intro valid_utf8_ascii; auto)+
  have none: "parse_pid [] = None" by (simp add: parse_pid_def trim_def parse_uint_def)
  have w1: "w1 = w\<lparr>in_file := Some (ino, [])\<rparr>"
    using assms(1,2,5,7) by (simp add: acquire_single_instance_def holds_def try_lock_def create_file_def)
  then have w2: "w2 = w1\<lparr>in_file := None\<rparr>" and told: "fst (status_command alive w1) = Ok None"
    using assms(8) none valid(2)
    by (simp_all add: status_command_def read_pid_file_def remove_pid_file_def)
  have "fst (acquire_single_instance True r w2) = Ok ()" "holds p w3" "holds r w3"
    using w1 w2 assms(1,6,9,10)
    by (simp_all add: acquire_single_instance_def holds_def try_lock_def create_file_def)
  moreover have "fst (stop_command w1) = Ok None"
    using w1 none valid(2) by (simp add: stop_command_def read_pid_file_def)
  moreover have "fst (status_command alive w) = Ok (Some p)"
    using assms(2,4) parse valid(1) by (simp add: status_command_def read_pid_file_def)
  moreover have "fst (acquire_single_instance True q w) = Err HeldByOther"
    using assms(1,2,5) by (simp add: acquire_single_instance_def holds_def try_lock_def create_file_def)
  ultimately show ?thesis using told by simp
qed

theorem two_instances_witness:
  "\<exists>w3. w3 = fold (instance_step (\<lambda>_. True)) [Start True 7, Start True 8, Status, Start True 9] no_instance
     \<and> holds 7 w3 \<and> holds 9 w3"
proof -
  let ?w = "\<lparr>in_file = Some (0, show_nat 7 @ [LF]), in_locks = [(0, 7)], in_next = 1\<rparr>"
  have "snd (acquire_single_instance True 7 no_instance) = ?w"
    by (simp add: no_instance_def acquire_single_instance_def holds_def try_lock_def create_file_def)
  with two_instances [of ?w 0 7 "\<lambda>_. True" 8 9] show ?thesis by simp
qed

end
