(* ===== verification/System_Proxy.thy ===== *)
theory System_Proxy
  imports Http_Text
begin

text \<open>
  The guard of the system's proxy settings (\<open>src/system/proxy_guard/\<close>): on Windows four values of the
  registry and a backup file, on macOS commands of \<open>networksetup\<close>, on Linux a flag only. The registry,
  JSON and what a command does are parameters; of the commands the model keeps what was run. Poisoned
  locks are not modelled. The functions \<open>read_proxy_settings\<close>, which nothing calls, are in \<open>Proxy_Reading\<close>.
\<close>

section \<open>The interface of a guard\<close>

datatype proxy_error = ProxyFailed

text \<open>
  \<open>'g\<close> is the guard that a process holds, \<open>'s\<close> what is outside of it: settings and backup. A guard is
  created, set, restored and dropped; \<open>gd_recover\<close> works without a guard, after a crash, and
  \<open>gd_cleanup\<close> removes the backup file.
\<close>

record ('g, 's) guard_ops =
  gd_new :: 'g
  gd_set :: "nat \<Rightarrow> 'g \<Rightarrow> 's \<Rightarrow> (proxy_error, unit) outcome \<times> 'g \<times> 's"
  gd_restore :: "'g \<Rightarrow> 's \<Rightarrow> (proxy_error, unit) outcome \<times> 'g \<times> 's"
  gd_drop :: "'g \<Rightarrow> 's \<Rightarrow> 's"
  gd_recover :: "'s \<Rightarrow> (proxy_error, unit) outcome \<times> 's"
  gd_cleanup :: "'s \<Rightarrow> 's"

text \<open>\<open>same\<close> compares the settings that the user sees.\<close>

locale proxy_guard =
  fixes ops :: "('g, 's) guard_ops" and same :: "'s \<Rightarrow> 's \<Rightarrow> bool"
  assumes same_refl: "same s s"
    and restored: "gd_set ops port (gd_new ops) s = (Ok (), g, s1) \<Longrightarrow>
      gd_restore ops g s1 = (Ok (), g', s2) \<Longrightarrow> same s s2"
    and drop_restored: "gd_restore ops g s = (Ok (), g', s') \<Longrightarrow> gd_drop ops g' s'' = s''"
    and drop_new: "gd_drop ops (gd_new ops) s = s"

section \<open>Windows\<close>

datatype reg_value = RegDword nat | RegText string

record 'r reg_ops =
  ro_readable :: "'r \<Rightarrow> bool"
  ro_writable :: "'r \<Rightarrow> bool"
  ro_get :: "string \<Rightarrow> 'r \<Rightarrow> reg_value option"
  ro_set :: "string \<Rightarrow> reg_value \<Rightarrow> 'r \<Rightarrow> bool \<times> 'r"

record system_proxy_settings =
  sp_proxy_enabled :: bool
  sp_proxy_server :: "string option"
  sp_proxy_override :: "string option"

record json_ops =
  js_print :: "system_proxy_settings \<Rightarrow> string"
  js_parse :: "string \<Rightarrow> system_proxy_settings option"

record saved_proxy_state =
  sa_proxy_enable :: nat
  sa_proxy_server :: "string option"
  sa_proxy_override :: "string option"
  sa_auto_config_url :: "string option"

record win_guard =
  wg_state :: "saved_proxy_state option"
  wg_set_by_us :: bool

record 'r win_system =
  wi_reg :: 'r
  wi_backup :: "string option"

definition enable_key :: string where "enable_key = ''ProxyEnable''"
definition server_key :: string where "server_key = ''ProxyServer''"
definition override_key :: string where "override_key = ''ProxyOverride''"
definition pac_key :: string where "pac_key = ''AutoConfigURL''"

definition local_pac_url :: "nat \<Rightarrow> string" where
  "local_pac_url port = ''http://127.0.0.1:'' @ show_nat port @ ''/pac''"

definition reg_dword :: "'r reg_ops \<Rightarrow> string \<Rightarrow> 'r \<Rightarrow> nat" where
  "reg_dword ops key r = (case ro_get ops key r of Some (RegDword n) \<Rightarrow> n | _ \<Rightarrow> 0)"

definition reg_text :: "'r reg_ops \<Rightarrow> string \<Rightarrow> 'r \<Rightarrow> string option" where
  "reg_text ops key r = (case ro_get ops key r of Some (RegText s) \<Rightarrow> Some s | _ \<Rightarrow> None)"

definition set_reg :: "'r reg_ops \<Rightarrow> string \<Rightarrow> reg_value \<Rightarrow> 'r \<Rightarrow> (proxy_error, unit) outcome \<times> 'r" where
  "set_reg ops key v r = (let (ok, r1) = ro_set ops key v r in (if ok then Ok () else Err ProxyFailed, r1))"

definition text_or_empty :: "string option \<Rightarrow> reg_value" where
  "text_or_empty x = RegText (case x of Some s \<Rightarrow> s | None \<Rightarrow> [])"

definition read_current_state :: "'r reg_ops \<Rightarrow> 'r \<Rightarrow> (proxy_error, saved_proxy_state) outcome" where
  "read_current_state ops r =
     (if \<not> ro_readable ops r then Err ProxyFailed
      else Ok \<lparr>sa_proxy_enable = reg_dword ops enable_key r, sa_proxy_server = reg_text ops server_key r,
              sa_proxy_override = reg_text ops override_key r, sa_auto_config_url = reg_text ops pac_key r\<rparr>)"

definition write_pac_config :: "'r reg_ops \<Rightarrow> nat \<Rightarrow> 'r \<Rightarrow> (proxy_error, unit) outcome \<times> 'r" where
  "write_pac_config ops port r =
     (if \<not> ro_writable ops r then (Err ProxyFailed, r)
      else
        and_then (set_reg ops enable_key (RegDword 0) r) (\<lambda>r.
        and_then (set_reg ops server_key (RegText []) r) (\<lambda>r.
        and_then (set_reg ops override_key (RegText []) r) (\<lambda>r.
        set_reg ops pac_key (RegText (local_pac_url port)) r))))"

definition write_saved_state :: "'r reg_ops \<Rightarrow> saved_proxy_state \<Rightarrow> 'r \<Rightarrow> (proxy_error, unit) outcome \<times> 'r" where
  "write_saved_state ops saved r =
     and_then (set_reg ops enable_key (RegDword (sa_proxy_enable saved)) r) (\<lambda>r.
     and_then (set_reg ops server_key (text_or_empty (sa_proxy_server saved)) r) (\<lambda>r.
     and_then (set_reg ops override_key (text_or_empty (sa_proxy_override saved)) r) (\<lambda>r.
     set_reg ops pac_key (text_or_empty (sa_auto_config_url saved)) r)))"

text \<open>The backup has no \<open>AutoConfigURL\<close>. \<open>disk_ok\<close> says if the backup file can be written.\<close>

definition win_set_proxy ::
    "'r reg_ops \<Rightarrow> json_ops \<Rightarrow> bool \<Rightarrow> nat \<Rightarrow> win_guard \<Rightarrow> 'r win_system
     \<Rightarrow> (proxy_error, unit) outcome \<times> win_guard \<times> 'r win_system" where
  "win_set_proxy ops js disk_ok port g s =
     (case (case wg_state g of Some saved \<Rightarrow> Ok saved | None \<Rightarrow> read_current_state ops (wi_reg s)) of
        Err e \<Rightarrow> (Err e, g, s)
      | Panic \<Rightarrow> (Panic, g, s)
      | Ok saved \<Rightarrow>
          let g1 = g\<lparr>wg_state := Some saved\<rparr>;
              settings = \<lparr>sp_proxy_enabled = (sa_proxy_enable saved \<noteq> 0), sp_proxy_server = sa_proxy_server saved,
                          sp_proxy_override = sa_proxy_override saved\<rparr>
          in if \<not> disk_ok then (Err ProxyFailed, g1, s)
             else
               (case write_pac_config ops port (wi_reg s) of
                  (Ok _, r1) \<Rightarrow>
                    (Ok (), g1\<lparr>wg_set_by_us := True\<rparr>, s\<lparr>wi_reg := r1, wi_backup := Some (js_print js settings)\<rparr>)
                | (Err e, r1) \<Rightarrow> (Err e, g1, s\<lparr>wi_reg := r1, wi_backup := Some (js_print js settings)\<rparr>)
                | (Panic, r1) \<Rightarrow> (Panic, g1, s)))"

definition win_restore_sync ::
    "'r reg_ops \<Rightarrow> win_guard \<Rightarrow> 'r win_system \<Rightarrow> (proxy_error, unit) outcome \<times> win_guard \<times> 'r win_system" where
  "win_restore_sync ops g s =
     (if \<not> wg_set_by_us g then (Ok (), g, s)
      else
        let g1 = g\<lparr>wg_state := None\<rparr>
        in case wg_state g of
             None \<Rightarrow> (Ok (), g1\<lparr>wg_set_by_us := False\<rparr>, s)
           | Some saved \<Rightarrow>
               if \<not> ro_writable ops (wi_reg s) then (Err ProxyFailed, g1, s)
               else
                 (case write_saved_state ops saved (wi_reg s) of
                    (Ok _, r1) \<Rightarrow> (Ok (), g1\<lparr>wg_set_by_us := False\<rparr>, s\<lparr>wi_reg := r1, wi_backup := None\<rparr>)
                  | (Err e, r1) \<Rightarrow> (Err e, g1, s\<lparr>wi_reg := r1\<rparr>)
                  | (Panic, r1) \<Rightarrow> (Panic, g1, s\<lparr>wi_reg := r1\<rparr>)))"

definition win_drop :: "'r reg_ops \<Rightarrow> win_guard \<Rightarrow> 'r win_system \<Rightarrow> 'r win_system" where
  "win_drop ops g s =
     (if \<not> wg_set_by_us g then s
      else
        (case wg_state g of
           None \<Rightarrow> s
         | Some saved \<Rightarrow>
             if ro_writable ops (wi_reg s)
             then s\<lparr>wi_reg := snd (write_saved_state ops saved (wi_reg s)), wi_backup := None\<rparr>
             else s))"

text \<open>After a crash: what fails to be written is left, the backup is removed.\<close>

definition win_restore_settings ::
    "'r reg_ops \<Rightarrow> json_ops \<Rightarrow> 'r win_system \<Rightarrow> (proxy_error, unit) outcome \<times> 'r win_system" where
  "win_restore_settings ops js s =
     (case wi_backup s of
        None \<Rightarrow> (Ok (), s)
      | Some content \<Rightarrow>
          (case js_parse js content of
             None \<Rightarrow> (Err ProxyFailed, s)
           | Some settings \<Rightarrow>
               if \<not> ro_writable ops (wi_reg s) then (Err ProxyFailed, s)
               else
                 let r1 = snd (ro_set ops enable_key (RegDword (if sp_proxy_enabled settings then 1 else 0)) (wi_reg s));
                     r2 = snd (ro_set ops server_key (text_or_empty (sp_proxy_server settings)) r1);
                     r3 = snd (ro_set ops override_key (text_or_empty (sp_proxy_override settings)) r2);
                     r4 = snd (ro_set ops pac_key (RegText []) r3)
                 in (Ok (), s\<lparr>wi_reg := r4, wi_backup := None\<rparr>)))"

definition win_guard_ops :: "'r reg_ops \<Rightarrow> json_ops \<Rightarrow> bool \<Rightarrow> (win_guard, 'r win_system) guard_ops" where
  "win_guard_ops ops js disk_ok =
     \<lparr>gd_new = \<lparr>wg_state = None, wg_set_by_us = False\<rparr>, gd_set = win_set_proxy ops js disk_ok,
      gd_restore = win_restore_sync ops, gd_drop = win_drop ops, gd_recover = win_restore_settings ops js,
      gd_cleanup = (\<lambda>s. s\<lparr>wi_backup := None\<rparr>)\<rparr>"

section \<open>The registry\<close>

lemma reg_keys_distinct [simp]:
  "enable_key \<noteq> server_key" "enable_key \<noteq> override_key" "enable_key \<noteq> pac_key"
  "server_key \<noteq> enable_key" "override_key \<noteq> enable_key" "pac_key \<noteq> enable_key"
  "server_key \<noteq> override_key" "server_key \<noteq> pac_key" "override_key \<noteq> server_key"
  "pac_key \<noteq> server_key" "override_key \<noteq> pac_key" "pac_key \<noteq> override_key"
  by (simp_all add: enable_key_def server_key_def override_key_def pac_key_def)

text \<open>A value that was written is read back.\<close>

locale registry =
  fixes ops :: "'r reg_ops"
  assumes get_set: "ro_set ops k v r = (True, r') \<Longrightarrow> ro_get ops k' r' = (if k' = k then Some v else ro_get ops k' r)"
    and set_failed: "ro_set ops k v r = (False, r') \<Longrightarrow> ro_get ops k' r' = ro_get ops k' r"
begin

lemma set_reg_get:
  "set_reg ops k v r = (Ok (), r') \<Longrightarrow> ro_get ops k' r' = (if k' = k then Some v else ro_get ops k' r)"
  using get_set by (auto simp: set_reg_def split: prod.splits if_splits)

lemma write_saved_get:
  assumes "write_saved_state ops saved r = (Ok (), r')"
  shows "ro_get ops k r' =
    (if k = pac_key then Some (text_or_empty (sa_auto_config_url saved))
     else if k = override_key then Some (text_or_empty (sa_proxy_override saved))
     else if k = server_key then Some (text_or_empty (sa_proxy_server saved))
     else if k = enable_key then Some (RegDword (sa_proxy_enable saved)) else ro_get ops k r)"
  using assms by (auto simp: write_saved_state_def and_then_Ok set_reg_get)

lemma write_pac_get:
  assumes "write_pac_config ops port r = (Ok (), r')"
  shows "ro_get ops k r' =
    (if k = pac_key then Some (RegText (local_pac_url port))
     else if k = override_key then Some (RegText [])
     else if k = server_key then Some (RegText [])
     else if k = enable_key then Some (RegDword 0) else ro_get ops k r)"
  using assms by (auto simp: write_pac_config_def and_then_Ok set_reg_get split: if_splits)

end

text \<open>An absent text is as good as an empty one, an absent number as 0.\<close>

definition same_value :: "'r reg_ops \<Rightarrow> string \<Rightarrow> 'r \<Rightarrow> 'r \<Rightarrow> bool" where
  "same_value ops key r r' \<longleftrightarrow>
     (if key = enable_key then reg_dword ops key r' = reg_dword ops key r
      else if key \<in> {server_key, override_key, pac_key}
      then text_or_empty (reg_text ops key r') = text_or_empty (reg_text ops key r)
      else ro_get ops key r' = ro_get ops key r)"

definition same_settings :: "'r reg_ops \<Rightarrow> 'r win_system \<Rightarrow> 'r win_system \<Rightarrow> bool" where
  "same_settings ops s s' \<longleftrightarrow> (\<forall>key. same_value ops key (wi_reg s) (wi_reg s'))"

lemma reg_value_simps:
  "ro_get ops k r = Some (RegDword n) \<Longrightarrow> reg_dword ops k r = n"
  "ro_get ops k r = Some (text_or_empty x) \<Longrightarrow> text_or_empty (reg_text ops k r) = text_or_empty x"
  "ro_get ops k r = Some (RegText x') \<Longrightarrow> reg_text ops k r = Some x'"
  by (auto simp: reg_dword_def reg_text_def text_or_empty_def)

lemma win_set_proxy_Ok:
  assumes "win_set_proxy ops js disk_ok port \<lparr>wg_state = None, wg_set_by_us = False\<rparr> s = (Ok (), g, s1)"
  shows "\<exists>saved. read_current_state ops (wi_reg s) = Ok saved
    \<and> g = \<lparr>wg_state = Some saved, wg_set_by_us = True\<rparr>
    \<and> write_pac_config ops port (wi_reg s) = (Ok (), wi_reg s1)
    \<and> wi_backup s1 = Some (js_print js \<lparr>sp_proxy_enabled = (sa_proxy_enable saved \<noteq> 0),
         sp_proxy_server = sa_proxy_server saved, sp_proxy_override = sa_proxy_override saved\<rparr>)"
  using assms by (auto simp: win_set_proxy_def Let_def split: outcome.splits prod.splits if_splits)

lemma read_current_state_Ok:
  "read_current_state ops r = Ok saved \<Longrightarrow>
     sa_proxy_enable saved = reg_dword ops enable_key r \<and> sa_proxy_server saved = reg_text ops server_key r
     \<and> sa_proxy_override saved = reg_text ops override_key r
     \<and> sa_auto_config_url saved = reg_text ops pac_key r"
  by (auto simp: read_current_state_def split: if_splits)

context registry
begin

lemma set_then_restore:
  assumes "win_set_proxy ops js disk_ok port \<lparr>wg_state = None, wg_set_by_us = False\<rparr> s = (Ok (), g, s1)"
    and "win_restore_sync ops g s1 = (Ok (), g', s2)"
  shows "same_settings ops s s2 \<and> wi_backup s2 = None"
proof -
  from win_set_proxy_Ok [OF assms(1)] obtain saved where
    saved: "read_current_state ops (wi_reg s) = Ok saved" "g = \<lparr>wg_state = Some saved, wg_set_by_us = True\<rparr>"
      "write_pac_config ops port (wi_reg s) = (Ok (), wi_reg s1)"
    by blast
  with assms(2) have w: "write_saved_state ops saved (wi_reg s1) = (Ok (), wi_reg s2)" "wi_backup s2 = None"
    by (auto simp: win_restore_sync_def Let_def split: if_splits outcome.splits prod.splits)
  note get = write_saved_get [OF w(1)] write_pac_get [OF saved(3)] and old = read_current_state_Ok [OF saved(1)]
  have "same_value ops key (wi_reg s) (wi_reg s2)" for key
    using get(1) [of key] get(2) [of key] old reg_value_simps(1,2) [of ops key "wi_reg s2"]
    by (auto simp: same_value_def)
  with w(2) show ?thesis by (simp add: same_settings_def)
qed

end

sublocale registry \<subseteq> windows: proxy_guard "win_guard_ops ops js disk_ok" "same_settings ops" for js disk_ok
proof
  fix s port g s1 g' s2 s''
  show "same_settings ops s s" by (simp add: same_settings_def same_value_def)
  show "same_settings ops s s2"
    if "gd_set (win_guard_ops ops js disk_ok) port (gd_new (win_guard_ops ops js disk_ok)) s = (Ok (), g, s1)"
      "gd_restore (win_guard_ops ops js disk_ok) g s1 = (Ok (), g', s2)"
    using set_then_restore that by (simp add: win_guard_ops_def)
  show "gd_drop (win_guard_ops ops js disk_ok) g' s'' = s''"
    if "gd_restore (win_guard_ops ops js disk_ok) g s1 = (Ok (), g', s2)"
    using that
    by (auto simp: win_guard_ops_def win_restore_sync_def win_drop_def Let_def
        split: if_splits option.splits outcome.splits prod.splits)
  show "gd_drop (win_guard_ops ops js disk_ok) (gd_new (win_guard_ops ops js disk_ok)) s = s"
    by (simp add: win_guard_ops_def win_drop_def)
qed

text \<open>A registry as a list of values.\<close>

definition list_registry :: "(string \<times> reg_value) list reg_ops" where
  "list_registry =
     \<lparr>ro_readable = (\<lambda>r. True), ro_writable = (\<lambda>r. True), ro_get = (\<lambda>k r. map_of r k),
      ro_set = (\<lambda>k v r. (True, AList.update k v r))\<rparr>"

interpretation list_registry: registry list_registry
  by unfold_locales (auto simp: list_registry_def update_conv')

text \<open>
  Property C24.
  On Windows an orderly run leaves the proxy settings as they were: while the program runs the manual
  proxy is off and the script of the program is set, and after the guard is restored every value reads
  as before, an absent text as an empty one, and no backup is left.
\<close>

theorem windows_settings_restored:
  assumes "registry ops"
    and "win_set_proxy ops js disk_ok port \<lparr>wg_state = None, wg_set_by_us = False\<rparr> s = (Ok (), g, s1)"
    and "win_restore_sync ops g s1 = (Ok (), g', s2)"
  shows "reg_dword ops enable_key (wi_reg s1) = 0 \<and> reg_text ops pac_key (wi_reg s1) = Some (local_pac_url port)
     \<and> same_settings ops s s2 \<and> wi_backup s2 = None"
proof -
  from win_set_proxy_Ok [OF assms(2)] have w: "write_pac_config ops port (wi_reg s) = (Ok (), wi_reg s1)" by blast
  from registry.write_pac_get [OF assms(1) w, of enable_key] registry.write_pac_get [OF assms(1) w, of pac_key]
  have "reg_dword ops enable_key (wi_reg s1) = 0" "reg_text ops pac_key (wi_reg s1) = Some (local_pac_url port)"
    by (simp_all add: reg_value_simps)
  with registry.set_then_restore [OF assms] show ?thesis by simp
qed

lemma win_recover_get:
  assumes "registry ops" and "\<And>k v r. fst (ro_set ops k v r)" and "\<And>x. js_parse js (js_print js x) = Some x"
    and "ro_writable ops (wi_reg s)" and "wi_backup s = Some (js_print js settings)"
    and "win_restore_settings ops js s = (res, s')"
  shows "res = Ok () \<and> wi_backup s' = None \<and> ro_get ops k (wi_reg s') =
    (if k = pac_key then Some (RegText [])
     else if k = override_key then Some (text_or_empty (sp_proxy_override settings))
     else if k = server_key then Some (text_or_empty (sp_proxy_server settings))
     else if k = enable_key then Some (RegDword (if sp_proxy_enabled settings then 1 else 0))
     else ro_get ops k (wi_reg s))"
proof -
  have set: "ro_set ops k v r = (True, snd (ro_set ops k v r))" for k v r
    using assms(2) [of k v r] by (metis prod.collapse)
  note get = registry.get_set [OF assms(1) set]
  show ?thesis
    using assms(3-6) get by (auto simp: win_restore_settings_def Let_def)
qed

text \<open>
  The recovery after a crash restores less: when the process dies while its script is set, the next
  start puts back the two texts of the manual proxy, and its switch up to the difference between 1
  and other numbers, but the script that the user had configured before is lost, it is always
  empty afterwards.
\<close>

theorem windows_recovery_loses_script:
  assumes "registry ops" and "\<And>k v r. fst (ro_set ops k v r)" and "\<And>x. js_parse js (js_print js x) = Some x"
    and "win_set_proxy ops js disk_ok port \<lparr>wg_state = None, wg_set_by_us = False\<rparr> s = (Ok (), g, s1)"
    and "ro_writable ops (wi_reg s1)" and "win_restore_settings ops js s1 = (res, s2)"
  shows "res = Ok () \<and> wi_backup s2 = None \<and> reg_text ops pac_key (wi_reg s2) = Some []
     \<and> reg_dword ops enable_key (wi_reg s2) = (if reg_dword ops enable_key (wi_reg s) = 0 then 0 else 1)
     \<and> same_value ops server_key (wi_reg s) (wi_reg s2) \<and> same_value ops override_key (wi_reg s) (wi_reg s2)"
proof -
  from win_set_proxy_Ok [OF assms(4)] obtain saved where
    saved: "read_current_state ops (wi_reg s) = Ok saved"
      "wi_backup s1 = Some (js_print js \<lparr>sp_proxy_enabled = (sa_proxy_enable saved \<noteq> 0),
         sp_proxy_server = sa_proxy_server saved, sp_proxy_override = sa_proxy_override saved\<rparr>)"
    by blast
  note get = win_recover_get [OF assms(1-3,5) saved(2) assms(6)]
  from get [of pac_key] get [of enable_key] get [of server_key] get [of override_key] read_current_state_Ok [OF saved(1)]
    reg_value_simps(1) [of ops enable_key "wi_reg s2"] reg_value_simps(2) [of ops _ "wi_reg s2"]
    reg_value_simps(3) [of ops pac_key "wi_reg s2"]
  show ?thesis by (auto simp: same_value_def)
qed

definition company_script :: string where "company_script = ''http://intranet/pac''"

definition sample_registry :: "(string \<times> reg_value) list win_system" where
  "sample_registry = \<lparr>wi_reg = [(enable_key, RegDword 1), (pac_key, RegText company_script)], wi_backup = None\<rparr>"

text \<open>A printer and a parser that agree, as those of JSON do: each text has its length in front.\<close>

definition put_text :: "string option \<Rightarrow> string" where
  "put_text x = (case x of None \<Rightarrow> ''n'' | Some s \<Rightarrow> CHR ''s'' # replicate (length s) CHR ''1'' @ CHR ''0'' # s)"

definition get_text :: "string \<Rightarrow> string option \<times> string" where
  "get_text xs =
     (if hd xs = CHR ''n'' then (None, tl xs)
      else
        let n = length (takeWhile (\<lambda>c. c = CHR ''1'') (tl xs)); rest = drop (n + 1) (tl xs)
        in (Some (take n rest), drop n rest))"

definition sample_json :: json_ops where
  "sample_json =
     \<lparr>js_print = (\<lambda>x. (if sp_proxy_enabled x then CHR ''1'' else CHR ''0'') # put_text (sp_proxy_server x)
          @ put_text (sp_proxy_override x)),
      js_parse = (\<lambda>xs. let (server, r) = get_text (tl xs)
          in Some \<lparr>sp_proxy_enabled = (hd xs = CHR ''1''), sp_proxy_server = server,
                   sp_proxy_override = fst (get_text r)\<rparr>)\<rparr>"

lemma get_put_text: "get_text (put_text x @ xs) = (x, xs)"
proof (cases x)
  case (Some s)
  have "takeWhile (\<lambda>c. c = CHR ''1'') (replicate (length s) CHR ''1'' @ CHR ''0'' # ys) = replicate (length s) CHR ''1''" for ys
    by (subst takeWhile_append2) auto
  with Some show ?thesis by (simp add: get_text_def put_text_def)
qed (simp add: get_text_def put_text_def)

lemma sample_json_parse: "js_parse sample_json (js_print sample_json x) = Some x"
  using get_put_text [of "sp_proxy_override x" "[]"] by (simp add: sample_json_def get_put_text)

lemma sample_set_proxy:
  "\<exists>g s1. win_set_proxy list_registry sample_json True 2830 \<lparr>wg_state = None, wg_set_by_us = False\<rparr> sample_registry
     = (Ok (), g, s1)"
  by (simp add: win_set_proxy_def read_current_state_def write_pac_config_def set_reg_def and_then_def
      list_registry_def Let_def)

theorem windows_settings_restored_witness:
  "\<exists>g s1 g' s2. win_set_proxy list_registry sample_json True 2830 \<lparr>wg_state = None, wg_set_by_us = False\<rparr> sample_registry
       = (Ok (), g, s1)
     \<and> win_restore_sync list_registry g s1 = (Ok (), g', s2)
     \<and> reg_text list_registry pac_key (wi_reg s1) \<noteq> Some company_script
     \<and> same_settings list_registry sample_registry s2"
proof -
  obtain g s1 where set: "win_set_proxy list_registry sample_json True 2830 \<lparr>wg_state = None, wg_set_by_us = False\<rparr>
      sample_registry = (Ok (), g, s1)"
    using sample_set_proxy by blast
  have "\<exists>g' s2. win_restore_sync list_registry g s1 = (Ok (), g', s2)"
    using win_set_proxy_Ok [OF set]
    by (auto simp: win_restore_sync_def write_saved_state_def set_reg_def and_then_def list_registry_def Let_def)
  then obtain g' s2 where rest: "win_restore_sync list_registry g s1 = (Ok (), g', s2)" by blast
  have "local_pac_url 2830 \<noteq> company_script" by (simp add: local_pac_url_def company_script_def)
  with windows_settings_restored [OF list_registry.registry_axioms set rest] set rest show ?thesis by auto
qed

theorem windows_recovery_loses_script_witness:
  "\<exists>g s1 s2. win_set_proxy list_registry sample_json True 2830 \<lparr>wg_state = None, wg_set_by_us = False\<rparr> sample_registry
       = (Ok (), g, s1)
     \<and> win_restore_settings list_registry sample_json s1 = (Ok (), s2)
     \<and> reg_text list_registry pac_key (wi_reg sample_registry) = Some company_script
     \<and> reg_text list_registry pac_key (wi_reg s2) = Some []"
proof -
  obtain g s1 where set: "win_set_proxy list_registry sample_json True 2830 \<lparr>wg_state = None, wg_set_by_us = False\<rparr>
      sample_registry = (Ok (), g, s1)"
    using sample_set_proxy by blast
  obtain res s2 where rec: "win_restore_settings list_registry sample_json s1 = (res, s2)"
    by (cases "win_restore_settings list_registry sample_json s1")
  have "fst (ro_set list_registry k v r)" for k v r by (simp add: list_registry_def)
  moreover have "ro_writable list_registry (wi_reg s1)" by (simp add: list_registry_def)
  moreover have "reg_text list_registry pac_key (wi_reg sample_registry) = Some company_script"
    by (simp add: reg_text_def list_registry_def sample_registry_def)
  ultimately show ?thesis
    using windows_recovery_loses_script [OF list_registry.registry_axioms _ sample_json_parse set _ rec] set rec by auto
qed

section \<open>macOS\<close>

text \<open>The services that \<open>networksetup\<close> lists; \<open>listing\<close> is its output, if it can be run.\<close>

definition get_network_services :: "string option \<Rightarrow> string list" where
  "get_network_services listing =
     (case listing of
        None \<Rightarrow> [''Wi-Fi'']
      | Some out \<Rightarrow> filter (\<lambda>l. l \<noteq> [] \<and> \<not> starts_with l ''*'') (drop 1 (str_lines (utf8_lossy out))))"

text \<open>The commands that were run, oldest first, and the marker file.\<close>

record mac_system =
  ms_commands :: "string list list"
  ms_backup :: bool

definition mac_clear :: "string option \<Rightarrow> mac_system \<Rightarrow> mac_system" where
  "mac_clear listing s =
     s\<lparr>ms_commands := ms_commands s @
         map (\<lambda>service. [''-setautoproxyurl'', service, []]) (get_network_services listing),
       ms_backup := False\<rparr>"

definition mac_set_proxy :: "string option \<Rightarrow> nat \<Rightarrow> bool \<Rightarrow> mac_system \<Rightarrow> (proxy_error, unit) outcome \<times> bool \<times> mac_system" where
  "mac_set_proxy listing port set_by_us s =
     (Ok (), True,
      s\<lparr>ms_backup := True,
        ms_commands := ms_commands s @
          concat (map (\<lambda>service.
            [[''-setwebproxystate'', service, ''off''], [''-setsecurewebproxystate'', service, ''off''],
             [''-setautoproxyurl'', service, local_pac_url port]]) (get_network_services listing))\<rparr>)"

definition mac_restore_sync :: "string option \<Rightarrow> bool \<Rightarrow> mac_system \<Rightarrow> (proxy_error, unit) outcome \<times> bool \<times> mac_system" where
  "mac_restore_sync listing set_by_us s =
     (if \<not> set_by_us then (Ok (), set_by_us, s) else (Ok (), False, mac_clear listing s))"

definition mac_drop :: "string option \<Rightarrow> bool \<Rightarrow> mac_system \<Rightarrow> mac_system" where
  "mac_drop listing set_by_us s = (if set_by_us then mac_clear listing s else s)"

definition mac_restore_settings :: "string option \<Rightarrow> mac_system \<Rightarrow> (proxy_error, unit) outcome \<times> mac_system" where
  "mac_restore_settings listing s = (Ok (), if ms_backup s then mac_clear listing s else s)"

definition mac_guard_ops :: "string option \<Rightarrow> (bool, mac_system) guard_ops" where
  "mac_guard_ops listing =
     \<lparr>gd_new = False, gd_set = mac_set_proxy listing, gd_restore = mac_restore_sync listing, gd_drop = mac_drop listing,
      gd_recover = mac_restore_settings listing, gd_cleanup = (\<lambda>s. s\<lparr>ms_backup := False\<rparr>)\<rparr>"

text \<open>
  What was switched off is not switched on again: of all the commands of a run and of its recovery
  none sets the state of a manual proxy to anything but \<open>off\<close>.
\<close>

lemma mac_manual_proxy_stays_off:
  assumes "mac_set_proxy listing port False s = (r, g, s1)" and "mac_restore_sync listing' g s1 = (r', g', s2)"
    and "c \<in> set (drop (length (ms_commands s)) (ms_commands s2))"
    and "hd c \<in> {''-setwebproxystate'', ''-setsecurewebproxystate''}"
  shows "c ! 2 = ''off''"
  using assms by (auto simp: mac_set_proxy_def mac_restore_sync_def mac_clear_def)

text \<open>
  The script that is set for a service is that of the last command for it. The guard leaves each
  service with the script it had or with none.
\<close>

definition sets_pac :: "string \<Rightarrow> string list \<Rightarrow> bool" where
  "sets_pac service c \<longleftrightarrow> c ! 0 = ''-setautoproxyurl'' \<and> c ! 1 = service"

definition mac_pac :: "mac_system \<Rightarrow> string \<Rightarrow> string option" where
  "mac_pac s service =
     (let cs = filter (sets_pac service) (ms_commands s) in if cs = [] then None else Some (last cs ! 2))"

definition pac_kept_or_off :: "mac_system \<Rightarrow> mac_system \<Rightarrow> bool" where
  "pac_kept_or_off s s' \<longleftrightarrow> (\<forall>service. mac_pac s' service \<in> {mac_pac s service, Some []})"

lemma switch_off_commands:
  "filter (sets_pac service) (map (\<lambda>service. [''-setautoproxyurl'', service, []]) services)
     = replicate (length (filter (\<lambda>x. x = service) services)) [''-setautoproxyurl'', service, []]"
  by (induction services) (simp_all add: sets_pac_def)

lemma set_commands_other:
  "service \<notin> set services \<Longrightarrow>
   filter (sets_pac service) (concat (map (\<lambda>service.
      [[''-setwebproxystate'', service, ''off''], [''-setsecurewebproxystate'', service, ''off''],
       [''-setautoproxyurl'', service, url]]) services)) = []"
  by (induction services) (auto simp: sets_pac_def)

lemma mac_set_restore: "pac_kept_or_off s (mac_clear listing (snd (snd (mac_set_proxy listing port g s))))"
proof -
  have "mac_pac (mac_clear listing (snd (snd (mac_set_proxy listing port g s)))) service \<in> {mac_pac s service, Some []}"
    for service
  proof (cases "service \<in> set (get_network_services listing)")
    case True
    then have "filter (\<lambda>x. x = service) (get_network_services listing) \<noteq> []" by (auto simp: filter_empty_conv)
    then have "0 < length (filter (\<lambda>x. x = service) (get_network_services listing))" by blast
    then show ?thesis
      by (simp add: mac_pac_def mac_clear_def mac_set_proxy_def switch_off_commands last_append)
  next
    case False
    then have "filter (\<lambda>x. x = service) (get_network_services listing) = []" by (auto simp: filter_empty_conv)
    with False show ?thesis
      by (simp add: mac_pac_def mac_clear_def mac_set_proxy_def switch_off_commands set_commands_other)
  qed
  then show ?thesis by (simp add: pac_kept_or_off_def)
qed

interpretation mac: proxy_guard "mac_guard_ops listing" pac_kept_or_off for listing
proof
  fix port g g' s s1 s2
  assume "gd_set (mac_guard_ops listing) port (gd_new (mac_guard_ops listing)) s = (Ok (), g, s1)"
    and "gd_restore (mac_guard_ops listing) g s1 = (Ok (), g', s2)"
  then show "pac_kept_or_off s s2"
    using mac_set_restore [of s listing port False]
    by (auto simp: mac_guard_ops_def mac_set_proxy_def mac_restore_sync_def)
qed (auto simp: pac_kept_or_off_def mac_guard_ops_def mac_restore_sync_def mac_drop_def split: if_splits)

section \<open>Linux\<close>

text \<open>Nothing is set: the user is told to.\<close>

definition linux_guard_ops :: "(bool, unit) guard_ops" where
  "linux_guard_ops =
     \<lparr>gd_new = False, gd_set = (\<lambda>port g s. (Ok (), True, s)), gd_restore = (\<lambda>g s. (Ok (), False, s)),
      gd_drop = (\<lambda>g s. s), gd_recover = (\<lambda>s. (Ok (), s)), gd_cleanup = (\<lambda>s. s)\<rparr>"

interpretation linux: proxy_guard linux_guard_ops "\<lambda>s s'. s = s'"
  by unfold_locales (auto simp: linux_guard_ops_def)

end
