(* ===== verification/Hub.thy ===== *)
theory Hub
  imports Proxy_Server Single_Instance System_Proxy Git_Config Dns_Resolver
begin

text \<open>
  The life of a process of the program (\<open>src/core/hub.rs\<close>) and the recovery after a crash
  (\<open>src/core/shutdown.rs\<close>): what a start, an orderly end, a failure on the way and a sudden death leave
  behind on the machine. The machine is the single instance of \<open>Single_Instance\<close>, the crash marker, the
  Git configuration of \<open>Git_Config\<close> and the proxy settings behind a guard of \<open>System_Proxy\<close>. The
  environment says which file operations succeed and if the resolver and the certificate authority
  could be set up. A guard that leaves its scope is dropped. Signals choose the moment of the end, and which tasks hear of it.
\<close>

section \<open>What is built from the configuration\<close>

definition hub_context :: "(string \<Rightarrow> string) \<Rightarrow> app_config \<Rightarrow> handler_ctx" where
  "hub_context hash config =
     handler_context_new (pc_mitm_enabled (ac_proxy config)) github_defaults
       (matcher_new (ic_rules (ac_intercepts config))) hash (dc_sni_spoof_domain (ac_dns config))
       (pc_mitm_enabled (ac_proxy config)) (pc_port (ac_proxy config)) (pc_idle_timeout_secs (ac_proxy config))"

definition hub_state ::
    "nat \<Rightarrow> (string, string) assoc \<Rightarrow> (string, cache_metadata) assoc option \<Rightarrow> app_config \<Rightarrow> proxy_state" where
  "hub_state now files saved config =
     \<lparr>ps_cache = rc_new files saved (ac_cache config), ps_mirrors = default_tracker, ps_metrics = metrics_new now,
      ps_tasks = []\<rparr>"

section \<open>The machine and the hub\<close>

record ('w, 's) machine =
  ma_instances :: instances
  ma_marker :: "string option"
  ma_git :: 'w
  ma_proxy :: 's

record 'g hub =
  hb_running :: bool
  hb_guard :: "'g option"

datatype hub_error = InstanceError instance_error | MarkerError | ResolverError | AuthorityError | ProxyError

record hub_env =
  he_pid :: nat
  he_creatable :: bool
  he_marker_write :: bool
  he_marker_remove :: bool
  he_resolver :: bool
  he_authority :: bool
  he_config :: app_config
  he_ca_path :: string

definition new_hub :: "'g hub" where
  "new_hub = \<lparr>hb_running = False, hb_guard = None\<rparr>"

section \<open>Recovery\<close>

definition remove_crash_marker :: "bool \<Rightarrow> ('w, 's) machine \<Rightarrow> (hub_error, unit) outcome \<times> ('w, 's) machine" where
  "remove_crash_marker removable m =
     (case ma_marker m of
        None \<Rightarrow> (Ok (), m)
      | Some _ \<Rightarrow> if removable then (Ok (), m\<lparr>ma_marker := None\<rparr>) else (Err MarkerError, m))"

text \<open>Errors of the two restorations are only logged.\<close>

definition recover_all ::
    "'w git_ops \<Rightarrow> ('g, 's) guard_ops \<Rightarrow> string \<Rightarrow> bool \<Rightarrow> ('w, 's) machine
     \<Rightarrow> (hub_error, unit) outcome \<times> ('w, 's) machine" where
  "recover_all git gd ca_path removable m =
     remove_crash_marker removable
       (m\<lparr>ma_git := snd (teardown_command git ca_path (ma_git m)),
          ma_proxy := gd_cleanup gd (snd (gd_recover gd (ma_proxy m)))\<rparr>)"

section \<open>Start and end\<close>

definition hub_prepare ::
    "'w git_ops \<Rightarrow> ('g, 's) guard_ops \<Rightarrow> hub_env \<Rightarrow> ('w, 's) machine
     \<Rightarrow> (hub_error, unit) outcome \<times> 'g hub \<times> ('w, 's) machine" where
  "hub_prepare git gd env m =
     (case acquire_single_instance (he_creatable env) (he_pid env) (ma_instances m) of
        (Err e, i) \<Rightarrow> (Err (InstanceError e), new_hub, m\<lparr>ma_instances := i\<rparr>)
      | (Panic, i) \<Rightarrow> (Panic, new_hub, m\<lparr>ma_instances := i\<rparr>)
      | (Ok _, i) \<Rightarrow>
          let m1 = m\<lparr>ma_instances := i\<rparr>
          in case (if ma_marker m1 \<noteq> None then recover_all git gd (he_ca_path env) (he_marker_remove env) m1
                   else (Ok (), m1)) of
               (Err e, m2) \<Rightarrow> (Err e, new_hub, m2)
             | (Panic, m2) \<Rightarrow> (Panic, new_hub, m2)
             | (Ok _, m2) \<Rightarrow>
                 if \<not> he_marker_write env then (Err MarkerError, new_hub, m2)
                 else (Ok (), new_hub\<lparr>hb_running := True\<rparr>, m2\<lparr>ma_marker := Some (show_nat (he_pid env))\<rparr>))"

definition hub_init ::
    "('g, 's) guard_ops \<Rightarrow> hub_env \<Rightarrow> 'g hub \<Rightarrow> ('w, 's) machine
     \<Rightarrow> (hub_error, unit) outcome \<times> 'g hub \<times> ('w, 's) machine" where
  "hub_init gd env h m =
     (if \<not> he_resolver env then (Err ResolverError, h, m)
      else if \<not> he_authority env then (Err AuthorityError, h, m)
      else if \<not> pc_auto_set_system_proxy (ac_proxy (he_config env)) then (Ok (), h, m)
      else
        (case gd_set gd (pc_port (ac_proxy (he_config env))) (gd_new gd) (ma_proxy m) of
           (Ok _, g, s) \<Rightarrow> (Ok (), h\<lparr>hb_guard := Some g\<rparr>, m\<lparr>ma_proxy := s\<rparr>)
         | (Err e, g, s) \<Rightarrow> (Err ProxyError, h, m\<lparr>ma_proxy := gd_drop gd g s\<rparr>)
         | (Panic, g, s) \<Rightarrow> (Panic, h, m\<lparr>ma_proxy := s\<rparr>)))"

text \<open>A guard that is taken from the hub is restored, and dropped whatever came of it.\<close>

definition restore_taken :: "('g, 's) guard_ops \<Rightarrow> 'g option \<Rightarrow> 's \<Rightarrow> (proxy_error, unit) outcome \<times> 's" where
  "restore_taken gd guard s =
     (case guard of
        None \<Rightarrow> (Ok (), s)
      | Some g \<Rightarrow> (case gd_restore gd g s of (r, g1, s1) \<Rightarrow> (r, gd_drop gd g1 s1)))"

definition hub_stop ::
    "('g, 's) guard_ops \<Rightarrow> hub_env \<Rightarrow> 'g hub \<Rightarrow> ('w, 's) machine
     \<Rightarrow> (hub_error, unit) outcome \<times> 'g hub \<times> ('w, 's) machine" where
  "hub_stop gd env h m =
     (if \<not> hb_running h then (Ok (), h, m)
      else
        (case restore_taken gd (hb_guard h) (ma_proxy m) of
           (Err e, s) \<Rightarrow> (Err ProxyError, new_hub, m\<lparr>ma_proxy := s\<rparr>)
         | (Panic, s) \<Rightarrow> (Panic, new_hub, m\<lparr>ma_proxy := s\<rparr>)
         | (Ok _, s) \<Rightarrow>
             (case remove_crash_marker (he_marker_remove env) (m\<lparr>ma_proxy := s\<rparr>) of
                (Err e, m1) \<Rightarrow> (Err e, new_hub, m1)
              | (Panic, m1) \<Rightarrow> (Panic, new_hub, m1)
              | (Ok _, m1) \<Rightarrow>
                  (Ok (), new_hub, m1\<lparr>ma_instances := release_single_instance (he_pid env) (ma_instances m1)\<rparr>))))"

definition hub_drop :: "('g, 's) guard_ops \<Rightarrow> hub_env \<Rightarrow> 'g hub \<Rightarrow> ('w, 's) machine \<Rightarrow> ('w, 's) machine" where
  "hub_drop gd env h m =
     (if \<not> hb_running h then m
      else
        let m1 = m\<lparr>ma_proxy := snd (restore_taken gd (hb_guard h) (ma_proxy m))\<rparr>;
            m2 = snd (remove_crash_marker (he_marker_remove env) m1)
        in m2\<lparr>ma_instances := release_single_instance (he_pid env) (ma_instances m2)\<rparr>)"

text \<open>The whole start: it returns when the process is told to shut down.\<close>

definition hub_start ::
    "'w git_ops \<Rightarrow> ('g, 's) guard_ops \<Rightarrow> hub_env \<Rightarrow> ('w, 's) machine
     \<Rightarrow> (hub_error, unit) outcome \<times> 'g hub \<times> ('w, 's) machine" where
  "hub_start git gd env m =
     (case hub_prepare git gd env m of
        (Ok _, h, m1) \<Rightarrow>
          (case hub_init gd env h m1 of
             (Ok _, h2, m2) \<Rightarrow> hub_stop gd env h2 m2
           | (Err e, h2, m2) \<Rightarrow> (Err e, h2, m2)
           | (Panic, h2, m2) \<Rightarrow> (Panic, h2, m2))
      | (Err e, h, m1) \<Rightarrow> (Err e, h, m1)
      | (Panic, h, m1) \<Rightarrow> (Panic, h, m1))"

text \<open>
  A process that ends by itself drops its hub; the operating system takes its lock. One that is
  killed while it serves, or that a panic ends, does not clean up.
\<close>

definition end_process :: "hub_env \<Rightarrow> ('w, 's) machine \<Rightarrow> ('w, 's) machine" where
  "end_process env m = m\<lparr>ma_instances := process_ends (he_pid env) (ma_instances m)\<rparr>"

definition hub_process ::
    "'w git_ops \<Rightarrow> ('g, 's) guard_ops \<Rightarrow> hub_env \<Rightarrow> ('w, 's) machine \<Rightarrow> (hub_error, unit) outcome \<times> ('w, 's) machine" where
  "hub_process git gd env m =
     (case hub_start git gd env m of
        (Panic, h, m1) \<Rightarrow> (Panic, end_process env m1)
      | (r, h, m1) \<Rightarrow> (r, end_process env (hub_drop gd env h m1)))"

definition hub_killed ::
    "'w git_ops \<Rightarrow> ('g, 's) guard_ops \<Rightarrow> hub_env \<Rightarrow> ('w, 's) machine \<Rightarrow> (hub_error, unit) outcome \<times> ('w, 's) machine" where
  "hub_killed git gd env m =
     (case hub_prepare git gd env m of
        (Ok _, h, m1) \<Rightarrow> (case hub_init gd env h m1 of (r, h2, m2) \<Rightarrow> (r, end_process env m2))
      | (Err e, h, m1) \<Rightarrow> (Err e, end_process env m1)
      | (Panic, h, m1) \<Rightarrow> (Panic, end_process env m1))"

section \<open>What a process leaves behind\<close>

text \<open>Git and the proxy after the recovery, which runs only if there is a marker.\<close>

definition git_after :: "'w git_ops \<Rightarrow> hub_env \<Rightarrow> ('w, 's) machine \<Rightarrow> 'w" where
  "git_after git env m =
     (if ma_marker m = None then ma_git m else snd (teardown_command git (he_ca_path env) (ma_git m)))"

definition proxy_after :: "('g, 's) guard_ops \<Rightarrow> ('w, 's) machine \<Rightarrow> 's" where
  "proxy_after gd m =
     (if ma_marker m = None then ma_proxy m else gd_cleanup gd (snd (gd_recover gd (ma_proxy m))))"

lemma hub_prepare_Ok:
  assumes "hub_prepare git gd env m = (Ok (), h, m1)"
  shows "\<exists>i. acquire_single_instance (he_creatable env) (he_pid env) (ma_instances m) = (Ok (), i)
    \<and> h = \<lparr>hb_running = True, hb_guard = None\<rparr>
    \<and> m1 = \<lparr>ma_instances = i, ma_marker = Some (show_nat (he_pid env)), ma_git = git_after git env m,
            ma_proxy = proxy_after gd m\<rparr>"
  using assms
  by (auto simp: hub_prepare_def recover_all_def remove_crash_marker_def git_after_def proxy_after_def
      new_hub_def Let_def split: outcome.splits prod.splits if_splits option.splits)

lemma hub_prepare_starts:
  assumes "acquire_single_instance (he_creatable env) (he_pid env) (ma_instances m) = (Ok (), i)"
    and "he_marker_write env" and "he_marker_remove env"
  shows "\<exists>h m1. hub_prepare git gd env m = (Ok (), h, m1)"
  using assms
  by (auto simp: hub_prepare_def recover_all_def remove_crash_marker_def Let_def split: option.splits)

lemma released:
  "\<not> holds pid (release_single_instance pid i)" "in_file (release_single_instance pid i) = None"
  "in_file (process_ends pid i) = in_file i" "\<not> holds pid (process_ends pid i)"
  by (auto simp: holds_def release_single_instance_def remove_pid_file_def process_ends_def)

text \<open>The end of a process whose hub runs, with or without a guard.\<close>

definition clean :: "hub_env \<Rightarrow> 'w \<Rightarrow> ('w, 's) machine \<Rightarrow> bool" where
  "clean env git m \<longleftrightarrow> ma_marker m = None \<and> in_file (ma_instances m) = None
     \<and> \<not> holds (he_pid env) (ma_instances m) \<and> ma_git m = git"

lemma hub_drop_clean:
  assumes "hb_running h" and "he_marker_remove env"
  shows "clean env (ma_git m) (end_process env (hub_drop gd env h m))
     \<and> ma_proxy (end_process env (hub_drop gd env h m)) = snd (restore_taken gd (hb_guard h) (ma_proxy m))"
  using assms
  by (auto simp: clean_def end_process_def hub_drop_def remove_crash_marker_def Let_def released split: option.splits)

lemma hub_stop_clean:
  assumes "hb_running h" and "he_marker_remove env" and "restore_taken gd (hb_guard h) (ma_proxy m) = (Ok (), s)"
  shows "\<exists>m1. hub_stop gd env h m = (Ok (), new_hub, m1) \<and> clean env (ma_git m) (end_process env m1)
     \<and> ma_proxy (end_process env m1) = s"
  using assms
  by (auto simp: clean_def end_process_def hub_stop_def remove_crash_marker_def Let_def released split: option.splits)

lemma hub_init_serves:
  assumes "proxy_guard gd same" and "he_resolver env \<and> he_authority env" and "hb_running h \<and> hb_guard h = None"
    and "\<forall>g s. fst (gd_restore gd g s) = Ok ()"
    and "\<forall>s. fst (gd_set gd (pc_port (ac_proxy (he_config env))) (gd_new gd) s) = Ok ()"
  shows "\<exists>h2 m2 s. hub_init gd env h m1 = (Ok (), h2, m2) \<and> hb_running h2 \<and> ma_git m2 = ma_git m1
    \<and> restore_taken gd (hb_guard h2) (ma_proxy m2) = (Ok (), s) \<and> same (ma_proxy m1) s"
proof (cases "pc_auto_set_system_proxy (ac_proxy (he_config env))")
  case True
  obtain g s1 where set: "gd_set gd (pc_port (ac_proxy (he_config env))) (gd_new gd) (ma_proxy m1) = (Ok (), g, s1)"
    using assms(5) by (metis prod.collapse)
  obtain g' s2 where rest: "gd_restore gd g s1 = (Ok (), g', s2)"
    using assms(4) by (metis prod.collapse)
  have "hub_init gd env h m1 = (Ok (), h\<lparr>hb_guard := Some g\<rparr>, m1\<lparr>ma_proxy := s1\<rparr>)"
    using True assms(2) set by (simp add: hub_init_def)
  moreover have "restore_taken gd (Some g) s1 = (Ok (), s2)"
    using rest proxy_guard.drop_restored [OF assms(1) rest] by (simp add: restore_taken_def)
  moreover have "same (ma_proxy m1) s2" by (rule proxy_guard.restored [OF assms(1) set rest])
  ultimately show ?thesis using assms(3) by simp
next
  case False
  with assms(2,3) proxy_guard.same_refl [OF assms(1)] show ?thesis
    by (simp add: hub_init_def restore_taken_def)
qed


section \<open>The shutdown\<close>

text \<open>
  \<open>ShutdownSignal::wait\<close> returns on a signal or when somebody sends on the channel of the hub. Only in
  the second case do the tasks that listen to the channel hear of it.
\<close>

datatype shutdown_cause = Sigint | Sigterm | Sent

record hub_tasks =
  ht_server :: bool
  ht_probe :: bool
  ht_panel :: bool

text \<open>A task that is told takes the time \<open>t\<close> to end, and is waited for until the limit.\<close>

definition wait_for_task :: "bool \<Rightarrow> nat \<Rightarrow> nat \<Rightarrow> nat \<times> bool" where
  "wait_for_task told limit t = (if told \<and> t \<le> limit then (t, False) else (limit, True))"

text \<open>
  The server is aborted, the other two tasks are waited for, the probes up to two seconds and the
  panel, if there is one, up to one: how long that takes, and which tasks run on.
\<close>

definition end_tasks :: "bool \<Rightarrow> shutdown_cause \<Rightarrow> nat \<Rightarrow> nat \<Rightarrow> nat \<times> hub_tasks" where
  "end_tasks no_ui cause probe_time panel_time =
     (let told = (cause = Sent); (t1, probing) = wait_for_task told (secs 2) probe_time;
          (t2, drawing) = (if no_ui then (0, False) else wait_for_task told (secs 1) (panel_time - t1))
      in (t1 + t2, \<lparr>ht_server = False, ht_probe = probing, ht_panel = drawing\<rparr>))"

text \<open>
  A signal is not passed on: the program waits for the full limits, and afterwards the panel is still
  drawn while the hub is stopped. No command sends on the channel.
\<close>

lemma signal_leaves_tasks:
  "cause \<noteq> Sent \<Longrightarrow> end_tasks no_ui cause t t' =
     (if no_ui then secs 2 else secs 3, \<lparr>ht_server = False, ht_probe = True, ht_panel = \<not> no_ui\<rparr>)"
  by (simp add: end_tasks_def wait_for_task_def)

section \<open>What a crash costs\<close>

lemma remove_crash_marker_git [simp]: "ma_git (snd (remove_crash_marker removable m)) = ma_git m"
  by (auto simp: remove_crash_marker_def split: option.splits)

lemma remove_crash_marker_git': "remove_crash_marker removable m = (r, m1) \<Longrightarrow> ma_git m1 = ma_git m"
  using remove_crash_marker_git by (metis snd_conv)

lemma hub_init_git: "hub_init gd env h m = (r, h1, m1) \<Longrightarrow> ma_git m1 = ma_git m \<and> ma_marker m1 = ma_marker m"
  by (auto simp: hub_init_def split: if_splits outcome.splits prod.splits)

lemma hub_stop_git: "hub_stop gd env h m = (r, h1, m1) \<Longrightarrow> ma_git m1 = ma_git m"
  by (auto simp: hub_stop_def dest!: remove_crash_marker_git' split: if_splits outcome.splits prod.splits)

lemma hub_drop_git: "ma_git (hub_drop gd env h m) = ma_git m"
  by (simp add: hub_drop_def Let_def)

lemma hub_prepare_git:
  assumes "acquire_single_instance (he_creatable env) (he_pid env) (ma_instances m) = (Ok (), i)"
    and "hub_prepare git gd env m = (r, h, m1)"
  shows "ma_git m1 = git_after git env m"
  using assms(2)
  by (auto simp: assms(1) hub_prepare_def recover_all_def git_after_def Let_def
      dest!: remove_crash_marker_git' split: if_splits outcome.splits prod.splits)

lemma hub_process_git:
  assumes "acquire_single_instance (he_creatable env) (he_pid env) (ma_instances m) = (Ok (), i)"
    and "hub_process git gd env m = (r, m1)"
  shows "ma_git m1 = git_after git env m"
proof -
  obtain r0 h0 m0 where prep: "hub_prepare git gd env m = (r0, h0, m0)" by (metis prod_cases3)
  note m0 = hub_prepare_git [OF assms(1) prep]
  obtain r2 h2 m2 where start: "hub_start git gd env m = (r2, h2, m2)" by (metis prod_cases3)
  then have "ma_git m2 = ma_git m0"
    by (auto simp: hub_start_def prep dest!: hub_init_git hub_stop_git split: outcome.splits prod.splits)
  with assms(2) m0 show ?thesis
    by (auto simp: hub_process_def start end_process_def hub_drop_git split: outcome.splits)
qed

lemma hub_killed_Ok:
  assumes "hub_killed git gd env m = (Ok (), m1)"
  shows "ma_marker m1 \<noteq> None \<and> ma_git m1 = git_after git env m
    \<and> (\<exists>i. acquire_single_instance (he_creatable env) (he_pid env) (ma_instances m) = (Ok (), i)
         \<and> ma_instances m1 = process_ends (he_pid env) i)"
proof -
  from assms obtain h0 m0 r h2 m2 where
    "hub_prepare git gd env m = (Ok (), h0, m0)" "hub_init gd env h0 m0 = (r, h2, m2)" "m1 = end_process env m2"
    by (auto simp: hub_killed_def split: outcome.splits prod.splits)
  moreover from this(2) have "ma_instances m2 = ma_instances m0"
    by (auto simp: hub_init_def split: if_splits outcome.splits prod.splits)
  ultimately show ?thesis using hub_prepare_Ok hub_init_git by (fastforce simp: end_process_def)
qed

text \<open>
  Property C27.
  After a crash the next start takes away what the user had set in Git, whether the program ever
  touched it or not: a process that is killed while it serves leaves Git as it was and a marker, and
  when the next process gets the instance, whatever happens to it afterwards, the four keys of Git
  are gone.
\<close>

theorem crash_costs_git_settings:
  assumes "git_command git single" and "single (ma_git m)" and "ma_marker m = None"
    and "hub_killed git gd env m = (Ok (), m1)"
    and "acquire_single_instance (he_creatable env') (he_pid env') (ma_instances m1) = (Ok (), i)"
    and "hub_process git gd env' m1 = (r, m2)"
  shows "ma_marker m1 \<noteq> None \<and> ma_git m1 = ma_git m
     \<and> reads git (ma_git m2) =
         (reads git (ma_git m))(github_proxy := None, raw_proxy := None, github_ssl := None, raw_ssl := None)"
proof -
  from hub_killed_Ok [OF assms(4)] assms(3) have m1: "ma_marker m1 \<noteq> None" "ma_git m1 = ma_git m"
    by (auto simp: git_after_def)
  have "ma_git m2 = snd (teardown_command git (he_ca_path env') (ma_git m))"
    using hub_process_git [OF assms(5,6)] m1 by (simp add: git_after_def)
  with teardown_command_reads [OF assms(1,2), of "he_ca_path env'"] m1 show ?thesis
    by (metis prod.collapse)
qed

section \<open>A run of the program\<close>

definition sample_env :: "nat \<Rightarrow> hub_env" where
  "sample_env pid =
     \<lparr>he_pid = pid, he_creatable = True, he_marker_write = True, he_marker_remove = True, he_resolver = True,
      he_authority = True, he_config = default_app, he_ca_path = ''/ca.pem''\<rparr>"

definition sample_machine :: "((string \<times> string) list, unit) machine" where
  "sample_machine =
     \<lparr>ma_instances = no_instance, ma_marker = None, ma_git = sample_file, ma_proxy = ()\<rparr>"

lemma sample_acquire:
  "\<exists>i. acquire_single_instance True 7 no_instance = (Ok (), i)
     \<and> (\<exists>j. acquire_single_instance True 8 (process_ends 7 i) = (Ok (), j))"
  by (auto simp: no_instance_def acquire_single_instance_def holds_def try_lock_def create_file_def process_ends_def)


theorem crash_costs_git_settings_witness:
  "\<exists>m1 r m2. hub_killed list_git linux_guard_ops (sample_env 7) sample_machine = (Ok (), m1)
     \<and> hub_process list_git linux_guard_ops (sample_env 8) m1 = (r, m2)
     \<and> reads list_git (ma_git sample_machine) github_proxy = Some company_proxy
     \<and> reads list_git (ma_git m2) github_proxy = None"
proof -
  obtain i j where i: "acquire_single_instance True 7 no_instance = (Ok (), i)"
      "acquire_single_instance True 8 (process_ends 7 i) = (Ok (), j)"
    using sample_acquire by blast
  have "\<exists>m1. hub_killed list_git linux_guard_ops (sample_env 7) sample_machine = (Ok (), m1)"
    using i(1)
    by (simp add: hub_killed_def hub_prepare_def hub_init_def sample_env_def sample_machine_def linux_guard_ops_def)
  then obtain m1 where killed: "hub_killed list_git linux_guard_ops (sample_env 7) sample_machine = (Ok (), m1)"
    by blast
  with hub_killed_Ok [OF killed] i have acq:
    "acquire_single_instance (he_creatable (sample_env 8)) (he_pid (sample_env 8)) (ma_instances m1) = (Ok (), j)"
    by (auto simp: sample_env_def sample_machine_def)
  obtain r m2 where run: "hub_process list_git linux_guard_ops (sample_env 8) m1 = (r, m2)"
    by (cases "hub_process list_git linux_guard_ops (sample_env 8) m1")
  have "distinct (map fst (ma_git sample_machine))" "ma_marker sample_machine = None"
    by (simp_all add: sample_machine_def sample_file_single)
  from crash_costs_git_settings [OF list_git.git_command_axioms this killed acq run] killed run
  show ?thesis by (auto simp: git_keys_distinct sample_file_reads sample_machine_def)
qed

end
