(* ===== verification/Terminal.thy ===== *)
theory Terminal
  imports Rust_Text
begin

text \<open>
  What the program prints on a terminal: the colours and themes, the boxes of the commands
  (\<open>src/utils/ui.rs\<close>, \<open>src/utils/banner.rs\<close>) and the screen they are printed on. A string is the list of its
  bytes in UTF-8. The screen is that of an ANSI terminal that is high and wide enough: a row keeps
  what was written on it since it was erased, a line that is printed ends at the start of the next row.
\<close>

section \<open>Texts\<close>

text \<open>A scalar value below \<open>0x10000\<close> in UTF-8; the number of \<open>char\<close>s of a string.\<close>

definition utf8_encode :: "nat \<Rightarrow> string" where
  "utf8_encode c =
     (if c < 0x80 then [char_of c]
      else if c < 0x800 then [char_of (0xC0 + c div 64), char_of (0x80 + c mod 64)]
      else [char_of (0xE0 + c div 4096), char_of (0x80 + c div 64 mod 64), char_of (0x80 + c mod 64)])"

definition utf8 :: "nat list \<Rightarrow> string" where
  "utf8 cs = concat (map utf8_encode cs)"

definition char_count :: "string \<Rightarrow> nat" where
  "char_count s = length (filter (\<lambda>c. code c div 64 \<noteq> 2) s)"

definition pad_left :: "nat \<Rightarrow> string \<Rightarrow> string" where
  "pad_left n s = replicate (n - char_count s) (CHR '' '') @ s"

definition pad2 :: "nat \<Rightarrow> string" where
  "pad2 n = (if n < 10 then CHR ''0'' # show_nat n else show_nat n)"

section \<open>Colours and themes\<close>

definition sgr :: "string \<Rightarrow> string" where
  "sgr n = CHR 0x1B # ''['' @ n @ ''m''"

definition RESET :: string where "RESET = sgr ''0''"
definition BOLD :: string where "BOLD = sgr ''1''"
definition DIM :: string where "DIM = sgr ''2''"
definition GREEN :: string where "GREEN = sgr ''32''"
definition RED :: string where "RED = sgr ''31''"
definition YELLOW :: string where "YELLOW = sgr ''33''"

record theme_colors =
  th_primary :: string
  th_secondary :: string
  th_accent :: string
  th_glow :: string
  th_soft :: string

definition pink_theme :: theme_colors where
  "pink_theme =
     \<lparr>th_primary = sgr ''38;5;219'', th_secondary = sgr ''38;5;213'', th_accent = sgr ''38;5;206'',
      th_glow = sgr ''38;5;177'', th_soft = sgr ''38;5;225''\<rparr>"

definition morning_theme :: theme_colors where
  "morning_theme =
     \<lparr>th_primary = sgr ''38;5;220'', th_secondary = sgr ''38;5;209'', th_accent = sgr ''38;5;214'',
      th_glow = sgr ''38;5;178'', th_soft = sgr ''38;5;222''\<rparr>"

definition noon_theme :: theme_colors where
  "noon_theme =
     \<lparr>th_primary = sgr ''38;5;123'', th_secondary = sgr ''38;5;122'', th_accent = sgr ''38;5;117'',
      th_glow = sgr ''38;5;154'', th_soft = sgr ''38;5;194''\<rparr>"

definition night_theme :: theme_colors where
  "night_theme =
     \<lparr>th_primary = sgr ''38;5;39'', th_secondary = sgr ''38;5;45'', th_accent = sgr ''38;5;51'',
      th_glow = sgr ''38;5;81'', th_soft = sgr ''38;5;117''\<rparr>"

datatype time_theme = Morning | Noon | Night

definition time_theme_at :: "nat \<Rightarrow> time_theme" where
  "time_theme_at hour = (if 6 \<le> hour \<and> hour \<le> 11 then Morning else if 12 \<le> hour \<and> hour \<le> 17 then Noon else Night)"

text \<open>The hour counts for the theme \<open>auto\<close> only, and an unknown name is \<open>pink\<close>.\<close>

definition theme_from_config :: "nat \<Rightarrow> string \<Rightarrow> theme_colors" where
  "theme_from_config hour name =
     (if name = ''pink'' then pink_theme
      else if name = ''morning'' then morning_theme
      else if name = ''noon'' then noon_theme
      else if name = ''night'' then night_theme
      else if name = ''auto'' then
        (case time_theme_at hour of Morning \<Rightarrow> morning_theme | Noon \<Rightarrow> noon_theme | Night
            \<Rightarrow> night_theme)
      else pink_theme)"

definition colorize :: "string \<Rightarrow> string \<Rightarrow> string" where
  "colorize s color = color @ s @ RESET"

definition bold :: "string \<Rightarrow> string" where
  "bold s = BOLD @ s @ RESET"

definition dim :: "string \<Rightarrow> string" where
  "dim s = DIM @ s @ RESET"

definition gradient :: "theme_colors \<Rightarrow> string list" where
  "gradient theme = [th_primary theme, th_secondary theme, th_accent theme, th_glow theme, th_soft theme]"

definition dashes :: "string list" where
  "dashes = [utf8 [0x2501], utf8 [0x257E], utf8 [0x2500], utf8 [0x257C]]"

definition gradient_divider :: "theme_colors \<Rightarrow> nat \<Rightarrow> nat \<Rightarrow> string" where
  "gradient_divider theme width frame =
     concat (map (\<lambda>i. gradient theme ! (i * length (gradient theme) div width mod length (gradient theme))
                    @ dashes ! ((i + frame) mod length dashes)) [0..<width]) @ RESET"

definition divider :: "theme_colors \<Rightarrow> nat \<Rightarrow> string" where
  "divider theme width = gradient_divider theme width 0"

definition HORIZONTAL :: string where "HORIZONTAL = utf8 [0x2500]"
definition VERTICAL :: string where "VERTICAL = utf8 [0x2502]"
definition TOP_LEFT :: string where "TOP_LEFT = utf8 [0x256D]"
definition BOTTOM_LEFT :: string where "BOTTOM_LEFT = utf8 [0x2570]"
definition LEFT_TEE :: string where "LEFT_TEE = utf8 [0x251C]"

definition cat_faces :: "string list" where
  "cat_faces = [''(=^'' @ utf8 [0xFF65, 0x3C9, 0xFF65] @ ''^=)'', ''(=^'' @ utf8 [0xFF65, 0xFF6A, 0xFF65]
      @ ''^=)'', ''('' @ utf8 [0x3A6, 0x3C9, 0x3A6] @ '')'', ''(^w^)'']"

definition working_faces :: "string list" where
  "working_faces = [''('' @ utf8 [0xFF65] @ ''_'' @ utf8 [0xFF65] @ '')'', ''('' @ utf8 [0xFF61] @ ''_''
      @ utf8 [0xFF61] @ '')'', ''('' @ utf8 [0x30FB] @ ''_'' @ utf8 [0x30FB] @ '')'', ''('' @ utf8 [0xB0]
      @ ''_'' @ utf8 [0xB0] @ '')'']"

definition success_faces :: "string list" where
  "success_faces = [''(^_^)b'', ''(^_^)v'', ''('' @ utf8 [0x2267, 0x25BD, 0x2266] @ '')'', utf8 [0x30FD]
      @ ''(^_^ )'']"

definition sleepy_faces :: "string list" where
  "sleepy_faces = [''(-_-)zzZ'', ''(u_u)'', ''('' @ utf8 [0xFF0D] @ ''_'' @ utf8 [0xFF0D] @ '') zzZ'']"

definition love_faces :: "string list" where
  "love_faces = [''('' @ utf8 [0x2665] @ ''_'' @ utf8 [0x2665] @ '')'', ''('' @ utf8 [0x2661, 0x25BD, 0x2661]
      @ '')'', ''('' @ utf8 [0xB4] @ '',,'' @ utf8 [0x2022, 0x3C9, 0x2022] @ '',,)'']"

text \<open>\<open>ms\<close> is the time in milliseconds since the epoch.\<close>

definition pick_random :: "nat \<Rightarrow> string list \<Rightarrow> string" where
  "pick_random ms items = items ! (ms mod length items)"

section \<open>The screen\<close>

datatype term_op = Println string | Up nat | Erase | ClearScreen

record screen =
  sc_rows :: "string list list"
  sc_row :: nat

definition write_row :: "string \<Rightarrow> string list \<Rightarrow> string list" where
  "write_row s row = (if s = [] then row else row @ [s])"

fun term_step :: "term_op \<Rightarrow> screen \<Rightarrow> screen" where
  "term_step (Println s) t =
     (let rows = sc_rows t @ replicate (Suc (sc_row t) - length (sc_rows t)) []
      in t\<lparr>sc_rows := rows[sc_row t := write_row s (rows ! sc_row t)], sc_row := Suc (sc_row t)\<rparr>)"
| "term_step (Up n) t = t\<lparr>sc_row := sc_row t - n\<rparr>"
| "term_step Erase t = t\<lparr>sc_rows := (sc_rows t)[sc_row t := []]\<rparr>"
| "term_step ClearScreen t = t\<lparr>sc_rows := [], sc_row := 0\<rparr>"

definition term_run :: "term_op list \<Rightarrow> screen \<Rightarrow> screen" where
  "term_run ops t = fold term_step ops t"

section \<open>The answers of the commands\<close>

text \<open>A row of a box, and the box of 44 columns that the commands share.\<close>

definition box_row :: "string \<Rightarrow> string \<Rightarrow> term_op" where
  "box_row color content = Println (''  '' @ color @ VERTICAL @ ''  '' @ content)"

definition command_box :: "theme_colors \<Rightarrow> string list \<Rightarrow> term_op list" where
  "command_box theme rows =
     [Println [], Println (''  '' @ th_primary theme @ TOP_LEFT @ divider theme 44)]
     @ map (box_row (th_primary theme)) rows
     @ [Println (''  '' @ th_primary theme @ BOTTOM_LEFT @ divider theme 44)]"

definition hint :: "string \<Rightarrow> term_op list" where
  "hint message = [Println [], Println (''  '' @ colorize (utf8 [0x63D0, 0x793A] @ '':'') YELLOW @ '' '' @ message)]"

definition show_status :: "theme_colors \<Rightarrow> nat \<Rightarrow> bool \<Rightarrow> nat option
    \<Rightarrow> term_op list" where
  "show_status theme ms running pid =
     command_box theme
       (if running then
          [colorize ''Hakimi Hub'' (th_accent theme) @ '' '' @ utf8 [0x6B63, 0x5728, 0x8FD0, 0x884C] @ '' ''
              @ pick_random ms cat_faces]
          @ (case pid of Some p \<Rightarrow> [''PID: '' @ colorize (show_nat p) (th_glow theme)] | None
              \<Rightarrow> [])
        else [colorize ''Hakimi Hub'' (th_soft theme) @ '' '' @ utf8 [0x672A, 0x8FD0, 0x884C] @ '' ''
            @ pick_random ms sleepy_faces])
     @ [Println RESET]"

definition show_stopped :: "theme_colors \<Rightarrow> nat \<Rightarrow> nat option \<Rightarrow> term_op list" where
  "show_stopped theme ms pid =
     command_box theme
       [case pid of
          Some p \<Rightarrow> utf8 [0x5DF2, 0x5411, 0x8FDB, 0x7A0B] @ '' ''
              @ colorize (show_nat p) (th_glow theme) @ '' '' @ utf8 [0x53D1, 0x9001, 0x505C, 0x6B62, 0x4FE1,
              0x53F7] @ '' '' @ pick_random ms cat_faces
        | None \<Rightarrow> utf8 [0x672A, 0x627E, 0x5230, 0x8FD0, 0x884C, 0x4E2D, 0x7684, 0x5B9E, 0x4F8B]
            @ '' '' @ pick_random ms working_faces]
     @ [Println RESET]"

definition show_ca_exported :: "theme_colors \<Rightarrow> nat \<Rightarrow> string \<Rightarrow> term_op list" where
  "show_ca_exported theme ms path =
     command_box theme
       [''CA '' @ utf8 [0x8BC1, 0x4E66, 0x5DF2, 0x5BFC, 0x51FA] @ '' '' @ pick_random ms success_faces,
           utf8 [0x8DEF, 0x5F84] @ '': '' @ colorize path (th_accent theme)]
     @ hint (utf8 [0x5C06, 0x6B64, 0x8BC1, 0x4E66, 0x6DFB, 0x52A0, 0x5230, 0x7CFB, 0x7EDF, 0x4FE1, 0x4EFB,
         0x94FE, 0x5373, 0x53EF, 0x542F, 0x7528] @ '' MITM '' @ utf8 [0x62E6, 0x622A]) @ [Println RESET]"

definition show_git_setup :: "theme_colors \<Rightarrow> nat \<Rightarrow> term_op list" where
  "show_git_setup theme ms =
     command_box theme [''Git '' @ utf8 [0x4EE3, 0x7406, 0x914D, 0x7F6E, 0x6210, 0x529F] @ '' ''
         @ pick_random ms love_faces]
     @ hint (''git clone/push/pull '' @ utf8 [0x5C06, 0x901A, 0x8FC7] @ '' Hakimi Hub '' @ utf8 [0x52A0,
         0x901F]) @ [Println RESET]"

definition show_git_teardown :: "theme_colors \<Rightarrow> nat \<Rightarrow> term_op list" where
  "show_git_teardown theme ms =
     command_box theme [''Git '' @ utf8 [0x4EE3, 0x7406, 0x914D, 0x7F6E, 0x5DF2, 0x6062, 0x590D] @ '' ''
         @ pick_random ms cat_faces] @ [Println RESET]"

definition show_config_init :: "theme_colors \<Rightarrow> nat \<Rightarrow> string \<Rightarrow> term_op list" where
  "show_config_init theme ms path =
     command_box theme
       [utf8 [0x914D, 0x7F6E, 0x6A21, 0x677F, 0x5DF2, 0x751F, 0x6210] @ '' '' @ pick_random ms success_faces,
           utf8 [0x8DEF, 0x5F84] @ '': '' @ colorize path (th_accent theme)]
     @ hint (utf8 [0x7F16, 0x8F91, 0x914D, 0x7F6E, 0x6587, 0x4EF6, 0x81EA, 0x5B9A, 0x4E49, 0x884C, 0x4E3A])
         @ [Println RESET]"

definition show_error :: "string \<Rightarrow> term_op list" where
  "show_error message =
     (let line = concat (replicate 44 HORIZONTAL)
      in [Println [], Println (''  '' @ RED @ TOP_LEFT @ line), box_row RED (utf8 [0x9519, 0x8BEF] @ '': ''
          @ message),
          Println (''  '' @ RED @ BOTTOM_LEFT @ line), Println RESET])"

definition show_warning :: "nat \<Rightarrow> string \<Rightarrow> term_op list" where
  "show_warning ms message =
     [Println [], Println (''  '' @ colorize ''!'' YELLOW @ '' '' @ message @ '' '' @ pick_random ms working_faces),
      Println RESET]"

definition show_success :: "nat \<Rightarrow> string \<Rightarrow> term_op list" where
  "show_success ms message =
     [Println [], Println (''  '' @ colorize ''*'' GREEN @ '' '' @ message @ '' '' @ pick_random ms success_faces),
      Println RESET]"

text \<open>A line of the farewell, whose frame is reset before the text.\<close>

definition goodbye_row :: "theme_colors \<Rightarrow> string \<Rightarrow> term_op" where
  "goodbye_row theme s = Println (''  '' @ th_primary theme @ VERTICAL @ RESET @ s)"

definition goodbye :: "nat \<Rightarrow> string \<Rightarrow> term_op list" where
  "goodbye hour theme_name =
     (let theme = theme_from_config hour theme_name; line = divider theme 44
      in [Println [], Println (''  '' @ th_primary theme @ TOP_LEFT @ line),
          goodbye_row theme (''  '' @ utf8 [0x6B63, 0x5728, 0x505C, 0x6B62, 0x670D, 0x52A1] @ ''...''),
              goodbye_row theme (''    [OK] '' @ utf8 [0x5173, 0x95ED, 0x8FDE, 0x63A5]),
          goodbye_row theme (''    [OK] '' @ utf8 [0x6062, 0x590D, 0x7CFB, 0x7EDF, 0x4EE3, 0x7406]),
              goodbye_row theme (''    [OK] '' @ utf8 [0x6E05, 0x7406, 0x4E34, 0x65F6, 0x6587, 0x4EF6]),
          Println (''  '' @ th_primary theme @ LEFT_TEE @ line @ RESET),
          goodbye_row theme (''  '' @ bold ''Hakimi Hub'' @ '' '' @ colorize ''(u_u)'' (th_accent theme)
            @ '' '' @ utf8 [0x5DF2, 0x505C, 0x6B62] @ '' '' @ RESET),
          Println (''  '' @ th_primary theme @ BOTTOM_LEFT @ line), Println RESET])"

section \<open>Lemmas on the screen\<close>

lemma term_run_append [simp]: "term_run (ops @ ops') t = term_run ops' (term_run ops t)"
  by (simp add: term_run_def)

lemma term_run_Nil [simp]: "term_run [] t = t"
  by (simp add: term_run_def)

lemma term_run_Cons [simp]: "term_run (p # ops) t = term_run ops (term_step p t)"
  by (simp add: term_run_def)

text \<open>A screen with the cursor below \<open>upper\<close>, and nothing but \<open>k\<close> blank rows from there on.\<close>

definition blank_below :: "string list list \<Rightarrow> nat \<Rightarrow> screen" where
  "blank_below upper k = \<lparr>sc_rows = upper @ replicate k [], sc_row = length upper\<rparr>"

abbreviation printed :: "string list \<Rightarrow> string list list" where
  "printed ls \<equiv> map (\<lambda>l. write_row l []) ls"

lemma println_blank: "term_step (Println l) (blank_below upper k) = blank_below (upper @ [write_row l []]) (k - 1)"
proof (cases k)
  case 0
  then show ?thesis by (simp add: blank_below_def)
next
  case (Suc n)
  then show ?thesis by (simp add: blank_below_def list_update_append nth_append)
qed

lemma println_lines: "term_run (map Println ls) (blank_below upper k) = blank_below (upper
    @ printed ls) (k - length ls)"
  by (induction ls arbitrary: upper k) (simp_all add: println_blank del: term_step.simps)

lemma erase_line:
  "term_run [Up 1, Erase] (blank_below (upper @ [x]) k) = blank_below upper (Suc k)"
  by (simp add: blank_below_def list_update_append)

lemma erase_lines: "term_run (concat (replicate (length xs) [Up 1, Erase])) (blank_below (upper
    @ xs) k) = blank_below upper (k + length xs)"
proof (induction xs arbitrary: k rule: rev_induct)
  case (snoc x xs)
  have "concat (replicate (length (xs @ [x])) [Up 1, Erase]) = [Up 1, Erase]
      @ concat (replicate (length xs) [Up 1, Erase])"
    by simp
  then show ?case
    using snoc [of "Suc k"] erase_line [of "upper @ xs" x k]
    by (simp only: term_run_append append_assoc length_append list.size add_Suc_right add_Suc add_0_right)
qed simp

text \<open>Rows that are erased and printed again one after the other are replaced.\<close>

lemma redraw_lines:
  "length old = length ls \<Longrightarrow>
   term_run (concat (map (\<lambda>l. [Erase, Println l]) ls)) \<lparr>sc_rows = upper @ old @ rest,
       sc_row = length upper\<rparr>
     = \<lparr>sc_rows = upper @ printed ls @ rest, sc_row = length upper + length ls\<rparr>"
proof (induction ls arbitrary: upper old)
  case (Cons l ls)
  then obtain x xs where old: "old = x # xs" "length xs = length ls" by (cases old) auto
  from Cons.IH [OF old(2), of "upper @ [write_row l []]"] show ?case
    by (simp add: old(1) list_update_append nth_append)
qed simp

text \<open>
  A coloured text is never shorter than ten characters, so aligning it to ten, as the panel does
  with its rates, adds nothing.
\<close>

lemma theme_char_count:
  "theme \<in> {pink_theme, morning_theme, noon_theme,
      night_theme} \<Longrightarrow> 10 \<le> char_count (th_accent theme)
    \<and> 10 \<le> char_count (th_secondary theme)"
  by (auto simp: pink_theme_def morning_theme_def noon_theme_def night_theme_def char_count_def sgr_def)

lemma char_count_append [simp]: "char_count (s @ s') = char_count s + char_count s'"
  by (simp add: char_count_def)

lemma colour_not_padded: "10 \<le> char_count color \<Longrightarrow> pad_left 10 (colorize s color) = colorize s color"
  by (simp add: pad_left_def colorize_def)

end
