(* ===== verification/Config_Document.thy ===== *)
theory Config_Document
  imports Config Terminal Intercept_Matcher
begin

text \<open>
  How a configuration file becomes a configuration (\<open>src/core/config.rs\<close>): a TOML document has some of
  the sections, a section some of the fields, and the code that \<open>serde\<close> derives fills in what is
  missing or refuses the document. The syntax of TOML is that of the toml crate; a document is what its
  parser hands over. The template that \<open>config init\<close> writes.
\<close>

section \<open>Documents\<close>

record proxy_table =
  pt_bind :: "string option"
  pt_port :: "nat option"
  pt_mitm_enabled :: "bool option"
  pt_max_connections :: "nat option"
  pt_idle_timeout_secs :: "nat option"
  pt_auto_set_system_proxy :: "bool option"

record endpoint_table =
  et_name :: "string option"
  et_url :: "string option"
  et_priority :: "nat option"
  et_trusted :: "bool option"
  et_preset_ip :: "string option"

record dns_table =
  dt_doh_endpoints :: "endpoint_table list option"
  dt_probe_timeout_secs :: "nat option"
  dt_max_concurrent_probes :: "nat option"
  dt_cache_ttl_secs :: "nat option"
  dt_probe_interval_secs :: "nat option"
  dt_sni_spoof_domain :: "string option"
  dt_connect_timeout_secs :: "nat option"
  dt_max_cache_entries :: "nat option"
  dt_ipv6_failure_threshold :: "nat option"
  dt_ipv6_recovery_secs :: "nat option"
  dt_ipv6_enabled :: "bool option"
  dt_dns_mapping :: "(string, string) assoc option"

record cert_table =
  ct_ca_key_size :: "nat option"
  ct_cert_validity_days :: "nat option"
  ct_max_cache_size :: "nat option"

record source_table =
  st_name :: "string option"
  st_source_type :: "string option"
  st_url :: "string option"

record rules_table =
  ut_update_interval_hours :: "nat option"
  ut_sources :: "source_table list option"

record log_table =
  lt_level :: "string option"
  lt_file :: "string option"
  lt_retention_days :: "nat option"
  lt_json_format :: "bool option"

record rule_table =
  rt_from :: "string option"
  rt_from_pattern :: "string option"
  rt_action :: "intercept_action option"

record cache_table =
  xt_enabled :: "bool option"
  xt_ttl_days :: "nat option"
  xt_max_size_mb :: "nat option"
  xt_max_file_size_mb :: "nat option"

text \<open>The tables of \<open>[banner]\<close> and \<open>[intercepts]\<close> have one field each, the theme and the rules.\<close>

record document =
  dd_proxy :: "proxy_table option"
  dd_dns :: "dns_table option"
  dd_cert :: "cert_table option"
  dd_rules :: "rules_table option"
  dd_log :: "log_table option"
  dd_banner :: "string option option"
  dd_intercepts :: "rule_table list option option"
  dd_cache :: "cache_table option"

section \<open>What is filled in\<close>

definition given :: "'a \<Rightarrow> 'a option \<Rightarrow> 'a" where
  "given d v = (case v of None \<Rightarrow> d | Some x \<Rightarrow> x)"

lemma given_simps [simp]: "given d None = d" "given d (Some x) = x"
  by (simp_all add: given_def)

definition banner_of_table :: "string option \<Rightarrow> banner_config" where
  "banner_of_table theme = \<lparr>bc_theme = given default_banner_theme theme\<rparr>"

definition proxy_of_table :: "proxy_table \<Rightarrow> proxy_config" where
  "proxy_of_table t =
     \<lparr>pc_bind = given default_proxy_bind (pt_bind t), pc_port = given default_proxy_port (pt_port t),
      pc_mitm_enabled = given default_true (pt_mitm_enabled t),
      pc_max_connections = given default_proxy_max_connections (pt_max_connections t),
      pc_idle_timeout_secs = given default_proxy_idle_timeout (pt_idle_timeout_secs t),
      pc_auto_set_system_proxy = given default_true (pt_auto_set_system_proxy t)\<rparr>"

definition endpoint_of_table :: "endpoint_table \<Rightarrow> doh_endpoint option" where
  "endpoint_of_table t =
     (case (et_name t, et_url t, et_priority t, et_trusted t) of
        (Some name, Some url, Some priority, Some trusted) \<Rightarrow>
          Some \<lparr>de_name = name, de_url = url, de_priority = priority, de_trusted = trusted,
             de_preset_ip = et_preset_ip t\<rparr>
      | _ \<Rightarrow> None)"

text \<open>A missing \<open>max_cache_entries\<close> is 1000; TOML has no null, so there is no way to say no limit.\<close>

definition dns_of_table :: "dns_table \<Rightarrow> dns_config option" where
  "dns_of_table t =
     (case (case dt_doh_endpoints t of
              None \<Rightarrow> Some default_doh_endpoints
            | Some endpoints \<Rightarrow> those (map endpoint_of_table endpoints)) of
        None \<Rightarrow> None
      | Some endpoints \<Rightarrow>
          Some \<lparr>dc_doh_endpoints = endpoints,
             dc_probe_timeout_secs = given default_dns_probe_timeout (dt_probe_timeout_secs t),
             dc_max_concurrent_probes = given default_dns_max_concurrent (dt_max_concurrent_probes t),
             dc_cache_ttl_secs = given default_dns_cache_ttl (dt_cache_ttl_secs t),
             dc_probe_interval_secs = given default_dns_probe_interval (dt_probe_interval_secs t),
             dc_sni_spoof_domain = given default_dns_sni_spoof (dt_sni_spoof_domain t),
             dc_connect_timeout_secs = given default_dns_connect_timeout (dt_connect_timeout_secs t),
             dc_max_cache_entries = given default_max_cache_entries (map_option Some (dt_max_cache_entries t)),
             dc_ipv6_failure_threshold = given default_ipv6_failure_threshold (dt_ipv6_failure_threshold t),
             dc_ipv6_recovery_secs = given default_ipv6_recovery_secs (dt_ipv6_recovery_secs t),
             dc_ipv6_enabled = given default_ipv6_enabled (dt_ipv6_enabled t),
             dc_dns_mapping = given [] (dt_dns_mapping t)\<rparr>)"

definition cert_of_table :: "cert_table \<Rightarrow> cert_config" where
  "cert_of_table t =
     \<lparr>cc_ca_key_size = given default_cert_key_size (ct_ca_key_size t),
      cc_cert_validity_days = given default_cert_validity (ct_cert_validity_days t),
      cc_max_cache_size = given default_cert_max_cache (ct_max_cache_size t)\<rparr>"

definition source_of_table :: "source_table \<Rightarrow> rule_source option" where
  "source_of_table t =
     (case (st_name t, st_source_type t) of
        (Some name, Some source_type) \<Rightarrow>
          Some \<lparr>rs_name = name, rs_source_type = source_type, rs_url = given [] (st_url t)\<rparr>
      | _ \<Rightarrow> None)"

definition rules_of_table :: "rules_table \<Rightarrow> rules_config option" where
  "rules_of_table t =
     (case (case ut_sources t of
              None \<Rightarrow> Some default_rules_sources
            | Some sources \<Rightarrow> those (map source_of_table sources)) of
        None \<Rightarrow> None
      | Some sources \<Rightarrow>
          Some \<lparr>rc_update_interval_hours = given default_rules_update_interval (ut_update_interval_hours t),
             rc_sources = sources\<rparr>)"

definition log_of_table :: "log_table \<Rightarrow> log_config" where
  "log_of_table t =
     \<lparr>lc_level = given default_log_level (lt_level t), lc_file = given default_log_file (lt_file t),
      lc_retention_days = given default_log_retention (lt_retention_days t),
      lc_json_format = given default_false (lt_json_format t)\<rparr>"

definition cache_of_table :: "cache_table \<Rightarrow> cache_config" where
  "cache_of_table t =
     \<lparr>xc_enabled = given default_true (xt_enabled t), xc_ttl_days = given default_cache_ttl_days (xt_ttl_days t),
      xc_max_size_mb = given default_cache_max_size_mb (xt_max_size_mb t),
      xc_max_file_size_mb = given default_cache_max_file_size_mb (xt_max_file_size_mb t)\<rparr>"

definition rule_of_table :: "rule_table \<Rightarrow> intercept_rule option" where
  "rule_of_table t =
     (case (rt_from t, rt_action t) of
        (Some from, Some action) \<Rightarrow>
          Some \<lparr>ir_from = from, ir_from_pattern = rt_from_pattern t, ir_action = action\<rparr>
      | _ \<Rightarrow> None)"

text \<open>A section without rules has none: the default of the field is that of \<open>Vec\<close>.\<close>

definition intercepts_of_table :: "rule_table list option \<Rightarrow> intercepts_config option" where
  "intercepts_of_table t = map_option (\<lambda>rules. \<lparr>ic_rules = rules\<rparr>) (those (map rule_of_table (given [] t)))"

definition section_of :: "'b \<Rightarrow> ('a \<Rightarrow> 'b option) \<Rightarrow> 'a option \<Rightarrow> 'b option" where
  "section_of d f t = (case t of None \<Rightarrow> Some d | Some x \<Rightarrow> f x)"

definition app_of_document :: "document \<Rightarrow> app_config option" where
  "app_of_document d =
     (case (section_of default_dns dns_of_table (dd_dns d), section_of default_rules rules_of_table (dd_rules d),
            section_of common_defaults intercepts_of_table (dd_intercepts d)) of
        (Some dns, Some rules, Some intercepts) \<Rightarrow>
          Some \<lparr>ac_proxy = given default_proxy (map_option proxy_of_table (dd_proxy d)), ac_dns = dns,
             ac_cert = given default_cert (map_option cert_of_table (dd_cert d)), ac_rules = rules,
             ac_log = given default_log (map_option log_of_table (dd_log d)),
             ac_banner = given default_banner (map_option banner_of_table (dd_banner d)),
             ac_intercepts = intercepts,
             ac_cache = given default_cache (map_option cache_of_table (dd_cache d))\<rparr>
      | _ \<Rightarrow> None)"

section \<open>The template\<close>

definition template_lines :: "string list" where
  "template_lines =
     [''# Hakimi Hub '' @ utf8 [0x7528, 0x6237, 0x914D, 0x7F6E],
      ''# '' @ utf8 [0x672A, 0x5217, 0x51FA, 0x7684, 0x914D, 0x7F6E, 0x4F7F, 0x7528, 0x4EE3, 0x7801, 0x5185, 0x7F6E, 0x9ED8, 0x8BA4, 0x503C],
      ''# '' @ utf8 [0x53D6, 0x6D88, 0x6CE8, 0x91CA, 0x5E76, 0x4FEE, 0x6539, 0x5373, 0x53EF, 0x81EA, 0x5B9A, 0x4E49],
      [],
      ''[proxy]'',
      ''# port = 2830                   # '' @ utf8 [0x4EE3, 0x7406, 0x7AEF, 0x53E3],
      ''# bind = \"127.0.0.1\"            # '' @ utf8 [0x76D1, 0x542C, 0x5730, 0x5740],
      ''# mitm_enabled = true           # '' @ utf8 [0x662F, 0x5426, 0x542F, 0x7528] @ '' MITM '' @ utf8 [0x62E6, 0x622A],
      ''# auto_set_system_proxy = true  # '' @ utf8 [0x542F, 0x52A8, 0x65F6, 0x81EA, 0x52A8, 0x8BBE, 0x7F6E, 0x7CFB, 0x7EDF, 0x4EE3, 0x7406],
      [],
      ''[banner]'',
      ''# theme = \"pink\"                # pink / morning / noon / night / auto'',
      [],
      ''# [[intercepts.rules]]'',
      ''# '' @ utf8 [0x955C, 0x50CF, 0x7AD9, 0x4EE3, 0x7406, 0x793A, 0x4F8B] @ '':'',
      ''# from = \"github.com\"'',
      ''# from_pattern = \"^/[^/]+/[^/]+/releases/download/.*\"'',
      ''# action = { Proxy = { mirror = \"v4.gh-proxy.org\" } }'',
      ''#'',
      ''# SNI '' @ utf8 [0x4F2A, 0x88C5, 0x793A, 0x4F8B] @ '':'',
      ''# from = \"github.com\"'',
      ''# action = { SniSpoof = { sni = \"www.baidu.com\", real_host = \"github.com\" } }'',
      ''#'',
      ''# '' @ utf8 [0x62E6, 0x622A, 0x793A, 0x4F8B] @ '':'',
      ''# from = \"translate.google.com\"'',
      ''# action = { Abort = true }'']"

definition generate_template :: string where
  "generate_template = concat (map (\<lambda>line. line @ [LF]) template_lines)"

section \<open>What a file changes\<close>

definition empty_document :: document where
  "empty_document =
     \<lparr>dd_proxy = None, dd_dns = None, dd_cert = None, dd_rules = None, dd_log = None, dd_banner = None,
      dd_intercepts = None, dd_cache = None\<rparr>"

definition no_proxy_fields :: proxy_table where
  "no_proxy_fields =
     \<lparr>pt_bind = None, pt_port = None, pt_mitm_enabled = None, pt_max_connections = None,
      pt_idle_timeout_secs = None, pt_auto_set_system_proxy = None\<rparr>"

text \<open>The lines of the template that TOML does not skip are the headers of two empty sections.\<close>

definition skipped_line :: "string \<Rightarrow> bool" where
  "skipped_line line \<longleftrightarrow> line = [] \<or> starts_with line ''#''"

definition template_document :: document where
  "template_document = empty_document\<lparr>dd_proxy := Some no_proxy_fields, dd_banner := Some None\<rparr>"

lemma template_headers: "filter (\<lambda>line. \<not> skipped_line line) template_lines = [''[proxy]'', ''[banner]'']"
  by (simp add: template_lines_def skipped_line_def)

lemma empty_fields:
  "proxy_of_table no_proxy_fields = default_proxy" "banner_of_table None = default_banner"
  by (simp_all add: proxy_of_table_def no_proxy_fields_def default_proxy_def banner_of_table_def default_banner_def)

text \<open>
  The document has the fields \<open>fixed\<close> of its sections and nothing else; the rest of the configuration is
  that of the code.
\<close>

theorem missing_settings_are_default:
  "app_of_document empty_document = Some default_app
   \<and> filter (\<lambda>line. \<not> skipped_line line) template_lines = [''[proxy]'', ''[banner]'']
   \<and> app_of_document template_document = Some default_app"
  by (simp add: template_headers template_document_def empty_document_def app_of_document_def section_of_def
      default_app_def empty_fields)

text \<open>
  One rule of the user replaces all that are built in: a document with a section \<open>intercepts\<close> has
  exactly the rules that are written there, and a host that no rule names, such as \<open>github.com\<close> with the
  last rule of the template uncommented, is neither sent to a mirror nor connected with a fake name.
\<close>

theorem own_rules_replace_builtin:
  assumes "dd_intercepts d = Some t" and "app_of_document d = Some config"
  shows "map Some (ic_rules (ac_intercepts config)) = map rule_of_table (given [] t)
    \<and> ((\<forall>r \<in> set (given [] t). case rule_of_table r of None \<Rightarrow> False | Some r' \<Rightarrow> \<not> rule_applies domain path r') \<longrightarrow>
         match_domain (matcher_new (ic_rules (ac_intercepts config))) domain path = None)"
proof -
  have those_map: "those ys = Some zs \<longleftrightarrow> map Some zs = ys" for ys and zs :: "intercept_rule list"
    by (induction ys arbitrary: zs) (auto split: option.splits simp: map_eq_Cons_conv)
  from assms have rules: "map Some (ic_rules (ac_intercepts config)) = map rule_of_table (given [] t)"
    by (auto simp: app_of_document_def section_of_def intercepts_of_table_def those_map split: option.splits)
  have "match_domain (matcher_new (ic_rules (ac_intercepts config))) domain path = None"
    if apart: "\<forall>r \<in> set (given [] t). case rule_of_table r of None \<Rightarrow> False | Some r' \<Rightarrow> \<not> rule_applies domain path r'"
  proof -
    have none: "\<not> rule_applies domain path r'" if r': "r' \<in> set (ic_rules (ac_intercepts config))" for r'
    proof -
      from r' have "Some r' \<in> set (map rule_of_table (given [] t))" using rules by (metis image_eqI set_map)
      then obtain r where "r \<in> set (given [] t)" "rule_of_table r = Some r'" by auto
      with apart show ?thesis by fastforce
    qed
    then have "first_of_class k (ic_rules (ac_intercepts config)) domain path = None" for k
      by (auto simp: first_of_class_def find_None_iff)
    then show ?thesis by (simp add: match_domain_scan)
  qed
  with rules show ?thesis by blast
qed

definition abort_rule :: rule_table where
  "abort_rule = \<lparr>rt_from = Some ''translate.google.com'', rt_from_pattern = None, rt_action = Some (Abort True)\<rparr>"

lemma translate_class:
  "rule_class \<lparr>ir_from = ''translate.google.com'', ir_from_pattern = None, ir_action = Abort True\<rparr> = 0"
  "rule_from \<lparr>ir_from = ''translate.google.com'', ir_from_pattern = None, ir_action = Abort True\<rparr> = ''translate.google.com''"
  by code_simp+

lemma translate_lower: "to_lowercase ''github.com'' = ''github.com''"
  by code_simp

theorem own_rules_replace_builtin_witness:
  "\<exists>config. app_of_document (empty_document\<lparr>dd_intercepts := Some (Some [abort_rule])\<rparr>) = Some config
     \<and> match_domain (matcher_new (ic_rules (ac_intercepts config))) ''github.com'' ''/'' = None
     \<and> match_domain (matcher_new (ic_rules common_defaults)) ''github.com'' ''/'' \<noteq> None"
proof -
  let ?d = "empty_document\<lparr>dd_intercepts := Some (Some [abort_rule])\<rparr>"
  have "\<exists>config. app_of_document ?d = Some config"
    by (simp add: app_of_document_def section_of_def empty_document_def intercepts_of_table_def rule_of_table_def
        abort_rule_def)
  then obtain config where config: "app_of_document ?d = Some config" by blast
  have "dd_intercepts ?d = Some (Some [abort_rule])" by simp
  from own_rules_replace_builtin [OF this config, of "''github.com''" "''/''"]
  have "match_domain (matcher_new (ic_rules (ac_intercepts config))) ''github.com'' ''/'' = None"
    by (simp add: rule_of_table_def abort_rule_def rule_applies_def domain_applies_def translate_class translate_lower)
  moreover have "match_domain (matcher_new (ic_rules common_defaults)) ''github.com'' ''/'' \<noteq> None"
    by code_simp
  ultimately show ?thesis using config by blast
qed

end
