(* ===== verification/Commands.thy ===== *)
theory Commands
  imports Hub Config_Document
begin

text \<open>
  The command line (\<open>src/cli/args.rs\<close>, \<open>src/cli/commands.rs\<close>): which configuration a command runs with,
  what it does to files, machine and resource cache, and what it prints of them. The parser of the
  arguments, TOML and which files can be written are parameters. The
  logger is taken to start; messages to the user are left out, and so is the creation of directories.
\<close>

section \<open>Arguments\<close>

datatype config_action = ConfigShow | ConfigInit

datatype cache_action = CacheClear | CacheClearExpired | CacheStats

datatype cli_command =
    StartCmd "nat option" bool bool
  | StopCmd
  | StatusCmd
  | ExportCaCmd "string option"
  | GitSetupCmd
  | GitTeardownCmd
  | RecoverCmd
  | ConfigCmd config_action
  | ThemeCmd "string option"
  | CacheCmd cache_action

record app_args =
  aa_command :: cli_command
  aa_config :: "string option"

section \<open>The world of a command\<close>

record ('w, 's) cli_world =
  cw_files :: "(string, string) assoc"
  cw_machine :: "('w, 's) machine"
  cw_cache_files :: "(string, string) assoc"
  cw_cache_table :: "(string, cache_metadata) assoc option"

text \<open>What a command tells: the number of a process, a text, a number of files, the statistics.\<close>

datatype cli_answer = CmdDone | Pid "nat option" | Printed string | Cleared nat | Stats cache_stats

datatype cli_error =
    ConfigFailed config_error | NoCaCertificate | WriteDenied | UnknownTheme
  | HubFailed hub_error | GitCommandFailed git_error | PidFailed instance_error | CacheFailed cache_error

record ('w, 'g, 's) cli_env =
  cl_toml :: "string \<Rightarrow> app_config option"
  cl_print :: "app_config \<Rightarrow> string"
  cl_writable :: "string \<Rightarrow> bool"
  cl_data_dir :: string
  cl_git :: "'w git_ops"
  cl_guard :: "('g, 's) guard_ops"
  cl_hub :: hub_env
  cl_alive :: "nat \<Rightarrow> bool"
  cl_now :: "64 word"
  cl_cache_write :: write_result

definition lift_err :: "('e \<Rightarrow> cli_error) \<Rightarrow> ('e, 'a) outcome \<Rightarrow> ('a \<Rightarrow> cli_answer) \<Rightarrow> (cli_error, cli_answer) outcome" where
  "lift_err wrap r f = (case r of Ok a \<Rightarrow> Ok (f a) | Err e \<Rightarrow> Err (wrap e) | Panic \<Rightarrow> Panic)"

section \<open>Configuration\<close>

definition load_config :: "('w, 'g, 's) cli_env \<Rightarrow> string option \<Rightarrow> ('w, 's) cli_world \<Rightarrow> (config_error, app_config) outcome" where
  "load_config env path w =
     (case path of
        Some p \<Rightarrow> load_from_file (map_of (cw_files w)) (cl_toml env) p
      | None \<Rightarrow>
          load_or_default (\<lambda>p. map_of (cw_files w) p \<noteq> None) (map_of (cw_files w)) (cl_toml env) (cl_data_dir env))"

definition config_file :: "('w, 'g, 's) cli_env \<Rightarrow> string option \<Rightarrow> string" where
  "config_file env path = (case path of Some p \<Rightarrow> p | None \<Rightarrow> cl_data_dir env @ ''/config.toml'')"

definition write_text ::
    "('w, 'g, 's) cli_env \<Rightarrow> string \<Rightarrow> string \<Rightarrow> ('w, 's) cli_world \<Rightarrow> (cli_error, cli_answer) outcome \<times> ('w, 's) cli_world" where
  "write_text env path content w =
     (if cl_writable env path then (Ok CmdDone, w\<lparr>cw_files := AList.update path content (cw_files w)\<rparr>)
      else (Err WriteDenied, w))"

text \<open>The options of \<open>start\<close> replace two values, and are not validated.\<close>

definition start_config :: "nat option \<Rightarrow> bool \<Rightarrow> app_config \<Rightarrow> app_config" where
  "start_config port no_mitm config =
     (let c1 = (case port of Some p \<Rightarrow> config\<lparr>ac_proxy := (ac_proxy config)\<lparr>pc_port := p\<rparr>\<rparr> | None \<Rightarrow> config)
      in if no_mitm then c1\<lparr>ac_proxy := (ac_proxy c1)\<lparr>pc_mitm_enabled := False\<rparr>\<rparr> else c1)"

definition themes :: "string list" where
  "themes = [''pink'', ''morning'', ''noon'', ''night'', ''auto'']"

definition handle_theme_command ::
    "('w, 'g, 's) cli_env \<Rightarrow> string option \<Rightarrow> string option \<Rightarrow> ('w, 's) cli_world
     \<Rightarrow> (cli_error, cli_answer) outcome \<times> ('w, 's) cli_world" where
  "handle_theme_command env name config_path w =
     (case name of
        Some theme_name \<Rightarrow>
          if theme_name \<notin> set themes then (Err UnknownTheme, w)
          else
            let path = config_file env config_path
            in (case (if map_of (cw_files w) path \<noteq> None
                      then load_from_file (map_of (cw_files w)) (cl_toml env) path else Ok default_app) of
                  Err e \<Rightarrow> (Err (ConfigFailed e), w)
                | Panic \<Rightarrow> (Panic, w)
                | Ok config \<Rightarrow>
                    write_text env path (cl_print env (config\<lparr>ac_banner := (ac_banner config)\<lparr>bc_theme := theme_name\<rparr>\<rparr>)) w)
      | None \<Rightarrow>
          (Ok (Printed (case load_config env config_path w of Ok c \<Rightarrow> bc_theme (ac_banner c) | _ \<Rightarrow> ''pink'')), w))"

section \<open>Cache and commands\<close>

definition store_cache :: "res_cache \<Rightarrow> ('w, 's) cli_world \<Rightarrow> ('w, 's) cli_world" where
  "store_cache c w = w\<lparr>cw_cache_files := rc_files c, cw_cache_table := rc_saved c\<rparr>"

text \<open>The cache is opened from the disk, apart from a running proxy.\<close>

definition handle_cache_command ::
    "('w, 'g, 's) cli_env \<Rightarrow> cache_action \<Rightarrow> app_config \<Rightarrow> ('w, 's) cli_world
     \<Rightarrow> (cli_error, cli_answer) outcome \<times> ('w, 's) cli_world" where
  "handle_cache_command env action config w =
     (let cache = rc_new (cw_cache_files w) (cw_cache_table w) (ac_cache config)
      in case action of
           CacheClear \<Rightarrow>
             (case rc_clear (cl_cache_write env) cache of (r, c) \<Rightarrow> (lift_err CacheFailed r Cleared, store_cache c w))
         | CacheClearExpired \<Rightarrow>
             (case rc_clear_expired (cl_now env) (cl_cache_write env) cache of
                (r, c) \<Rightarrow> (lift_err CacheFailed r Cleared, store_cache c w))
         | CacheStats \<Rightarrow> (Ok (Stats (rc_stats cache)), w))"

definition on_instances :: "(instances \<Rightarrow> instances) \<Rightarrow> ('w, 's) cli_world \<Rightarrow> ('w, 's) cli_world" where
  "on_instances f w =
     w\<lparr>cw_machine := (cw_machine w)\<lparr>ma_instances := f (ma_instances (cw_machine w))\<rparr>\<rparr>"

text \<open>\<open>stop\<close> tells the process to which it sends a signal.\<close>

definition run_with ::
    "('w, 'g, 's) cli_env \<Rightarrow> app_args \<Rightarrow> app_config \<Rightarrow> ('w, 's) cli_world
     \<Rightarrow> (cli_error, cli_answer) outcome \<times> ('w, 's) cli_world" where
  "run_with env args config w =
     (case aa_command args of
        StartCmd port no_mitm no_ui \<Rightarrow>
          (case hub_process (cl_git env) (cl_guard env)
                   ((cl_hub env)\<lparr>he_config := start_config port no_mitm config\<rparr>) (cw_machine w) of
             (r, m) \<Rightarrow> (lift_err HubFailed r (\<lambda>_. CmdDone), w\<lparr>cw_machine := m\<rparr>))
      | StopCmd \<Rightarrow>
          (lift_err PidFailed (fst (stop_command (ma_instances (cw_machine w)))) Pid,
           on_instances (\<lambda>i. snd (stop_command i)) w)
      | StatusCmd \<Rightarrow>
          (lift_err PidFailed (fst (status_command (cl_alive env) (ma_instances (cw_machine w)))) Pid,
           on_instances (\<lambda>i. snd (status_command (cl_alive env) i)) w)
      | ExportCaCmd output \<Rightarrow>
          (case map_of (cw_files w) (ca_cert_path (cl_data_dir env)) of
             None \<Rightarrow> (Err NoCaCertificate, w)
           | Some cert_data \<Rightarrow>
               (case output of
                  Some path \<Rightarrow> write_text env path cert_data w
                | None \<Rightarrow> (Ok (Printed cert_data), w)))
      | GitSetupCmd \<Rightarrow>
          (case setup_command (cl_git env) (ca_cert_path (cl_data_dir env))
                  (map_of (cw_files w) (ca_cert_path (cl_data_dir env)) \<noteq> None) config (ma_git (cw_machine w)) of
             (r, g) \<Rightarrow> (lift_err GitCommandFailed r (\<lambda>_. CmdDone), w\<lparr>cw_machine := (cw_machine w)\<lparr>ma_git := g\<rparr>\<rparr>))
      | GitTeardownCmd \<Rightarrow>
          (case teardown_command (cl_git env) (ca_cert_path (cl_data_dir env)) (ma_git (cw_machine w)) of
             (r, g) \<Rightarrow> (lift_err GitCommandFailed r (\<lambda>_. CmdDone), w\<lparr>cw_machine := (cw_machine w)\<lparr>ma_git := g\<rparr>\<rparr>))
      | RecoverCmd \<Rightarrow>
          (case recover_all (cl_git env) (cl_guard env) (ca_cert_path (cl_data_dir env)) True (cw_machine w) of
             (r, m) \<Rightarrow> (lift_err HubFailed r (\<lambda>_. CmdDone), w\<lparr>cw_machine := m\<rparr>))
      | ConfigCmd ConfigShow \<Rightarrow> (Ok (Printed (cl_print env config)), w)
      | ConfigCmd ConfigInit \<Rightarrow> write_text env (config_file env (aa_config args)) (generate_template) w
      | ThemeCmd name \<Rightarrow> handle_theme_command env name (aa_config args) w
      | CacheCmd action \<Rightarrow> handle_cache_command env action config w)"

text \<open>The configuration is loaded first, whatever the command.\<close>

definition run_cli ::
    "('w, 'g, 's) cli_env \<Rightarrow> app_args \<Rightarrow> ('w, 's) cli_world \<Rightarrow> (cli_error, cli_answer) outcome \<times> ('w, 's) cli_world" where
  "run_cli env args w =
     (case load_config env (aa_config args) w of
        Ok config \<Rightarrow> run_with env args config w
      | Err e \<Rightarrow> (Err (ConfigFailed e), w)
      | Panic \<Rightarrow> (Panic, w))"

section \<open>Properties\<close>

lemma load_or_default_eq:
  "load_or_default ex files toml dir =
     (if ex (dir @ ''/config.toml'') then load_from_file files toml (dir @ ''/config.toml'') else Ok default_app)"
  by (simp only: load_or_default_def Let_def)

text \<open>One case distinction for both ways to find the configuration.\<close>

lemma load_config_eq:
  "load_config env path w =
     (if path = None \<and> map_of (cw_files w) (config_file env path) = None then Ok default_app
      else load_from_file (map_of (cw_files w)) (cl_toml env) (config_file env path))"
proof (cases path)
  case None
  then show ?thesis unfolding load_config_def config_file_def load_or_default_eq by simp
next
  case (Some p)
  then show ?thesis unfolding load_config_def config_file_def by simp
qed

lemma load_config_valid: "load_config env path w = Ok c \<Longrightarrow> valid_config c"
  using default_app_valid by (auto simp: load_config_eq load_from_file_ok split: if_splits)

lemma load_config_not_panic: "load_config env path w \<noteq> Panic"
  using load_from_file_not_panic by (simp add: load_config_eq)

text \<open>\<open>theme\<close> starts from the configuration that every other command loads.\<close>

lemma theme_config:
  assumes "load_config env path w = Ok config"
  shows "(if map_of (cw_files w) (config_file env path) \<noteq> None
     then load_from_file (map_of (cw_files w)) (cl_toml env) (config_file env path) else Ok default_app) = Ok config"
proof (cases "map_of (cw_files w) (config_file env path)")
  case None
  then have "path = None" using assms by (simp add: load_config_eq load_from_file_ok split: if_splits)
  with None assms show ?thesis by (simp add: load_config_eq)
next
  case (Some content)
  with assms show ?thesis by (simp add: load_config_eq)
qed

definition with_theme :: "string \<Rightarrow> app_config \<Rightarrow> app_config" where
  "with_theme theme config = config\<lparr>ac_banner := (ac_banner config)\<lparr>bc_theme := theme\<rparr>\<rparr>"

lemma with_theme_valid: "valid_config (with_theme theme config) = valid_config config"
  by (simp add: valid_config_def with_theme_def)

lemma theme_command_runs:
  assumes "load_config env path w = Ok config"
    and "handle_theme_command env (Some theme) path w = (Ok told, w')"
  shows "theme \<in> set themes \<and>
    w' = w\<lparr>cw_files := AList.update (config_file env path) (cl_print env (with_theme theme config)) (cw_files w)\<rparr>"
proof -
  have "theme \<in> set themes"
    using assms(2) by (rule contrapos_pp) (simp add: handle_theme_command_def)
  with assms(2) have "write_text env (config_file env path) (cl_print env (with_theme theme config)) w = (Ok told, w')"
    by (simp only: handle_theme_command_def option.case Let_def theme_config [OF assms(1)] outcome.case
        with_theme_def if_False not_True_eq_False)
  with \<open>theme \<in> set themes\<close> show ?thesis by (simp add: write_text_def split: if_splits)
qed

text \<open>
  Property C39.
  \<open>theme\<close> changes the theme and nothing else: after it has succeeded, the configuration that any
  command at the same path loads is the one before with the new theme (if the printer's output is
  read back as what was printed), and the machine, the resource cache and all other files are as
  they were.
\<close>

theorem theme_keeps_config:
  assumes "cl_toml env (cl_print env (with_theme theme config)) = Some (with_theme theme config)"
    and "aa_command args = ThemeCmd (Some theme)" and "load_config env (aa_config args) w = Ok config"
    and "run_cli env args w = (Ok told, w')"
  shows "theme \<in> set themes
     \<and> load_config env (aa_config args) w' = Ok (with_theme theme config)
     \<and> (\<exists>written. w' = w\<lparr>cw_files := AList.update (config_file env (aa_config args)) written (cw_files w)\<rparr>)"
proof -
  let ?path = "config_file env (aa_config args)"
  from assms(4) have run: "handle_theme_command env (Some theme) (aa_config args) w = (Ok told, w')"
    by (simp add: run_cli_def assms(2,3) run_with_def)
  note ran = theme_command_runs [OF assms(3) run]
  then have "map_of (cw_files w') ?path = Some (cl_print env (with_theme theme config))"
    by (simp add: update_conv')
  then have "load_config env (aa_config args) w' = Ok (with_theme theme config)"
    using load_config_valid [OF assms(3)] assms(1)
    by (simp add: load_config_eq load_from_file_ok with_theme_valid)
  with ran show ?thesis by blast
qed

text \<open>
  Property C40.
  Because the configuration is loaded before the command is looked at, no command does anything when
  that fails: \<open>config init\<close> with a path writes a file only where there is a valid one already, and
  while the configuration is damaged neither \<open>stop\<close> nor \<open>recover\<close> nor \<open>git-teardown\<close> work.
\<close>

theorem damaged_config_blocks:
  assumes "run_cli env args w = (r, w')"
    and "case map_of (cw_files w) (config_file env (aa_config args)) of
           None \<Rightarrow> aa_config args \<noteq> None
         | Some content \<Rightarrow> (case cl_toml env content of None \<Rightarrow> True | Some c \<Rightarrow> \<not> valid_config c)"
  shows "(\<exists>e. r = Err (ConfigFailed e)) \<and> w' = w"
proof (cases "load_config env (aa_config args) w")
  case (Ok c)
  with assms(2) have False by (auto simp: load_config_eq load_from_file_ok split: option.splits if_splits)
  then show ?thesis ..
next
  case (Err e)
  with assms(1) show ?thesis by (auto simp: run_cli_def)
next
  case Panic
  with load_config_not_panic show ?thesis by blast
qed

text \<open>The port of \<open>start\<close> is not looked at: a configuration that was valid need not be any more.\<close>

lemma start_port_not_validated: "\<not> valid_config (start_config (Some 0) no_mitm config)"
  by (simp add: start_config_def valid_config_def Let_def)

section \<open>Examples\<close>

text \<open>
  An installation whose configuration file is named by the arguments: a printer that knows one
  configuration, and a reader that reads back what it printed.
\<close>

definition sample_cli_env :: "((string \<times> string) list, bool, unit) cli_env" where
  "sample_cli_env =
     \<lparr>cl_toml = (\<lambda>s. if s = ''night'' then Some (with_theme ''night'' default_app)
                   else if s = ''pink'' then Some default_app else None),
      cl_print = (\<lambda>c. ''night''), cl_writable = (\<lambda>_. True), cl_data_dir = ''/d'',
      cl_git = list_git, cl_guard = linux_guard_ops, cl_hub = sample_env 7, cl_alive = (\<lambda>_. True),
      cl_now = 0, cl_cache_write = Written\<rparr>"

definition sample_world :: "string \<Rightarrow> ((string \<times> string) list, unit) cli_world" where
  "sample_world content =
     \<lparr>cw_files = [(''/c'', content)], cw_machine = sample_machine, cw_cache_files = [], cw_cache_table = None\<rparr>"

definition sample_args :: "cli_command \<Rightarrow> app_args" where
  "sample_args c = \<lparr>aa_command = c, aa_config = Some ''/c''\<rparr>"

lemma sample_loads: "load_config sample_cli_env (Some ''/c'') (sample_world ''pink'') = Ok default_app"
  using default_app_valid
  by (simp add: load_config_eq load_from_file_ok config_file_def sample_world_def sample_cli_env_def)

lemma sample_theme_runs:
  "\<exists>w'. run_cli sample_cli_env (sample_args (ThemeCmd (Some ''night''))) (sample_world ''pink'') = (Ok CmdDone, w')"
proof -
  have "''night'' \<in> set themes" by (simp add: themes_def)
  with theme_config [OF sample_loads] sample_loads show ?thesis
    by (simp add: run_cli_def run_with_def sample_args_def handle_theme_command_def write_text_def)
      (simp add: sample_cli_env_def)
qed

theorem theme_keeps_config_witness:
  "\<exists>w'. run_cli sample_cli_env (sample_args (ThemeCmd (Some ''night''))) (sample_world ''pink'') = (Ok CmdDone, w')
     \<and> load_config sample_cli_env (Some ''/c'') w' = Ok (with_theme ''night'' default_app)"
proof -
  obtain w' where run: "run_cli sample_cli_env (sample_args (ThemeCmd (Some ''night''))) (sample_world ''pink'') = (Ok CmdDone, w')"
    using sample_theme_runs by blast
  have "cl_toml sample_cli_env (cl_print sample_cli_env (with_theme ''night'' default_app)) = Some (with_theme ''night'' default_app)"
    by (simp add: sample_cli_env_def)
  from theme_keeps_config [OF this _ _ run] sample_loads run show ?thesis by (simp add: sample_args_def)
qed

theorem damaged_config_blocks_witness:
  "fst (run_cli sample_cli_env (sample_args StopCmd) (sample_world ''port?'')) \<noteq> Ok CmdDone
   \<and> snd (run_cli sample_cli_env (sample_args StopCmd) (sample_world ''port?'')) = sample_world ''port?''"
proof -
  let ?run = "run_cli sample_cli_env (sample_args StopCmd) (sample_world ''port?'')"
  have "?run = (fst ?run, snd ?run)" by simp
  moreover have "case map_of (cw_files (sample_world ''port?'')) (config_file sample_cli_env (aa_config (sample_args StopCmd))) of
      None \<Rightarrow> aa_config (sample_args StopCmd) \<noteq> None
    | Some content \<Rightarrow> (case cl_toml sample_cli_env content of None \<Rightarrow> True | Some c \<Rightarrow> \<not> valid_config c)"
    by (simp add: sample_world_def sample_args_def config_file_def sample_cli_env_def)
  ultimately have "(\<exists>e. fst ?run = Err (ConfigFailed e)) \<and> snd ?run = sample_world ''port?''"
    by (rule damaged_config_blocks)
  then show ?thesis by auto
qed

end
