(* ===== verification/Startup_Ui.thy ===== *)
theory Startup_Ui
  imports Terminal Metrics
begin

text \<open>
  The display of \<open>start\<close> (\<open>src/utils/ui.rs\<close>, \<open>src/utils/banner.rs\<close>): the banner, the steps of the start and
  the panel that is drawn again every second. A display is the list of operations on the terminal;
  waiting between them is left out. Floating point arithmetic is a parameter.
\<close>

section \<open>The banner\<close>

text \<open>A letter stands for the block or frame character at its place.\<close>

definition logo_glyph :: "char \<Rightarrow> string" where
  "logo_glyph c =
     (if c = CHR ''F'' then utf8 [0x2588] else if c = CHR ''q'' then utf8 [0x2557]
      else if c = CHR ''e'' then utf8 [0x2554] else if c = CHR ''v'' then utf8 [0x2551]
      else if c = CHR ''d'' then utf8 [0x255D] else if c = CHR ''l'' then utf8 [0x255A]
      else if c = CHR ''h'' then utf8 [0x2550] else [c])"

definition logo_lines :: "string list" where
  "logo_lines =
     [''  FFq  FFq FFFFFq FFFq   FFqFFqFFq  FFq'',
      ''  FFv  FFvFFehhFFqFFFFq  FFvFFvlFFqFFed'',
      ''  FFFFFFFvFFFFFFFvFFeFFq FFvFFv lFFFed '',
      ''  FFehhFFvFFehhFFvFFvlFFqFFvFFv FFeFFq '',
      ''  FFv  FFvFFv  FFvFFv lFFFFvFFvFFed FFq'',
      ''  lhd  lhdlhd  lhdlhd  lhhhdlhdlhd  lhd'']"

definition colorize_logo_char :: "string \<Rightarrow> nat \<Rightarrow> theme_colors \<Rightarrow> string" where
  "colorize_logo_char glyph idx theme = gradient theme ! (idx mod length (gradient theme)) @ glyph @ RESET"

text \<open>The characters of a line are coloured in turn, blanks do not count.\<close>

fun type_line :: "theme_colors \<Rightarrow> nat \<Rightarrow> string \<Rightarrow> string \<times> nat" where
  "type_line theme n [] = ([], n)"
| "type_line theme n (c # cs) =
     (if c = CHR '' '' then let (s, k) = type_line theme n cs in (c # s, k)
      else let (s, k) = type_line theme (Suc n) cs in (colorize_logo_char (logo_glyph c) (Suc n) theme @ s, k))"

fun type_lines :: "theme_colors \<Rightarrow> nat \<Rightarrow> string list \<Rightarrow> string list" where
  "type_lines theme n [] = []"
| "type_lines theme n (l # ls) = (let (s, k) = type_line theme n l in (''  '' @ s) # type_lines theme k ls)"

definition spinner :: "string list" where
  "spinner = [utf8 [0x280B], utf8 [0x2819], utf8 [0x2839], utf8 [0x2838], utf8 [0x283C], utf8 [0x2834],
      utf8 [0x2826], utf8 [0x2827], utf8 [0x2807], utf8 [0x280F]]"

definition erase_up :: "nat \<Rightarrow> term_op list" where
  "erase_up n = concat (replicate n [Up 1, Erase])"

text \<open>The cat and its blinking variant are chosen at random.\<close>

definition print_banner_with_theme :: "bool \<Rightarrow> nat \<Rightarrow> string list \<times> string list
    \<Rightarrow> string \<Rightarrow> term_op list" where
  "print_banner_with_theme supports_color hour cats theme_name =
     (if \<not> supports_color then []
      else
        let theme = theme_from_config hour theme_name; (cat_base, cat_blink) = cats;
            base = map (\<lambda>l. Println (th_glow theme
                @ l)) cat_base; blink = map (\<lambda>l. Println (th_glow theme @ l)) cat_blink
        in [ClearScreen] @ map Println (type_lines theme 0 logo_lines) @ [Println []]
           @ concat (map (\<lambda>frame. [Up 1, Erase, Println (''  '' @ th_glow theme
               @ spinner ! (frame mod length spinner)
               @ ''  '' @ gradient_divider theme 52 frame @ ''  '' @ utf8 [0x52A0, 0x8F7D, 0x4E2D]
                   @ ''...'')]) [0..<5])
           @ [Up 1, Erase, Println []] @ base
           @ concat (replicate 2 (erase_up (length cat_base) @ blink @ erase_up (length cat_blink) @ base))
           @ [Println (''  '' @ divider theme 52)])"

section \<open>The steps of the start\<close>

record startup_ui =
  su_theme :: theme_colors
  su_current_step :: nat
  su_total_steps :: nat

definition startup_new :: "nat \<Rightarrow> string \<Rightarrow> startup_ui" where
  "startup_new hour theme_name =
     \<lparr>su_theme = theme_from_config hour theme_name, su_current_step = 0, su_total_steps = 4\<rparr>"

definition print_header :: "nat \<Rightarrow> startup_ui \<Rightarrow> term_op list" where
  "print_header ms ui =
     (let primary = th_primary (su_theme ui); line = divider (su_theme ui) 50
      in [Println [], Println (''  '' @ primary @ TOP_LEFT @ line),
          box_row primary (bold ''Hakimi Hub'' @ '' '' @ utf8 [0x542F, 0x52A8, 0x4E2D] @ ''... ''
              @ pick_random ms working_faces),
          Println (''  '' @ primary @ LEFT_TEE @ line)])"

definition startup_step :: "string \<Rightarrow> string \<Rightarrow> startup_ui
    \<Rightarrow> term_op list \<times> startup_ui" where
  "startup_step icon message ui =
     (let n = Suc (su_current_step ui);
          progress = ''['' @ show_nat n @ ''/'' @ show_nat (su_total_steps ui) @ '']''
      in ([Println (''  '' @ th_primary (su_theme ui) @ VERTICAL @ '' '' @ dim progress @ '' ''
             @ colorize icon (th_accent (su_theme ui)) @ '' '' @ message)],
          ui\<lparr>su_current_step := n\<rparr>))"

definition step_dns :: "startup_ui \<Rightarrow> term_op list \<times> startup_ui" where
  "step_dns = startup_step ''[OK]'' (utf8 [0x521D, 0x59CB, 0x5316] @ '' DNS '' @ utf8 [0x89E3, 0x6790, 0x5668])"

definition step_ca :: "bool \<Rightarrow> startup_ui \<Rightarrow> term_op list \<times> startup_ui" where
  "step_ca loaded = startup_step ''[OK]'' (if loaded then utf8 [0x52A0, 0x8F7D] @ '' CA '' @ utf8 [0x8BC1,
      0x4E66] else utf8 [0x751F, 0x6210] @ '' CA '' @ utf8 [0x8BC1, 0x4E66])"

definition step_proxy :: "startup_ui \<Rightarrow> term_op list \<times> startup_ui" where
  "step_proxy = startup_step ''[OK]'' (utf8 [0x8BBE, 0x7F6E, 0x7CFB, 0x7EDF, 0x4EE3, 0x7406])"

definition step_server :: "startup_ui \<Rightarrow> term_op list \<times> startup_ui" where
  "step_server = startup_step ''[OK]'' (utf8 [0x542F, 0x52A8, 0x4EE3, 0x7406, 0x670D, 0x52A1])"

definition local_url :: "string \<Rightarrow> nat \<Rightarrow> string" where
  "local_url bind port = ''http://'' @ bind @ '':'' @ show_nat port"

text \<open>The box of success; after a pause all that was printed is erased and room is made for the panel.\<close>

definition success_box :: "string \<Rightarrow> nat \<Rightarrow> bool \<Rightarrow> nat
    \<Rightarrow> startup_ui \<Rightarrow> term_op list" where
  "success_box bind port mitm ms ui =
     (let theme = su_theme ui; primary = th_primary theme; line = divider theme 52
      in [Println (''  '' @ primary @ LEFT_TEE @ line),
          box_row primary (bold ''Hakimi Hub'' @ '' '' @ pick_random ms success_faces @ '' '' @ utf8 [0x542F,
              0x52A8, 0x6210, 0x529F] @ ''! '' @ RESET),
          box_row primary (utf8 [0x4EE3, 0x7406, 0x5730, 0x5740] @ '': ''
              @ colorize (local_url bind port) (th_accent theme)),
          box_row primary (''MITM '' @ utf8 [0x62E6, 0x622A] @ '': '' @ (if mitm then colorize (utf8 [0x5DF2,
              0x542F, 0x7528]) (th_accent theme) else dim (utf8 [0x5DF2, 0x7981, 0x7528])))]
         @ (if mitm then [box_row primary (''PAC '' @ utf8 [0x5730, 0x5740] @ '': ''
             @ colorize (local_url bind port @ ''/pac'') (th_secondary theme))]
            else [])
         @ [Println (''  '' @ primary @ BOTTOM_LEFT @ line)])"

definition finish :: "string \<Rightarrow> nat \<Rightarrow> bool \<Rightarrow> nat \<Rightarrow> startup_ui
    \<Rightarrow> term_op list" where
  "finish bind port mitm ms ui =
     (let header_lines = 3; step_lines = 4; success_lines = (if mitm then 6 else 5)
      in success_box bind port mitm ms ui @ erase_up (header_lines + step_lines + success_lines)
         @ replicate 10 (Println []) @ [Up 10])"

definition startup_error :: "nat \<Rightarrow> string \<Rightarrow> term_op list" where
  "startup_error ms message =
     (let line = concat (replicate 50 HORIZONTAL)
      in [Println (''  '' @ RED @ LEFT_TEE @ line),
          box_row RED (bold ''Hakimi Hub'' @ '' '' @ utf8 [0x542F, 0x52A8, 0x5931, 0x8D25] @ '' ''
              @ pick_random ms sleepy_faces),
          box_row RED (utf8 [0x9519, 0x8BEF] @ '': '' @ message), Println (''  '' @ RED @ BOTTOM_LEFT @ line),
              Println RESET])"

text \<open>What \<open>start\<close> shows on the way when nothing fails.\<close>

definition startup_display :: "nat \<Rightarrow> string \<Rightarrow> bool \<Rightarrow> bool
    \<Rightarrow> string \<Rightarrow> nat \<Rightarrow> bool \<Rightarrow> nat \<Rightarrow> nat
    \<Rightarrow> term_op list" where
  "startup_display hour theme_name ca_exists auto_proxy bind port mitm ms ms' =
     (let ui = startup_new hour theme_name; (dns, ui1) = step_dns ui; (ca, ui2) = step_ca ca_exists ui1;
          (proxy, ui3) = (if auto_proxy then step_proxy ui2 else ([], ui2)); (server, ui4) = step_server ui3
      in print_header ms ui @ dns @ ca @ proxy @ server @ finish bind port mitm ms' ui4)"

section \<open>The panel\<close>

definition SPARKLINE_SAMPLES :: nat where "SPARKLINE_SAMPLES = 20"

text \<open>
  \<open>fo_tenths n d\<close> is the text of \<open>n as f64 / d as f64\<close> with one decimal, \<open>fo_spark v m\<close> the rounded
  \<open>(v as f32 / m as f32) * 7.0\<close> as a number.
\<close>

record float_ops =
  fo_tenths :: "nat \<Rightarrow> nat \<Rightarrow> string"
  fo_spark :: "64 word \<Rightarrow> 64 word \<Rightarrow> nat"

record runtime_panel =
  rp_theme :: theme_colors
  rp_start_time :: nat
  rp_rate_history :: "64 word list"
  rp_panel_lines :: nat
  rp_initialized :: bool
  rp_frame :: "64 word"
  rp_cat_position :: nat

definition panel_new :: "nat \<Rightarrow> nat \<Rightarrow> string \<Rightarrow> runtime_panel" where
  "panel_new now hour theme_name =
     \<lparr>rp_theme = theme_from_config hour theme_name, rp_start_time = now, rp_rate_history = [],
         rp_panel_lines = 10,
      rp_initialized = False, rp_frame = 0, rp_cat_position = 0\<rparr>"

definition get_cat_frames_by_theme :: "theme_colors \<Rightarrow> string list" where
  "get_cat_frames_by_theme theme =
     (if th_primary theme = th_primary pink_theme then [''(=^'' @ utf8 [0xFF65, 0x3C9, 0xFF65] @ ''^=)''
         @ utf8 [0x30CE], ''(=^'' @ utf8 [0xFF65, 0x3C9, 0xFF65] @ ''^=) '', utf8 [0x30FE] @ ''(=^''
         @ utf8 [0xFF65, 0x3C9, 0xFF65] @ ''^=)'', ''(=^'' @ utf8 [0xFF65, 0x3C9, 0xFF65] @ ''^=) '']
      else if th_primary theme = th_primary morning_theme then [''('' @ utf8 [0x2267, 0x3C9, 0x2266] @ '')''
          @ utf8 [0x30CE], ''('' @ utf8 [0x2267, 0x3C9, 0x2266] @ '') '', utf8 [0x30FE] @ ''('' @ utf8 [0x2267,
          0x3C9, 0x2266] @ '')'', ''('' @ utf8 [0x2267, 0x3C9, 0x2266] @ '') '']
      else if th_primary theme = th_primary noon_theme then [''('' @ utf8 [0x2D8, 0x3C9, 0x2D8] @ '')''
          @ utf8 [0x30CE], ''('' @ utf8 [0x2D8, 0x3C9, 0x2D8] @ '') '', utf8 [0x30FE] @ ''('' @ utf8 [0x2D8,
          0x3C9, 0x2D8] @ '')'', ''('' @ utf8 [0x2D8, 0x3C9, 0x2D8] @ '') '']
      else if th_primary theme = th_primary night_theme then [''('' @ utf8 [0x25C9, 0x3C9, 0x25C9] @ '')''
          @ utf8 [0x30CE], ''('' @ utf8 [0x25C9, 0x3C9, 0x25C9] @ '') '', utf8 [0x30FE] @ ''('' @ utf8 [0x25C9,
          0x3C9, 0x25C9] @ '')'', ''('' @ utf8 [0x25C9, 0x3C9, 0x25C9] @ '') '']
      else [''(=^'' @ utf8 [0xFF65, 0x3C9, 0xFF65] @ ''^=)'' @ utf8 [0x30CE], ''(=^'' @ utf8 [0xFF65, 0x3C9,
          0xFF65] @ ''^=) '', utf8 [0x30FE] @ ''(=^'' @ utf8 [0xFF65, 0x3C9, 0xFF65] @ ''^=)'', ''(=^''
          @ utf8 [0xFF65, 0x3C9, 0xFF65] @ ''^=) ''])"

definition render_walking_cat :: "runtime_panel \<Rightarrow> string \<times> runtime_panel" where
  "render_walking_cat p =
     (let pos = (rp_cat_position p + 1) mod 30; frames = get_cat_frames_by_theme (rp_theme p);
          cat = frames ! (unat (rp_frame p) mod length frames); cat_len = char_count cat;
          trail_spaces = (if pos + cat_len < 30 then replicate (30 - pos - cat_len) (CHR '' '') else [])
      in (replicate pos (CHR '' '') @ colorize cat (th_glow (rp_theme p)) @ trail_spaces @ RESET,
          p\<lparr>rp_cat_position := pos\<rparr>))"

definition format_bytes :: "float_ops \<Rightarrow> 64 word \<Rightarrow> string" where
  "format_bytes fo bytes =
     (let n = unat bytes
      in if 2 ^ 30 \<le> n then fo_tenths fo n (2 ^ 30) @ '' GB''
         else if 2 ^ 20 \<le> n then fo_tenths fo n (2 ^ 20) @ '' MB''
         else if 2 ^ 10 \<le> n then fo_tenths fo n (2 ^ 10) @ '' KB''
         else show_nat n @ '' B'')"

definition format_rate :: "float_ops \<Rightarrow> 64 word \<Rightarrow> string" where
  "format_rate fo bytes_per_sec =
     (let n = unat bytes_per_sec
      in if 2 ^ 20 \<le> n then fo_tenths fo n (2 ^ 20) @ '' MB/s''
         else if 2 ^ 10 \<le> n then fo_tenths fo n (2 ^ 10) @ '' KB/s''
         else if 0 < n then show_nat n @ '' B/s''
         else ''0'')"

definition format_uptime :: "nat \<Rightarrow> string" where
  "format_uptime elapsed =
     (let s = elapsed div 10 ^ 9
      in pad2 (s div 3600) @ '':'' @ pad2 (s mod 3600 div 60) @ '':'' @ pad2 (s mod 60))"

definition sparks :: "string list" where
  "sparks = [utf8 [0x2581], utf8 [0x2582], utf8 [0x2583], utf8 [0x2584], utf8 [0x2585], utf8 [0x2586],
      utf8 [0x2587], utf8 [0x2588]]"

definition push_rate :: "64 word \<Rightarrow> 64 word list \<Rightarrow> 64 word list" where
  "push_rate rate h = (if SPARKLINE_SAMPLES \<le> length h then drop 1 h else h) @ [rate]"

definition render_sparkline :: "float_ops \<Rightarrow> 64 word \<Rightarrow> runtime_panel
    \<Rightarrow> string \<times> runtime_panel" where
  "render_sparkline fo current_rate p =
     (let history = push_rate current_rate (rp_rate_history p); max_val = foldl max 1 history
      in (if history = [] then replicate SPARKLINE_SAMPLES (CHR '' '')
          else concat (map (\<lambda>v. th_accent (rp_theme p) @ sparks ! min 7 (fo_spark fo v max_val)) history),
          p\<lparr>rp_rate_history := history\<rparr>))"

definition panel_face :: "theme_colors \<Rightarrow> 64 word \<Rightarrow> string" where
  "panel_face theme rate =
     (if 2000000 < unat rate then colorize ''(o_o)'' YELLOW
      else if 500000 < unat rate then colorize ''(^_^)'' (th_accent theme)
      else colorize ''(-_-)'' DIM)"

definition panel_row :: "string \<Rightarrow> string \<Rightarrow> string" where
  "panel_row primary content = ''  '' @ primary @ VERTICAL @ ''  '' @ content"

definition panel_text :: "float_ops \<Rightarrow> nat \<Rightarrow> metrics \<Rightarrow> runtime_panel
    \<Rightarrow> string list \<times> runtime_panel \<times> metrics" where
  "panel_text fo now m p =
     (let stats = snapshot m; ((rate_sent, rate_recv), m1) = get_rate_and_reset now m;
          theme = rp_theme p; primary = th_primary theme;
          line = gradient_divider theme 50 (unat (rp_frame p) mod 4);
          (walking_cat, p1) = render_walking_cat (p\<lparr>rp_frame := rp_frame p + 1\<rparr>);
          (sparkline, p2) = render_sparkline fo rate_recv p1
      in ([''  '' @ primary @ TOP_LEFT @ line,
           panel_row primary (bold (utf8 [0x8FD0, 0x884C, 0x4E2D]) @ '' ''
               @ colorize ''Hakimi Hub'' (th_accent theme) @ walking_cat),
           ''  '' @ primary @ LEFT_TEE @ line,
           panel_row primary (utf8 [0x901F, 0x7387] @ '': '' @ utf8 [0x2191] @ '' ''
               @ pad_left 10 (colorize (format_rate fo rate_sent) (th_accent theme))
             @ ''  '' @ utf8 [0x2193] @ '' ''
                 @ pad_left 10 (colorize (format_rate fo rate_recv) (th_secondary theme))),
           panel_row primary (''      '' @ sparkline @ RESET),
           panel_row primary (utf8 [0x6D41, 0x91CF] @ '': '' @ utf8 [0x2191] @ '' ''
               @ pad_left 10 (colorize (format_bytes fo (sn_sent stats)) (th_accent theme))
             @ ''  '' @ utf8 [0x2193] @ '' ''
                 @ pad_left 10 (colorize (format_bytes fo (sn_received stats)) (th_secondary theme))),
           ''  '' @ primary @ LEFT_TEE @ line,
           panel_row primary (utf8 [0x8FD0, 0x884C] @ '': ''
               @ colorize (format_uptime (now - rp_start_time p)) (th_glow theme)),
           ''  '' @ primary @ BOTTOM_LEFT @ line,
           ''   '' @ panel_face theme rate_recv @ ''  '' @ utf8 [0x7248, 0x672C] @ '' ''
               @ colorize ''0.1.0'' (th_glow theme) @ '' | Ctrl+C '' @ utf8 [0x505C, 0x6B62]],
          p2, m1))"

text \<open>The assertion on the number of lines; the first time the panel is printed where the cursor is.\<close>

definition print_panel :: "float_ops \<Rightarrow> nat \<Rightarrow> metrics \<Rightarrow> runtime_panel
    \<Rightarrow> (unit, term_op list) outcome \<times> runtime_panel \<times> metrics" where
  "print_panel fo now m p =
     (let (ls, p1, m1) = panel_text fo now m p
      in if length ls \<noteq> rp_panel_lines p then (Panic, p1, m1)
         else
           (Ok (if rp_initialized p1 then Up (rp_panel_lines p) # concat (map (\<lambda>l. [Erase, Println l]) ls)
                else map Println ls),
            p1\<lparr>rp_initialized := True\<rparr>, m1))"

text \<open>The panel is drawn at the given times, with the counters as they are then.\<close>

fun panel_run :: "float_ops \<Rightarrow> (nat \<times> metrics) list \<Rightarrow> runtime_panel
    \<Rightarrow> (unit, term_op list) outcome \<times> runtime_panel" where
  "panel_run fo [] p = (Ok [], p)"
| "panel_run fo ((now, m) # es) p =
     (case print_panel fo now m p of
        (Ok ops, p1, _) \<Rightarrow>
          (case panel_run fo es p1 of
             (Ok ops', p2) \<Rightarrow> (Ok (ops @ ops'), p2)
           | (r, p2) \<Rightarrow> (r, p2))
      | (r, p1, _) \<Rightarrow> (r, p1))"

section \<open>What stays on the screen\<close>

text \<open>Operations that only print lines.\<close>

definition prints :: "term_op list \<Rightarrow> bool" where
  "prints ops \<longleftrightarrow> (\<forall>op \<in> set ops. \<exists>l. op = Println l)"

lemma prints_simps [simp]:
  "prints []" "prints (Println l # ops) = prints ops" "prints (box_row c s # ops) = prints ops"
  "prints (ops @ ops') \<longleftrightarrow> prints ops \<and> prints ops'" "prints (map Println ls)"
  by (auto simp: prints_def box_row_def)

lemma prints_lines: "prints ops \<Longrightarrow> \<exists>ls. ops = map Println ls"
  unfolding prints_def by (rule ex_map_conv [THEN iffD2]) blast

lemma prints_blank:
  assumes "prints ops"
  shows "\<exists>xs. length xs = length ops
    \<and> term_run ops (blank_below upper k) = blank_below (upper @ xs) (k - length ops)"
proof -
  from prints_lines [OF assms] obtain ls where ls: "ops = map Println ls" by blast
  then have "length (printed ls) = length ops" by simp
  moreover have "term_run ops (blank_below upper k) = blank_below (upper @ printed ls) (k - length ops)"
    by (simp add: ls println_lines)
  ultimately show ?thesis by blast
qed

lemma erase_up_blank: "term_run (erase_up (length xs)) (blank_below (upper
    @ xs) k) = blank_below upper (k + length xs)"
  by (simp only: erase_up_def erase_lines)

text \<open>Printing and erasing as many lines leaves blank rows.\<close>

lemma print_erase:
  assumes "prints ops"
  shows "\<exists>j. term_run (ops @ erase_up (length ops)) (blank_below upper k) = blank_below upper j"
proof -
  from prints_blank [OF assms] obtain xs where
    xs: "length xs = length ops" "term_run ops (blank_below upper k) = blank_below (upper @ xs) (k - length ops)"
    by blast
  from erase_up_blank [of xs upper "k - length ops"] show ?thesis
    by (simp only: term_run_append xs) blast
qed

lemma make_room: "term_run (replicate n (Println [])
    @ [Up n]) (blank_below upper k) = blank_below upper (n + (k - n))"
proof -
  have "term_run (map Println (replicate n [])) (blank_below upper k) = blank_below (upper
      @ printed (replicate n [])) (k - n)"
    by (simp only: println_lines length_replicate)
  then show ?thesis
    by (simp add: blank_below_def write_row_def replicate_add)
qed

text \<open>All that is printed up to the box of success, its first line a blank one.\<close>

lemma startup_display_parts:
  "\<exists>ops. startup_display hour theme_name ca_exists auto_proxy bind port mitm ms ms' =
      Println [] # ops @ erase_up (length ops + (if auto_proxy then 0 else 1)) @ replicate 10 (Println []) @ [Up 10]
    \<and> prints ops"
proof -
  let ?ui = "startup_new hour theme_name"
  let ?dns = "step_dns ?ui" let ?ca = "step_ca ca_exists (snd ?dns)"
  let ?proxy = "if auto_proxy then step_proxy (snd ?ca) else ([], snd ?ca)" let ?server = "step_server (snd ?proxy)"
  let ?ops = "tl (print_header ms ?ui) @ fst ?dns @ fst ?ca @ fst ?proxy @ fst ?server
    @ success_box bind port mitm ms' (snd ?server)"
  note defs = step_dns_def step_ca_def step_proxy_def step_server_def startup_step_def
  have "startup_display hour theme_name ca_exists auto_proxy bind port mitm ms ms' =
      Println [] # ?ops @ erase_up (7 + (if mitm then 6 else 5)) @ replicate 10 (Println []) @ [Up 10]"
    by (simp add: startup_display_def finish_def print_header_def case_prod_unfold Let_def)
  moreover have "length ?ops + (if auto_proxy then 0 else 1) = 7 + (if mitm then 6 else 5)"
    by (simp add: defs print_header_def success_box_def Let_def)
  moreover have "prints ?ops"
    by (simp add: defs print_header_def success_box_def Let_def)
  ultimately show ?thesis by metis
qed

lemma startup_display_blank:
  "\<exists>j. term_run (startup_display hour theme_name ca_exists auto_proxy bind port mitm ms ms') (blank_below upper k)
     = blank_below (upper @ replicate (if auto_proxy then 1 else 0) []) (10 + j)"
proof -
  from startup_display_parts obtain ops where ops: "prints ops"
    "startup_display hour theme_name ca_exists auto_proxy bind port mitm ms ms' =
      Println [] # ops @ erase_up (length ops + (if auto_proxy then 0 else 1)) @ replicate 10 (Println []) @ [Up 10]"
    by blast
  have "\<exists>j. term_run (Println [] # ops
      @ erase_up (length ops + (if auto_proxy then 0 else 1))) (blank_below upper k)
      = blank_below (upper @ replicate (if auto_proxy then 1 else 0) []) j"
  proof (cases auto_proxy)
    case True
    have "term_run [Println []] (blank_below upper k) = blank_below (upper @ [[]]) (k - 1)"
      by (simp add: println_blank write_row_def del: term_step.simps)
    with True print_erase [OF ops(1), of "upper @ [[]]" "k - 1"] show ?thesis
      by (simp del: term_step.simps)
  next
    case False
    have "prints (Println [] # ops)" using ops(1) by simp
    from False print_erase [OF this, of upper k] show ?thesis by (simp del: term_step.simps)
  qed
  then obtain j where j: "term_run (Println [] # ops
      @ erase_up (length ops + (if auto_proxy then 0 else 1))) (blank_below upper k)
      = blank_below (upper @ replicate (if auto_proxy then 1 else 0) []) j"
    by blast
  have "startup_display hour theme_name ca_exists auto_proxy bind port mitm ms ms' =
      (Println [] # ops @ erase_up (length ops + (if auto_proxy then 0 else 1))) @ (replicate 10 (Println [])
          @ [Up 10])"
    by (simp only: ops(2) append_Cons append_assoc)
  then show ?thesis by (metis term_run_append j make_room)
qed

text \<open>The panel has ten lines, and none of them is empty.\<close>

lemma panel_text_lines: "length (fst (panel_text fo now m p)) = 10" "[] \<notin> set (fst (panel_text fo now m p))"
  by (auto simp: panel_text_def panel_row_def case_prod_unfold Let_def)

definition received_rate :: "nat \<times> metrics \<Rightarrow> 64 word" where
  "received_rate e = snd (fst (get_rate_and_reset (fst e) (snd e)))"

lemma panel_text_state:
  assumes "panel_text fo now m p = (ls, p1, m1)"
  shows "rp_panel_lines p1 = rp_panel_lines p \<and> rp_initialized p1 = rp_initialized p
    \<and> rp_rate_history p1 = push_rate (received_rate (now, m)) (rp_rate_history p)"
  using assms
  by (auto simp: panel_text_def render_walking_cat_def render_sparkline_def received_rate_def case_prod_unfold Let_def)

lemma printed_lines: "[] \<notin> set ls \<Longrightarrow> printed ls = map (\<lambda>l. [l]) ls"
  by (induction ls) (auto simp: write_row_def)

lemma push_rate_recent:
  "push_rate r (drop (length rs - SPARKLINE_SAMPLES) rs) = drop (length (rs @ [r]) - SPARKLINE_SAMPLES) (rs @ [r])"
proof (cases "20 \<le> length rs")
  case True
  then have "Suc (length rs - 20) = Suc (length rs) - 20" by simp
  with True show ?thesis by (simp add: push_rate_def SPARKLINE_SAMPLES_def)
qed (simp add: push_rate_def SPARKLINE_SAMPLES_def)

text \<open>One drawing: the first on blank rows, the others over the panel before.\<close>

lemma print_panel_screen:
  assumes "rp_panel_lines p = 10" and "length old = 10"
  shows "\<exists>ops p1 m1. print_panel fo now m p = (Ok ops, p1,
      m1) \<and> rp_panel_lines p1 = 10 \<and> rp_initialized p1
     \<and> rp_rate_history p1 = push_rate (received_rate (now, m)) (rp_rate_history p)
     \<and> term_run ops (if rp_initialized p then \<lparr>sc_rows = upper @ old @ replicate k [],
         sc_row = length upper + 10\<rparr>
           else blank_below upper (10 + k))
        = \<lparr>sc_rows = upper @ map (\<lambda>l. [l]) (fst (panel_text fo now m p)) @ replicate k [],
            sc_row = length upper + 10\<rparr>"
proof -
  obtain ls q m1 where eq: "panel_text fo now m p = (ls, q, m1)" by (metis prod_cases3)
  note state = panel_text_state [OF eq]
  from panel_text_lines [of fo now m p] eq have ls: "length ls = 10" "printed ls = map (\<lambda>l. [l]) ls"
    by (simp_all add: printed_lines)
  show ?thesis
  proof (cases "rp_initialized p")
    case True
    have "term_run (Up 10 # concat (map (\<lambda>l. [Erase, Println l]) ls))
        \<lparr>sc_rows = upper @ old @ replicate k [], sc_row = length upper + 10\<rparr>
      = \<lparr>sc_rows = upper @ printed ls @ replicate k [], sc_row = length upper + 10\<rparr>"
      using redraw_lines [of old ls upper "replicate k []"] assms(2) ls(1) by simp
    with True state eq ls assms(1) show ?thesis by (simp add: print_panel_def)
  next
    case False
    have "term_run (map Println ls) (blank_below upper (10 + k))
      = \<lparr>sc_rows = upper @ printed ls @ replicate k [], sc_row = length upper + 10\<rparr>"
      by (simp only: println_lines ls(1)) (simp add: blank_below_def ls(1))
    with False state eq ls assms(1) show ?thesis by (simp add: print_panel_def)
  qed
qed

lemma panel_run_snoc:
  assumes "panel_run fo es p = (Ok ops, p1)" and "print_panel fo (fst e) (snd e) p1 = (Ok ops', p2, m)"
  shows "panel_run fo (es @ [e]) p = (Ok (ops @ ops'), p2)"
  using assms
proof (induction es arbitrary: p ops)
  case Nil
  then show ?case by (cases e) auto
next
  case (Cons a es)
  obtain now k where a: "a = (now, k)" by (cases a)
  from Cons.prems(1) obtain o1 q m1 o2 where step: "print_panel fo now k p = (Ok o1, q, m1)"
    "panel_run fo es q = (Ok o2, p1)" "ops = o1 @ o2"
    by (auto simp: a split: prod.splits outcome.splits)
  from Cons.IH [OF step(2) Cons.prems(2)] show ?case by (simp add: a step(1,3))
qed

lemma panel_run_screen:
  assumes "rp_panel_lines p = 10" and "\<not> rp_initialized p" and "rp_rate_history p = []"
  shows "\<exists>ops p1. panel_run fo es p = (Ok ops,
      p1) \<and> rp_panel_lines p1 = 10 \<and> rp_initialized p1 = (es \<noteq> [])
     \<and> rp_rate_history p1 = drop (length es - SPARKLINE_SAMPLES) (map received_rate es)
     \<and> term_run ops (blank_below upper (10 + k)) =
         (if es = [] then blank_below upper (10 + k)
          else \<lparr>sc_rows = upper @ map (\<lambda>l. [l]) (fst (panel_text fo (fst (last es)) (snd (last es))
                  (snd (panel_run fo (butlast es) p)))) @ replicate k [], sc_row = length upper + 10\<rparr>)"
proof (induction es rule: rev_induct)
  case Nil
  then show ?case using assms by simp
next
  case (snoc e es)
  then obtain ops p1 where run: "panel_run fo es p = (Ok ops, p1)" "rp_panel_lines p1 = 10"
    "rp_initialized p1 = (es \<noteq> [])"
    "rp_rate_history p1 = drop (length es - SPARKLINE_SAMPLES) (map received_rate es)"
    "term_run ops (blank_below upper (10 + k)) =
         (if es = [] then blank_below upper (10 + k)
          else \<lparr>sc_rows = upper @ map (\<lambda>l. [l]) (fst (panel_text fo (fst (last es)) (snd (last es))
                  (snd (panel_run fo (butlast es) p)))) @ replicate k [], sc_row = length upper + 10\<rparr>)"
    by blast
  let ?old = "map (\<lambda>l. [l]) (fst (panel_text fo (fst (last es)) (snd (last es)) (snd (panel_run fo (butlast es) p))))"
  have "length ?old = 10" by (simp add: panel_text_lines)
  from print_panel_screen [OF run(2) this, of fo "fst e" "snd e" upper k] obtain ops' p2 m1 where
    next_one: "print_panel fo (fst e) (snd e) p1 = (Ok ops', p2, m1)" "rp_panel_lines p2 = 10" "rp_initialized p2"
      "rp_rate_history p2 = push_rate (received_rate e) (rp_rate_history p1)"
      "term_run ops' (if es = [] then blank_below upper (10 + k)
          else \<lparr>sc_rows = upper @ ?old @ replicate k [], sc_row = length upper + 10\<rparr>)
        = \<lparr>sc_rows = upper @ map (\<lambda>l. [l]) (fst (panel_text fo (fst e) (snd e) p1)) @ replicate k [],
           sc_row = length upper + 10\<rparr>"
    unfolding run(3) by (cases "es = []") auto
  have "rp_rate_history p2 = drop (length (es @ [e]) - SPARKLINE_SAMPLES) (map received_rate (es @ [e]))"
    using push_rate_recent [of "received_rate e" "map received_rate es"] by (simp add: next_one(4) run(4))
  with panel_run_snoc [OF run(1) next_one(1)] next_one(2,3,5) run(1,5) show ?case by simp
qed



text \<open>The banner clears the screen and leaves the logo, a blank row, the cat and a line, whatever the cat.\<close>

lemma frames_replace:
  "\<exists>x'. term_run (concat (map (\<lambda>f. [Up 1, Erase, Println (g f)]) fs)) (blank_below (upper
      @ [x]) k) = blank_below (upper @ [x']) k"
proof (induction fs arbitrary: x)
  case (Cons f fs)
  have "term_run [Up 1, Erase, Println (g f)] (blank_below (upper @ [x]) k) = blank_below (upper
      @ [write_row (g f) []]) k"
    using erase_line [of upper x k] println_blank [of "g f" upper "Suc k"] by (simp del: term_step.simps)
  with Cons.IH [of "write_row (g f) []"] show ?case
    by (simp only: list.map concat.simps term_run_append)
qed auto

lemma print_over:
  "term_run (erase_up (length ls) @ map Println ks @ erase_up (length ks) @ map Println ls) (blank_below (upper
      @ printed ls) k)
    = blank_below (upper @ printed ls) (k + length ls - length ks + length ks - length ls)"
  using erase_up_blank [of "printed ls" upper k] erase_up_blank [of "printed ks" upper "k + length ls - length ks"]
  by (simp add: println_lines)

lemma banner_screen:
  "\<exists>j. term_run (print_banner_with_theme True hour (cat_base, cat_blink) theme_name) t =
     (let theme = theme_from_config hour theme_name
      in blank_below (printed (type_lines theme 0 logo_lines) @ [[]]
           @ printed (map (\<lambda>l. th_glow theme @ l) cat_base) @ printed [''  '' @ divider theme 52]) j)"
proof -
  define theme where "theme = theme_from_config hour theme_name"
  define logo where "logo = printed (type_lines theme 0 logo_lines)"
  define base where "base = map (\<lambda>l. th_glow theme @ l) cat_base"
  define blink where "blink = map (\<lambda>l. th_glow theme @ l) cat_blink"
  have typed: "term_run (ClearScreen # map Println (type_lines theme 0 logo_lines)
      @ [Println []]) t = blank_below (logo @ [[]]) 0"
  proof -
    have "term_step ClearScreen t = blank_below [] 0" by (cases t) (simp add: blank_below_def)
    with println_lines [of "type_lines theme 0 logo_lines" "[]" 0] println_blank [of "[]" logo 0] show ?thesis
      by (simp add: logo_def write_row_def del: term_step.simps)
  qed
  define g where "g frame = ''  '' @ th_glow theme @ spinner ! (frame mod length spinner) @ ''  ''
      @ gradient_divider theme 52 frame
    @ ''  '' @ utf8 [0x52A0, 0x8F7D, 0x4E2D] @ ''...''" for frame
  from frames_replace [of g "[0..<5]" logo "[]" 0] obtain x where
    frames: "term_run (concat (map (\<lambda>f. [Up 1, Erase, Println (g f)]) [0..<5])) (blank_below (logo
        @ [[]]) 0) = blank_below (logo @ [x]) 0"
    by blast
  have cleared: "term_run [Up 1, Erase, Println []] (blank_below (logo @ [x]) 0) = blank_below (logo @ [[]]) 0"
    using erase_line [of logo x 0] println_blank [of "[]" logo 1] by (simp add: write_row_def del: term_step.simps)
  define wink where "wink = erase_up (length base) @ map Println blink @ erase_up (length blink) @ map Println base"
  have over: "\<exists>j. term_run wink (blank_below ((logo @ [[]]) @ printed base) k) = blank_below ((logo
      @ [[]]) @ printed base) j" for k
    unfolding wink_def using print_over [of base blink "logo @ [[]]" k] by blast
  have ops: "print_banner_with_theme True hour (cat_base, cat_blink) theme_name =
      (ClearScreen # map Println (type_lines theme 0 logo_lines) @ [Println []])
      @ concat (map (\<lambda>f. [Up 1, Erase, Println (g f)]) [0..<5]) @ [Up 1, Erase, Println []] @ map Println base
      @ (wink @ wink) @ map Println [''  '' @ divider theme 52]"
    by (simp add: print_banner_with_theme_def Let_def theme_def [symmetric] base_def blink_def g_def wink_def numeral_2_eq_2 comp_def
        del: upt_conv_Cons)
  from over obtain j1 where j1: "term_run wink (blank_below ((logo @ [[]]) @ printed base) (0 - length base))
      = blank_below ((logo @ [[]]) @ printed base) j1" by blast
  from over obtain j2 where j2: "term_run wink (blank_below ((logo @ [[]]) @ printed base) j1)
      = blank_below ((logo @ [[]]) @ printed base) j2" by blast
  have "term_run (print_banner_with_theme True hour (cat_base, cat_blink) theme_name) t
      = blank_below (((logo @ [[]]) @ printed base) @ printed [''  '' @ divider theme 52]) (j2 - 1)"
    by (simp only: ops term_run_append typed frames cleared println_lines j1 j2) simp
  then show ?thesis
    unfolding Let_def theme_def [symmetric] logo_def base_def by (metis append_assoc)
qed

end
