(* ===== verification/Banner_Theme.thy ===== *)
theory Banner_Theme
  imports Terminal
begin

text \<open>
  The module \<open>src/utils/banner.rs\<close> has its own copies of the themes and of the dividing line of
  \<open>src/utils/ui.rs\<close>. They are modelled here from their own text and shown to be those of \<open>Terminal\<close>, so
  the banner of \<open>Startup_Ui\<close> and \<open>Banner_Art\<close> can use the definitions there.
\<close>

section \<open>The themes of the banner\<close>

record banner_colors =
  bc_primary :: string
  bc_secondary :: string
  bc_accent :: string
  bc_glow :: string
  bc_soft :: string

definition banner_pink :: banner_colors where
  "banner_pink =
     \<lparr>bc_primary = sgr ''38;5;219'', bc_secondary = sgr ''38;5;213'', bc_accent = sgr ''38;5;206'',
      bc_glow = sgr ''38;5;177'', bc_soft = sgr ''38;5;225''\<rparr>"

definition banner_morning :: banner_colors where
  "banner_morning =
     \<lparr>bc_primary = sgr ''38;5;220'', bc_secondary = sgr ''38;5;209'', bc_accent = sgr ''38;5;214'',
      bc_glow = sgr ''38;5;178'', bc_soft = sgr ''38;5;222''\<rparr>"

definition banner_noon :: banner_colors where
  "banner_noon =
     \<lparr>bc_primary = sgr ''38;5;123'', bc_secondary = sgr ''38;5;122'', bc_accent = sgr ''38;5;117'',
      bc_glow = sgr ''38;5;154'', bc_soft = sgr ''38;5;194''\<rparr>"

definition banner_night :: banner_colors where
  "banner_night =
     \<lparr>bc_primary = sgr ''38;5;39'', bc_secondary = sgr ''38;5;45'', bc_accent = sgr ''38;5;51'',
      bc_glow = sgr ''38;5;81'', bc_soft = sgr ''38;5;117''\<rparr>"

text \<open>The hour comes as the text of the format \<open>%H\<close>; text that is not a \<open>u32\<close> counts as noon.\<close>

definition time_theme_now :: "string \<Rightarrow> time_theme" where
  "time_theme_now hour_text =
     (let hour = case parse_uint (2 ^ 32 - 1) hour_text of Some hour \<Rightarrow> hour | None \<Rightarrow> 12
      in if 6 \<le> hour \<and> hour \<le> 11 then Morning else if 12 \<le> hour \<and> hour \<le> 17 then Noon else Night)"

definition banner_from_config :: "string \<Rightarrow> string \<Rightarrow> banner_colors" where
  "banner_from_config hour_text theme_name =
     (if theme_name = ''pink'' then banner_pink
      else if theme_name = ''morning'' then banner_morning
      else if theme_name = ''noon'' then banner_noon
      else if theme_name = ''night'' then banner_night
      else if theme_name = ''auto'' then
        (case time_theme_now hour_text of Morning \<Rightarrow> banner_morning | Noon \<Rightarrow> banner_noon | Night \<Rightarrow> banner_night)
      else banner_pink)"

section \<open>The dividing line of the banner\<close>

definition animated_divider_frame :: "banner_colors \<Rightarrow> nat \<Rightarrow> string" where
  "animated_divider_frame theme frame =
     (let width = 52;
          gradient = [bc_primary theme, bc_secondary theme, bc_accent theme, bc_glow theme, bc_soft theme];
          chars = [utf8 [0x2501], utf8 [0x257E], utf8 [0x2500], utf8 [0x257C]];
          line = fold (\<lambda>i line. line @ gradient ! (i * length gradient div width mod length gradient)
                                 @ chars ! ((i + frame) mod length chars)) [0..<width] []
      in line @ RESET)"

definition banner_divider :: "banner_colors \<Rightarrow> string" where
  "banner_divider theme = animated_divider_frame theme 0"

section \<open>They are those of the interface\<close>

definition as_ui_colors :: "banner_colors \<Rightarrow> theme_colors" where
  "as_ui_colors t =
     \<lparr>th_primary = bc_primary t, th_secondary = bc_secondary t, th_accent = bc_accent t, th_glow = bc_glow t,
      th_soft = bc_soft t\<rparr>"

lemma fold_push: "fold (\<lambda>i line. line @ f i) xs start = start @ concat (map f xs)"
  by (induction xs arbitrary: start) simp_all

theorem banner_themes_agree:
  assumes "parse_uint (2 ^ 32 - 1) hour_text = Some hour"
  shows "as_ui_colors (banner_from_config hour_text name) = theme_from_config hour name"
proof -
  have themes: "as_ui_colors banner_pink = pink_theme" "as_ui_colors banner_morning = morning_theme"
      "as_ui_colors banner_noon = noon_theme" "as_ui_colors banner_night = night_theme"
    by (simp_all add: as_ui_colors_def banner_pink_def banner_morning_def banner_noon_def banner_night_def
        pink_theme_def morning_theme_def noon_theme_def night_theme_def)
  have "time_theme_now hour_text = time_theme_at hour"
    unfolding time_theme_now_def assms by (simp add: time_theme_at_def)
  then show ?thesis
    by (cases "time_theme_at hour") (simp_all add: banner_from_config_def theme_from_config_def themes)
qed

theorem banner_divider_agrees:
  "animated_divider_frame theme frame = gradient_divider (as_ui_colors theme) 52 frame
   \<and> banner_divider theme = divider (as_ui_colors theme) 52"
proof -
  have "animated_divider_frame theme frame = gradient_divider (as_ui_colors theme) 52 frame" for frame
    unfolding animated_divider_frame_def gradient_divider_def Let_def fold_push
    by (simp add: gradient_def dashes_def as_ui_colors_def del: upt_rec_numeral upt_Suc)
  then show ?thesis by (simp add: banner_divider_def divider_def)
qed

end
