(* ===== verification/Banner_Art.thy ===== *)
theory Banner_Art
  imports Startup_Ui
begin

text \<open>
  The cats of the banner and the functions of \<open>src/utils/banner.rs\<close> that print a line: which cat a
  theme shows, and that none of the choices can fail; and the guide of \<open>src/git/ssh_guide.rs\<close>. The
  random numbers are parameters: \<open>themed\<close> says if the first one was below 0.7, \<open>k\<close> is the index that
  was chosen, modulo the number of cats.
\<close>

section \<open>The cats\<close>

text \<open>A cat and the same cat blinking.\<close>

type_synonym cat_shape = "string list \<times> string list"

definition get_pink_cats :: "cat_shape list" where
  "get_pink_cats =
     [([''     /'' @ utf8 [0x5C] @ ''_/'' @ utf8 [0x5C] @ ''  '',
        ''    ('' @ utf8 [0x2267, 0x25E1, 0x2266] @ '')    '',
        ''   /  '' @ utf8 [0x2661, 0x2661] @ ''  '' @ utf8 [0x5C] @ '' '',
        ''  ( '' @ utf8 [0x7C89, 0x7C89, 0x55B5] @ ''~ ) '',
        ''   '' @ utf8 [0x5C] @ ''  '' @ utf8 [0x25E1] @ ''  /  ''],
       [''     /'' @ utf8 [0x5C] @ ''_/'' @ utf8 [0x5C] @ ''  '',
        ''    ('' @ utf8 [0x2267, 0x203F, 0x2266] @ '')    '',
        ''   /  '' @ utf8 [0x2661, 0x2661] @ ''  '' @ utf8 [0x5C] @ '' '',
        ''  ( '' @ utf8 [0x7C89, 0x7C89, 0x55B5] @ ''~ ) '',
        ''   '' @ utf8 [0x5C] @ ''  '' @ utf8 [0x25E1] @ ''  /  '']),
      ([''    /'' @ utf8 [0x5C] @ ''_/'' @ utf8 [0x5C] @ ''   '',
        ''   ('' @ utf8 [0x2665, 0x3C9, 0x2665] @ '')    '',
        ''  /  '' @ utf8 [0x6843, 0x82B1] @ ''  '' @ utf8 [0x5C] @ '' '',
        '' (  '' @ utf8 [0x604B, 0x7231, 0x55B5] @ ''  ) ''],
       [''    /'' @ utf8 [0x5C] @ ''_/'' @ utf8 [0x5C] @ ''   '',
        ''   ('' @ utf8 [0x2665, 0x203F, 0x2665] @ '')    '',
        ''  /  '' @ utf8 [0x6843, 0x82B1] @ ''  '' @ utf8 [0x5C] @ '' '',
        '' (  '' @ utf8 [0x604B, 0x7231, 0x55B5] @ ''  ) '']),
      ([''     /'' @ utf8 [0x5C] @ ''_/'' @ utf8 [0x5C] @ ''   '',
        ''    ('' @ utf8 [0x2D8, 0x3C9, 0x2D8] @ '')'' @ utf8 [0x2661] @ ''   '',
        ''   '' @ utf8 [0x256D, 0x2500, 0x252C, 0x2500, 0x252C, 0x2500, 0x252C, 0x2500, 0x256E] @ '' '',
        ''   '' @ utf8 [0x2502] @ '' '' @ utf8 [0x751C, 0x5FC3, 0x55B5] @ '' '' @ utf8 [0x2502] @ '' '',
        ''   '' @ utf8 [0x2570, 0x2500, 0x2534, 0x2500, 0x2534, 0x2500, 0x2534, 0x2500, 0x256F] @ '' ''],
       [''     /'' @ utf8 [0x5C] @ ''_/'' @ utf8 [0x5C] @ ''   '',
        ''    ('' @ utf8 [0x2D8, 0x203F, 0x2D8] @ '')'' @ utf8 [0x2661] @ ''   '',
        ''   '' @ utf8 [0x256D, 0x2500, 0x252C, 0x2500, 0x252C, 0x2500, 0x252C, 0x2500, 0x256E] @ '' '',
        ''   '' @ utf8 [0x2502] @ '' '' @ utf8 [0x751C, 0x5FC3, 0x55B5] @ '' '' @ utf8 [0x2502] @ '' '',
        ''   '' @ utf8 [0x2570, 0x2500, 0x2534, 0x2500, 0x2534, 0x2500, 0x2534, 0x2500, 0x256F] @ '' ''])]"

definition get_morning_cats :: "cat_shape list" where
  "get_morning_cats =
     [([''     /'' @ utf8 [0x5C] @ ''_/'' @ utf8 [0x5C] @ ''  '',
        ''    ('' @ utf8 [0x2267, 0x3C9, 0x2266] @ '')    '',
        ''   /  ^_^  '' @ utf8 [0x5C] @ '' '', ''  ( '' @ utf8 [0x9633, 0x5149, 0x55B5] @ ''  ) ''],
       [''     /'' @ utf8 [0x5C] @ ''_/'' @ utf8 [0x5C] @ ''  '',
        ''    ('' @ utf8 [0x2267, 0x203F, 0x2266] @ '')    '',
        ''   /  ^_^  '' @ utf8 [0x5C] @ '' '', ''  ( '' @ utf8 [0x9633, 0x5149, 0x55B5] @ ''  ) '']),
      ([''     /'' @ utf8 [0x5C] @ ''_/'' @ utf8 [0x5C] @ ''  '',
        ''    ('' @ utf8 [0x2267, 0x25E1, 0x2266] @ '')    '',
        ''   /  ~~~  '' @ utf8 [0x5C] @ '' '', ''  ( '' @ utf8 [0x65E9, 0x8D77, 0x55B5] @ ''~ ) '',
        ''   '' @ utf8 [0x5C] @ ''  '' @ utf8 [0x25E1] @ ''  /  ''],
       [''     /'' @ utf8 [0x5C] @ ''_/'' @ utf8 [0x5C] @ ''  '',
        ''    ('' @ utf8 [0x2267, 0x203F, 0x2266] @ '')    '',
        ''   /  ~~~  '' @ utf8 [0x5C] @ '' '', ''  ( '' @ utf8 [0x65E9, 0x8D77, 0x55B5] @ ''~ ) '',
        ''   '' @ utf8 [0x5C] @ ''  '' @ utf8 [0x25E1] @ ''  /  '']),
      ([''  '' @ utf8 [0x256D, 0x2500, 0x2500, 0x2500, 0x2500, 0x2500, 0x2500, 0x256E] @ ''  '',
        ''  '' @ utf8 [0x2502] @ '' '' @ utf8 [0x5357] @ ''  '' @ utf8 [0x5317] @ '' '' @ utf8 [0x2502] @ ''  '',
        ''  '' @ utf8 [0x2502] @ '' '' @ utf8 [0x7EFF, 0x8C46, 0x55B5] @ '' '' @ utf8 [0x2502] @ ''  '',
        ''  '' @ utf8 [0x2570, 0x2500, 0x2500, 0x252C, 0x252C, 0x2500, 0x2500, 0x256F] @ ''  '',
        ''   ('' @ utf8 [0x30FB, 0x3C9, 0x30FB] @ '')   ''],
       [''  '' @ utf8 [0x256D, 0x2500, 0x2500, 0x2500, 0x2500, 0x2500, 0x2500, 0x256E] @ ''  '',
        ''  '' @ utf8 [0x2502] @ '' '' @ utf8 [0x5357] @ ''  '' @ utf8 [0x5317] @ '' '' @ utf8 [0x2502] @ ''  '',
        ''  '' @ utf8 [0x2502] @ '' '' @ utf8 [0x7EFF, 0x8C46, 0x55B5] @ '' '' @ utf8 [0x2502] @ ''  '',
        ''  '' @ utf8 [0x2570, 0x2500, 0x2500, 0x252C, 0x252C, 0x2500, 0x2500, 0x256F] @ ''  '',
        ''   ('' @ utf8 [0x30FB, 0x203F, 0x30FB] @ '')   ''])]"

definition get_noon_cats :: "cat_shape list" where
  "get_noon_cats =
     [([''     /'' @ utf8 [0x5C] @ ''_/'' @ utf8 [0x5C] @ ''  '',
        ''    ('' @ utf8 [0x2D8, 0x3C9, 0x2D8] @ '')    '',
        ''   '' @ utf8 [0x256D, 0x2500, 0x252C, 0x2500, 0x252C, 0x2500, 0x252C, 0x2500, 0x256E] @ '' '',
        ''   '' @ utf8 [0x2502] @ ''  '' @ utf8 [0x55B5] @ ''  '' @ utf8 [0x2502] @ '' '',
        ''   '' @ utf8 [0x2570, 0x2500, 0x2534, 0x2500, 0x2534, 0x2500, 0x2534, 0x2500, 0x256F] @ '' ''],
       [''     /'' @ utf8 [0x5C] @ ''_/'' @ utf8 [0x5C] @ ''  '',
        ''    ('' @ utf8 [0x2D8, 0x203F, 0x2D8] @ '')    '',
        ''   '' @ utf8 [0x256D, 0x2500, 0x252C, 0x2500, 0x252C, 0x2500, 0x252C, 0x2500, 0x256E] @ '' '',
        ''   '' @ utf8 [0x2502] @ ''  '' @ utf8 [0x55B5] @ ''  '' @ utf8 [0x2502] @ '' '',
        ''   '' @ utf8 [0x2570, 0x2500, 0x2534, 0x2500, 0x2534, 0x2500, 0x2534, 0x2500, 0x256F] @ '' '']),
      ([''     /'' @ utf8 [0x5C] @ ''_/'' @ utf8 [0x5C] @ ''  '',
        ''    ('' @ utf8 [0x2267, 0x25E1, 0x2266] @ '')    '',
        ''   /  ~*~  '' @ utf8 [0x5C] @ '' '', ''  (  Nya~  ) '',
        ''   '' @ utf8 [0x5C] @ ''  '' @ utf8 [0x25E1] @ ''  /  ''],
       [''     /'' @ utf8 [0x5C] @ ''_/'' @ utf8 [0x5C] @ ''  '',
        ''    ('' @ utf8 [0x2267, 0x203F, 0x2266] @ '')    '',
        ''   /  ~*~  '' @ utf8 [0x5C] @ '' '', ''  (  Nya~  ) '',
        ''   '' @ utf8 [0x5C] @ ''  '' @ utf8 [0x25E1] @ ''  /  '']),
      ([''    /'' @ utf8 [0x5C] @ ''_/'' @ utf8 [0x5C] @ ''   '',
        ''   ('' @ utf8 [0x2605, 0x3C9, 0x2605] @ '')    '',
        ''  '' @ utf8 [0x256D, 0x2500, 0x256E] @ '' '' @ utf8 [0x256D, 0x2500, 0x256E] @ ''  '',
        ''  '' @ utf8 [0x2502] @ ''*'' @ utf8 [0x2502] @ '' '' @ utf8 [0x2502] @ ''*'' @ utf8 [0x2502] @ ''  '',
        ''  '' @ utf8 [0x2570, 0x2500, 0x256F] @ '' '' @ utf8 [0x2570, 0x2500, 0x256F] @ ''  ''],
       [''    /'' @ utf8 [0x5C] @ ''_/'' @ utf8 [0x5C] @ ''   '',
        ''   ('' @ utf8 [0x2605, 0x203F, 0x2605] @ '')    '',
        ''  '' @ utf8 [0x256D, 0x2500, 0x256E] @ '' '' @ utf8 [0x256D, 0x2500, 0x256E] @ ''  '',
        ''  '' @ utf8 [0x2502] @ ''*'' @ utf8 [0x2502] @ '' '' @ utf8 [0x2502] @ ''*'' @ utf8 [0x2502] @ ''  '',
        ''  '' @ utf8 [0x2570, 0x2500, 0x256F] @ '' '' @ utf8 [0x2570, 0x2500, 0x256F] @ ''  ''])]"

definition get_night_cats :: "cat_shape list" where
  "get_night_cats =
     [([''   '' @ utf8 [0x256D, 0x2500, 0x2500, 0x2500, 0x2500, 0x2500, 0x2500, 0x2500, 0x256E] @ ''  '',
        ''   '' @ utf8 [0x2502] @ ''>code_ '' @ utf8 [0x2502] @ ''  '',
        ''   '' @ utf8 [0x2502] @ '' '' @ utf8 [0x2588, 0x2588, 0x2588, 0x2588] @ ''  '' @ utf8 [0x2502] @ ''  '',
        ''   '' @ utf8 [0x2502] @ '' '' @ utf8 [0x2588, 0x2588, 0x2588, 0x2588] @ ''  '' @ utf8 [0x2502] @ ''  '',
        ''   '' @ utf8 [0x2570, 0x2500, 0x2500, 0x2500, 0x2500, 0x2500, 0x2500, 0x2500, 0x256F] @ ''  '',
        ''   ('' @ utf8 [0x25C9, 0x3C9, 0x25C9] @ '')     '', ''   /|  |'' @ utf8 [0x5C] @ ''    ''],
       [''   '' @ utf8 [0x256D, 0x2500, 0x2500, 0x2500, 0x2500, 0x2500, 0x2500, 0x2500, 0x256E] @ ''  '',
        ''   '' @ utf8 [0x2502] @ ''>code_ '' @ utf8 [0x2502] @ ''  '',
        ''   '' @ utf8 [0x2502] @ '' '' @ utf8 [0x2588, 0x2588, 0x2588, 0x2588] @ ''  '' @ utf8 [0x2502] @ ''  '',
        ''   '' @ utf8 [0x2502] @ '' '' @ utf8 [0x2588, 0x2588, 0x2588, 0x2588] @ ''  '' @ utf8 [0x2502] @ ''  '',
        ''   '' @ utf8 [0x2570, 0x2500, 0x2500, 0x2500, 0x2500, 0x2500, 0x2500, 0x2500, 0x256F] @ ''  '',
        ''   ('' @ utf8 [0x25C9, 0x203F, 0x25C9] @ '')     '', ''   /|  |'' @ utf8 [0x5C] @ ''    '']),
      ([''    /'' @ utf8 [0x5C] @ ''_/'' @ utf8 [0x5C] @ ''   '',
        ''   ('' @ utf8 [0x2605, 0x3C9, 0x2605] @ '')    '',
        ''  '' @ utf8 [0x256D, 0x2500, 0x2500, 0x2500, 0x2500, 0x2500, 0x2500, 0x256E] @ ''  '',
        ''  '' @ utf8 [0x2502] @ '' '' @ utf8 [0x661F, 0x591C, 0x55B5] @ '' '' @ utf8 [0x2502] @ ''  '',
        ''  '' @ utf8 [0x2570, 0x2500, 0x2500, 0x2500, 0x2500, 0x2500, 0x2500, 0x256F] @ ''  ''],
       [''    /'' @ utf8 [0x5C] @ ''_/'' @ utf8 [0x5C] @ ''   '',
        ''   ('' @ utf8 [0x2605, 0x203F, 0x2605] @ '')    '',
        ''  '' @ utf8 [0x256D, 0x2500, 0x2500, 0x2500, 0x2500, 0x2500, 0x2500, 0x256E] @ ''  '',
        ''  '' @ utf8 [0x2502] @ '' '' @ utf8 [0x661F, 0x591C, 0x55B5] @ '' '' @ utf8 [0x2502] @ ''  '',
        ''  '' @ utf8 [0x2570, 0x2500, 0x2500, 0x2500, 0x2500, 0x2500, 0x2500, 0x256F] @ ''  '']),
      ([''    /'' @ utf8 [0x5C] @ ''_/'' @ utf8 [0x5C] @ ''   '',
        ''   (-'' @ utf8 [0x3C9] @ ''-)    '', ''  /  z Z  '' @ utf8 [0x5C] @ '' '',
        '' ( '' @ utf8 [0x56F0, 0x56F0, 0x55B5] @ ''  ) ''],
       [''    /'' @ utf8 [0x5C] @ ''_/'' @ utf8 [0x5C] @ ''   '',
        ''   (-'' @ utf8 [0x203F] @ ''-)    '', ''  /  z Z  '' @ utf8 [0x5C] @ '' '',
        '' ( '' @ utf8 [0x56F0, 0x56F0, 0x55B5] @ ''  ) ''])]"

definition get_common_cats :: "cat_shape list" where
  "get_common_cats =
     [([''     /'' @ utf8 [0x5C] @ ''_/'' @ utf8 [0x5C] @ ''  '',
        ''    (=^'' @ utf8 [0xFF65, 0x3C9, 0xFF65] @ ''^=) '',
        ''  /       '' @ utf8 [0x5C] @ '' '', '' (  '' @ utf8 [0x55B5, 0x55B5] @ ''  ) ''],
       [''     /'' @ utf8 [0x5C] @ ''_/'' @ utf8 [0x5C] @ ''  '',
        ''    (=^'' @ utf8 [0xFF65, 0x203F, 0xFF65] @ ''^=) '',
        ''  /       '' @ utf8 [0x5C] @ '' '', '' (  '' @ utf8 [0x55B5, 0x55B5] @ ''  ) '']),
      ([''    '' @ utf8 [0x2229, 0x2229] @ ''    '',
        ''   ('' @ utf8 [0x30FB, 0x3C9, 0x30FB] @ '')   '',
        ''   '' @ utf8 [0x2282, 0x5F61, 0x2606] @ ''))'' @ utf8 [0x434, 0xB4] @ '') ''],
       [''    '' @ utf8 [0x2229, 0x2229] @ ''    '',
        ''   ('' @ utf8 [0x30FB, 0x203F, 0x30FB] @ '')   '',
        ''   '' @ utf8 [0x2282, 0x5F61, 0x2606] @ ''))'' @ utf8 [0x434, 0xB4] @ '') ''])]"

definition cats_of_theme :: "theme_colors \<Rightarrow> cat_shape list" where
  "cats_of_theme theme =
     (if th_primary theme = th_primary pink_theme then get_pink_cats
      else if th_primary theme = th_primary morning_theme then get_morning_cats
      else if th_primary theme = th_primary noon_theme then get_noon_cats
      else if th_primary theme = th_primary night_theme then get_night_cats
      else get_common_cats)"

definition get_cat_with_blink :: "theme_colors \<Rightarrow> bool \<Rightarrow> nat \<Rightarrow> cat_shape" where
  "get_cat_with_blink theme themed k =
     (let cats = (if themed then cats_of_theme theme else get_common_cats) in cats ! (k mod length cats))"

section \<open>The banner with a cat\<close>

definition show_banner :: "bool \<Rightarrow> nat \<Rightarrow> bool \<Rightarrow> nat \<Rightarrow> string \<Rightarrow> term_op list" where
  "show_banner supports_color hour themed k theme_name =
     print_banner_with_theme supports_color hour
       (get_cat_with_blink (theme_from_config hour theme_name) themed k) theme_name"

definition print_banner :: "bool \<Rightarrow> nat \<Rightarrow> bool \<Rightarrow> nat \<Rightarrow> term_op list" where
  "print_banner supports_color hour themed k = show_banner supports_color hour themed k ''pink''"

section \<open>Single lines\<close>

definition goodbye_faces :: "string list" where
  "goodbye_faces = [''(=^'' @ utf8 [0xFF65, 0x3C9, 0xFF65] @ ''^=)'' @ utf8 [0x30CE], ''(=^'' @ utf8 [0xFF65, 0xFF6A, 0xFF65] @ ''^=) zzZ'', utf8 [0xE05] @ ''^'' @ utf8 [0x2022, 0xFECC, 0x2022] @ ''^'' @ utf8 [0xE05]]"

definition print_goodbye_with_theme :: "bool \<Rightarrow> nat \<Rightarrow> nat \<Rightarrow> string \<Rightarrow> term_op list" where
  "print_goodbye_with_theme supports_color hour k theme_name =
     (if \<not> supports_color then []
      else
        let theme = theme_from_config hour theme_name; div_line = Println (''  '' @ divider theme 52)
        in [Println [], div_line,
            Println (''  '' @ th_primary theme @ goodbye_faces ! (k mod length goodbye_faces) @ RESET @ '' '' @ DIM
              @ utf8 [0x4E0B, 0x6B21, 0x89C1, 0x55B5] @ ''~'' @ RESET),
            div_line, Println []])"

definition print_goodbye :: "bool \<Rightarrow> nat \<Rightarrow> nat \<Rightarrow> term_op list" where
  "print_goodbye supports_color hour k = print_goodbye_with_theme supports_color hour k ''pink''"

definition print_status_with_theme :: "bool \<Rightarrow> nat \<Rightarrow> string \<Rightarrow> string \<Rightarrow> term_op list" where
  "print_status_with_theme supports_color hour status theme_name =
     (if \<not> supports_color then [Println (''  > '' @ status)]
      else [Println (''  '' @ th_primary (theme_from_config hour theme_name) @ ''>'' @ RESET @ '' '' @ status)])"

definition print_status :: "bool \<Rightarrow> nat \<Rightarrow> string \<Rightarrow> term_op list" where
  "print_status supports_color hour status = print_status_with_theme supports_color hour status ''pink''"

definition print_success :: "bool \<Rightarrow> string \<Rightarrow> term_op list" where
  "print_success supports_color msg =
     (if \<not> supports_color then [Println (''  [+] '' @ msg)]
      else [Println (''  '' @ GREEN @ ''[+]'' @ RESET @ '' '' @ msg)])"

definition print_warning :: "bool \<Rightarrow> string \<Rightarrow> term_op list" where
  "print_warning supports_color msg =
     (if \<not> supports_color then [Println (''  [!] '' @ msg)]
      else [Println (''  '' @ YELLOW @ ''[!]'' @ RESET @ '' '' @ msg)])"

definition print_error :: "bool \<Rightarrow> string \<Rightarrow> term_op list" where
  "print_error supports_color msg =
     (if \<not> supports_color then [Println (''  [-] '' @ msg)]
      else [Println (''  '' @ RED @ ''[-]'' @ RESET @ '' '' @ msg)])"

definition print_info_with_theme :: "bool \<Rightarrow> nat \<Rightarrow> string \<Rightarrow> string \<Rightarrow> term_op list" where
  "print_info_with_theme supports_color hour msg theme_name =
     (if \<not> supports_color then [Println (''  [*] '' @ msg)]
      else [Println (''  '' @ th_primary (theme_from_config hour theme_name) @ ''[*]'' @ RESET @ '' '' @ msg)])"

definition print_info :: "bool \<Rightarrow> nat \<Rightarrow> string \<Rightarrow> term_op list" where
  "print_info supports_color hour msg = print_info_with_theme supports_color hour msg ''pink''"

section \<open>The guide to SSH\<close>

definition ssh_guide :: "string list" where
  "ssh_guide =
     [[],
      utf8 [0x2554] @ concat (replicate 66 (utf8 [0x2550])) @ utf8 [0x2557],
      utf8 [0x2551] @ ''         SSH over 443 '' @ utf8 [0x2014] @ '' GitHub Access Guide                      '' @ utf8 [0x2551],
      utf8 [0x2560] @ concat (replicate 66 (utf8 [0x2550])) @ utf8 [0x2563],
      utf8 [0x2551] @ replicate 66 (CHR '' '') @ utf8 [0x2551],
      utf8 [0x2551] @ ''  GitHub supports SSH connections on port 443, which may          '' @ utf8 [0x2551],
      utf8 [0x2551] @ ''  bypass some network restrictions.                               '' @ utf8 [0x2551],
      utf8 [0x2551] @ replicate 66 (CHR '' '') @ utf8 [0x2551],
      utf8 [0x2551] @ ''  Setup steps:                                                    '' @ utf8 [0x2551],
      utf8 [0x2551] @ replicate 66 (CHR '' '') @ utf8 [0x2551],
      utf8 [0x2551] @ ''  1. Edit your SSH config (~/.ssh/config):                        '' @ utf8 [0x2551],
      utf8 [0x2551] @ replicate 66 (CHR '' '') @ utf8 [0x2551],
      utf8 [0x2551] @ ''     Host github.com                                              '' @ utf8 [0x2551],
      utf8 [0x2551] @ ''         Hostname ssh.github.com                                  '' @ utf8 [0x2551],
      utf8 [0x2551] @ ''         Port 443                                                  '' @ utf8 [0x2551],
      utf8 [0x2551] @ ''         User git                                                  '' @ utf8 [0x2551],
      utf8 [0x2551] @ ''         IdentityFile ~/.ssh/id_ed25519                           '' @ utf8 [0x2551],
      utf8 [0x2551] @ replicate 66 (CHR '' '') @ utf8 [0x2551],
      utf8 [0x2551] @ ''  2. Test the connection:                                         '' @ utf8 [0x2551],
      utf8 [0x2551] @ replicate 66 (CHR '' '') @ utf8 [0x2551],
      utf8 [0x2551] @ ''     $ ssh -T git@github.com                                      '' @ utf8 [0x2551],
      utf8 [0x2551] @ ''     Hi username! You'' @ utf8 [0x27] @ ''ve successfully authenticated...            '' @ utf8 [0x2551],
      utf8 [0x2551] @ replicate 66 (CHR '' '') @ utf8 [0x2551],
      utf8 [0x2551] @ ''  3. Use SSH URLs for git operations:                             '' @ utf8 [0x2551],
      utf8 [0x2551] @ replicate 66 (CHR '' '') @ utf8 [0x2551],
      utf8 [0x2551] @ ''     $ git clone git@github.com:user/repo.git                     '' @ utf8 [0x2551],
      utf8 [0x2551] @ replicate 66 (CHR '' '') @ utf8 [0x2551],
      utf8 [0x2551] @ ''  Note: This bypasses HTTPS proxy entirely and uses SSH           '' @ utf8 [0x2551],
      utf8 [0x2551] @ ''  directly on port 443.                                           '' @ utf8 [0x2551],
      utf8 [0x2551] @ replicate 66 (CHR '' '') @ utf8 [0x2551],
      utf8 [0x255A] @ concat (replicate 66 (utf8 [0x2550])) @ utf8 [0x255D],
      []]"

text \<open>\<open>println!\<close> of the text: its lines, the last one empty.\<close>

definition print_ssh_guide :: "term_op list" where
  "print_ssh_guide = map Println ssh_guide"

section \<open>Every theme has its cats\<close>

definition good_cats :: "cat_shape list \<Rightarrow> bool" where
  "good_cats cats \<longleftrightarrow> cats \<noteq> [] \<and> list_all (\<lambda>(cat, blink). cat \<noteq> [] \<and> length blink = length cat) cats"

lemma cats_good:
  "good_cats get_pink_cats" "good_cats get_morning_cats" "good_cats get_noon_cats" "good_cats get_night_cats"
  "good_cats get_common_cats"
  by (simp_all add: good_cats_def get_pink_cats_def get_morning_cats_def get_noon_cats_def get_night_cats_def
      get_common_cats_def)

lemma cats_of_theme_good: "good_cats (cats_of_theme theme)"
  by (simp add: cats_of_theme_def cats_good)

text \<open>
  The choice of a cat never fails, a cat and its blinking variant are equally high, and a theme of the
  configuration shows one of its own cats or one of the common ones; the last branch of the choice, a
  theme that is none of the four, is never taken.
\<close>

theorem cat_choice:
  "(let (cat, blink) = get_cat_with_blink theme themed k
    in cat \<noteq> [] \<and> length blink = length cat)
   \<and> cats_of_theme (theme_from_config hour name)
       \<in> {get_pink_cats, get_morning_cats, get_noon_cats, get_night_cats}"
proof
  let ?cats = "if themed then cats_of_theme theme else get_common_cats"
  have good: "good_cats ?cats" by (simp add: cats_of_theme_good cats_good)
  then have "?cats ! (k mod length ?cats) \<in> set ?cats" by (intro nth_mem) (simp add: good_cats_def)
  then show "let (cat, blink) = get_cat_with_blink theme themed k in cat \<noteq> [] \<and> length blink = length cat"
    using good unfolding get_cat_with_blink_def good_cats_def Let_def by (auto simp: list_all_iff)
  show "cats_of_theme (theme_from_config hour name) \<in> {get_pink_cats, get_morning_cats, get_noon_cats, get_night_cats}"
    by (auto simp: cats_of_theme_def theme_from_config_def split: time_theme.split)
qed

end
