(* ===== verification/Key_Pairs.thy ===== *)
theory Key_Pairs
  imports Cert_Cache
begin

text \<open>
  How a certificate and its key become what rustls is given (\<open>CertKeyPair\<close> of \<open>src/mitm/ca.rs\<close>), with the
  cell that keeps the result, and the server side of \<open>src/mitm/tls_terminator.rs\<close> over it. PEM, the
  signing keys of ring and the handshake are parameters.
\<close>

section \<open>A pair with its cell\<close>

datatype pem_error = BadCertificate | BadKey | NoKey | UnsupportedKey

text \<open>
  \<open>pm_certs\<close> is the iterator of \<open>rustls_pemfile::certs\<close> with its items in order, \<open>pm_key\<close> is \<open>private_key\<close>:
  \<open>None\<close> for text without a key. \<open>pm_signing\<close> is \<open>any_supported_type\<close>.
\<close>

record ('d, 's) pem_ops =
  pm_certs :: "string \<Rightarrow> (unit, 'd) outcome list"
  pm_key :: "string \<Rightarrow> (unit, 'd option) outcome"
  pm_signing :: "'d \<Rightarrow> 's option"

record ('d, 's) rustls_key =
  ck_cert :: "'d list"
  ck_key :: 's

record ('d, 's) cert_key_pair =
  kp_pair :: cert_pair
  kp_cached :: "('d, 's) rustls_key option"

definition cert_key_pair_new :: "string \<Rightarrow> string \<Rightarrow> string \<Rightarrow> ('d, 's) cert_key_pair" where
  "cert_key_pair_new cert_pem key_pem domain =
     \<lparr>kp_pair = \<lparr>cp_cert_pem = cert_pem, cp_key_pem = key_pem, cp_domain = domain\<rparr>, kp_cached = None\<rparr>"

text \<open>The loop that pushes the certificates and stops at the first that is damaged.\<close>

fun push_certs :: "(unit, 'd) outcome list \<Rightarrow> 'd list \<Rightarrow> (pem_error, 'd list) outcome" where
  "push_certs [] certs = Ok certs"
| "push_certs (Ok cert # rest) certs = push_certs rest (certs @ [cert])"
| "push_certs (Err e # rest) certs = Err BadCertificate"
| "push_certs (Panic # rest) certs = Panic"

definition key_der :: "('d, 's) pem_ops \<Rightarrow> ('d, 's) cert_key_pair \<Rightarrow> (pem_error, 'd) outcome" where
  "key_der pem pair =
     (case pm_key pem (cp_key_pem (kp_pair pair)) of
        Ok (Some key) \<Rightarrow> Ok key
      | Ok None \<Rightarrow> Err NoKey
      | Err e \<Rightarrow> Err BadKey
      | Panic \<Rightarrow> Panic)"

definition build_certified_key ::
    "('d, 's) pem_ops \<Rightarrow> ('d, 's) cert_key_pair \<Rightarrow> (pem_error, ('d, 's) rustls_key) outcome" where
  "build_certified_key pem pair =
     (case push_certs (pm_certs pem (cp_cert_pem (kp_pair pair))) [] of
        Ok certs \<Rightarrow>
          (case key_der pem pair of
             Ok key \<Rightarrow>
               (case pm_signing pem key of
                  Some signing_key \<Rightarrow> Ok \<lparr>ck_cert = certs, ck_key = signing_key\<rparr>
                | None \<Rightarrow> Err UnsupportedKey)
           | Err e \<Rightarrow> Err e
           | Panic \<Rightarrow> Panic)
      | Err e \<Rightarrow> Err e
      | Panic \<Rightarrow> Panic)"

text \<open>The cell is filled by the first success; a failure leaves it empty and the next call tries again.\<close>

definition certified_key ::
    "('d, 's) pem_ops \<Rightarrow> ('d, 's) cert_key_pair
     \<Rightarrow> (pem_error, ('d, 's) rustls_key) outcome \<times> ('d, 's) cert_key_pair" where
  "certified_key pem pair =
     (case kp_cached pair of
        Some key \<Rightarrow> (Ok key, pair)
      | None \<Rightarrow>
          (case build_certified_key pem pair of
             Ok key \<Rightarrow> (Ok key, pair\<lparr>kp_cached := Some key\<rparr>)
           | Err e \<Rightarrow> (Err e, pair)
           | Panic \<Rightarrow> (Panic, pair)))"

definition cert_der ::
    "('d, 's) pem_ops \<Rightarrow> ('d, 's) cert_key_pair \<Rightarrow> (pem_error, 'd list) outcome \<times> ('d, 's) cert_key_pair" where
  "cert_der pem pair =
     (case certified_key pem pair of
        (Ok key, pair') \<Rightarrow> (Ok (ck_cert key), pair')
      | (Err e, pair') \<Rightarrow> (Err e, pair')
      | (Panic, pair') \<Rightarrow> (Panic, pair'))"

section \<open>The authority's own certificate\<close>

definition export_ca_cert_pem :: "'k authority \<Rightarrow> string" where
  "export_ca_cert_pem ca = au_cert ca"

section \<open>The server side\<close>

text \<open>
  What \<open>resolve\<close> gives to rustls for the name of a hello. The cache hands out shared pairs, so the cell of
  one may have been filled by an earlier handshake: \<open>cell\<close> says what it has.
\<close>

definition hello_key ::
    "(string, 'l) lru_ops \<Rightarrow> (cert_params \<Rightarrow> (string \<times> string) option) \<Rightarrow> ('d, 's) pem_ops \<Rightarrow> cert_env
     \<Rightarrow> (cert_pair \<Rightarrow> ('d, 's) rustls_key option) \<Rightarrow> string option \<Rightarrow> 'l cert_cache
     \<Rightarrow> ('d, 's) rustls_key option" where
  "hello_key ops sign pem env cell server_name c =
     (case server_name of
        None \<Rightarrow> None
      | Some domain \<Rightarrow>
          (case fst (get_or_generate ops sign env domain c) of
             Ok p \<Rightarrow> (case fst (certified_key pem \<lparr>kp_pair = p, kp_cached = cell p\<rparr>) of
                       Ok key \<Rightarrow> Some key
                     | _ \<Rightarrow> None)
           | _ \<Rightarrow> None))"

text \<open>The server's configuration asks no client for a certificate and has no other source of its own.\<close>

record ('d, 's) server_config =
  vc_client_auth :: bool
  vc_resolver :: "cert_env \<Rightarrow> (cert_pair \<Rightarrow> ('d, 's) rustls_key option) \<Rightarrow> string option \<Rightarrow> ('d, 's) rustls_key option"

definition tls_terminator_new ::
    "(string, 'l) lru_ops \<Rightarrow> (cert_params \<Rightarrow> (string \<times> string) option) \<Rightarrow> ('d, 's) pem_ops \<Rightarrow> 'l cert_cache
     \<Rightarrow> ('d, 's) server_config" where
  "tls_terminator_new ops sign pem cert_cache =
     \<lparr>vc_client_auth = False, vc_resolver = (\<lambda>env cell server_name. hello_key ops sign pem env cell server_name cert_cache)\<rparr>"

section \<open>The cell is coherent\<close>

text \<open>A pair whose cell has nothing but what its text gives; the three calls keep it and the text.\<close>

definition cell_coherent :: "('d, 's) pem_ops \<Rightarrow> ('d, 's) cert_key_pair \<Rightarrow> bool" where
  "cell_coherent pem pair \<longleftrightarrow>
     (case kp_cached pair of None \<Rightarrow> True | Some key \<Rightarrow> build_certified_key pem pair = Ok key)"

lemma key_ignores_cell: "key_der pem (pair\<lparr>kp_cached := x\<rparr>) = key_der pem pair"
  by (simp add: key_der_def)

lemma build_ignores_cell [simp]:
  "build_certified_key pem (pair\<lparr>kp_cached := x\<rparr>) = build_certified_key pem pair"
  unfolding build_certified_key_def key_ignores_cell by simp

lemma certified_key_coherent:
  assumes "cell_coherent pem pair"
  shows "fst (certified_key pem pair) = build_certified_key pem pair"
    and "cell_coherent pem (snd (certified_key pem pair))"
    and "build_certified_key pem (snd (certified_key pem pair)) = build_certified_key pem pair"
  using assms by (auto simp: certified_key_def cell_coherent_def split: option.splits outcome.splits)

lemma new_pair_coherent: "cell_coherent pem (cert_key_pair_new c k d)"
  by (simp add: cell_coherent_def cert_key_pair_new_def)

theorem certified_key_always_same:
  "fst (certified_key pem (((\<lambda>p. snd (certified_key pem p)) ^^ n) (cert_key_pair_new c k d)))
     = build_certified_key pem (cert_key_pair_new c k d)"
proof -
  let ?p = "((\<lambda>p. snd (certified_key pem p)) ^^ n) (cert_key_pair_new c k d)"
  have "cell_coherent pem ?p \<and> build_certified_key pem ?p = build_certified_key pem (cert_key_pair_new c k d)"
    by (induction n) (simp_all add: new_pair_coherent certified_key_coherent)
  then show ?thesis by (simp add: certified_key_coherent(1))
qed

text \<open>
  What rustls gets for a hello is a key exactly where \<open>resolve_cert\<close> of \<open>Cert_Cache\<close> chooses a pair, with
  \<open>usable\<close> the success of \<open>certified_key\<close>; so the theorems there are about the keys that are used.
\<close>

theorem hello_key_is_resolve_cert:
  assumes "\<And>p. cell_coherent pem \<lparr>kp_pair = p, kp_cached = cell p\<rparr>"
    and "parsed = (\<lambda>p. build_certified_key pem \<lparr>kp_pair = p, kp_cached = cell p\<rparr>)"
  shows "hello_key ops sign pem env cell server_name c = Some key
     \<longleftrightarrow> (\<exists>p. fst (resolve_cert ops sign (\<lambda>p. is_ok (parsed p)) env server_name c) = Ok p \<and> parsed p = Ok key)"
proof (cases server_name)
  case None
  then show ?thesis by (simp add: hello_key_def resolve_cert_def)
next
  case (Some domain)
  obtain r c1 where r: "get_or_generate ops sign env domain c = (r, c1)" by (cases "get_or_generate ops sign env domain c")
  show ?thesis
    by (cases r) (auto simp: assms Some r hello_key_def resolve_cert_def certified_key_coherent(1)
        split: outcome.splits if_splits)
qed

text \<open>Text without any certificate is not an error: the key comes with an empty chain.\<close>

theorem no_certificate_is_no_error:
  assumes "pm_certs pem cert_pem = []" and "pm_key pem key_pem = Ok (Some key)" and "pm_signing pem key = Some s"
  shows "fst (certified_key pem (cert_key_pair_new cert_pem key_pem domain)) = Ok \<lparr>ck_cert = [], ck_key = s\<rparr>"
  using assms unfolding certified_key_coherent(1) [OF new_pair_coherent]
  by (simp add: build_certified_key_def key_der_def cert_key_pair_new_def)

end
