(* ===== verification/Process_Queries.thy ===== *)
theory Process_Queries
  imports Single_Instance
begin

text \<open>
  The rest of \<open>src/utils/process.rs\<close>: the single instance on Windows, which is a named mutex with the
  PID file beside it, and what is asked of the operating system about a process. \<open>CreateMutexA\<close>,
  \<open>OpenProcess\<close>, \<open>GetProcessTimes\<close>, \<open>kill\<close> and \<open>/proc\<close> are parameters with their documented behaviour: a
  named mutex exists as long as a process has a handle to it, and \<open>CreateMutexA\<close> on an existing one
  gives a handle and the error 183.
\<close>

section \<open>Questions to the operating system\<close>

text \<open>\<open>kill pid 0\<close> with the number as a signed one; 0 means that the signal could be sent.\<close>

definition is_process_alive :: "(int \<Rightarrow> int \<Rightarrow> int) \<Rightarrow> nat \<Rightarrow> bool" where
  "is_process_alive kill pid \<longleftrightarrow> kill (sint (of_nat pid :: 32 word)) 0 = 0"

definition win_is_process_alive :: "(nat \<Rightarrow> bool) \<Rightarrow> nat \<Rightarrow> bool" where
  "win_is_process_alive opens pid \<longleftrightarrow> opens pid"

text \<open>The start time of a process: the 22nd field of its \<open>stat\<close> file.\<close>

definition get_process_start_time :: "(string \<Rightarrow> string option) \<Rightarrow> nat \<Rightarrow> string option" where
  "get_process_start_time files pid =
     (case files (''/proc/'' @ show_nat pid @ ''/stat'') of
        None \<Rightarrow> None
      | Some stat \<Rightarrow>
          let fields = split_whitespace stat
          in if 21 < length fields then Some (fields ! 21) else None)"

text \<open>The low and the high half of the creation time that \<open>GetProcessTimes\<close> gives.\<close>

definition win_get_process_start_time :: "(nat \<Rightarrow> bool) \<Rightarrow> (nat \<Rightarrow> (32 word \<times> 32 word) option) \<Rightarrow> nat \<Rightarrow> string option" where
  "win_get_process_start_time opens creation pid =
     (if \<not> opens pid then None
      else
        (case creation pid of
           None \<Rightarrow> None
         | Some (low, high) \<Rightarrow> Some (show_nat (unat (or (push_bit 32 (ucast high)) (ucast low) :: 64 word)))))"

section \<open>The PID file\<close>

definition pid_content :: "nat \<Rightarrow> string option \<Rightarrow> string" where
  "pid_content pid start_time = show_nat pid @ LF # (case start_time of None \<Rightarrow> [] | Some s \<Rightarrow> s)"

lemma trim_first_line:
  assumes "\<forall>c \<in> set n. \<not> is_ws c" and "n \<noteq> []"
  shows "\<exists>y. trim (n @ LF # s) = n @ y \<and> (y = [] \<or> hd y = LF)"
proof -
  let ?rest = "LF # s"
  have "\<not> is_ws (hd (n @ ?rest))" using assms by (cases n) simp_all
  then have trim: "trim (n @ ?rest) = rev (dropWhile is_ws (rev ?rest @ rev n))"
    by (simp add: trim_def dropWhile_hd)
  show ?thesis
  proof (cases "list_all is_ws ?rest")
    case True
    then have "dropWhile is_ws (rev ?rest @ rev n) = dropWhile is_ws (rev n)"
      by (intro dropWhile_append2) (auto simp: list_all_iff)
    also have "\<dots> = rev n" using assms by (intro dropWhile_hd) (simp add: hd_rev)
    finally show ?thesis using trim by simp
  next
    case False
    then obtain x where x: "x \<in> set (rev ?rest)" "\<not> is_ws x" by (auto simp: list_all_iff)
    let ?d = "dropWhile is_ws (rev ?rest)"
    have d: "?d \<noteq> []" using x by (auto simp: dropWhile_eq_Nil_conv)
    have "dropWhile is_ws (rev ?rest @ rev n) = ?d @ rev n" using x by (rule dropWhile_append1)
    then have "trim (n @ ?rest) = n @ rev ?d" using trim by simp
    moreover have "hd (rev ?d) = LF"
      using d takeWhile_dropWhile_id [of is_ws "rev ?rest"] by (metis hd_rev last_appendR last_rev list.sel(1))
    ultimately show ?thesis by blast
  qed
qed

text \<open>What is read back is the process number, whatever the second line is.\<close>

lemma parse_pid_content:
  assumes "pid < 2 ^ 32"
  shows "parse_pid (pid_content pid start_time) = Some pid"
proof -
  obtain y where y: "trim (pid_content pid start_time) = show_nat pid @ y" "y = [] \<or> hd y = LF"
    using trim_first_line [OF show_nat_no_ws show_nat_not_Nil] unfolding pid_content_def by blast
  have no_LF: "\<forall>c \<in> set (show_nat pid). \<not> c = LF"
    using show_nat_no_ws [of pid] by (auto simp: is_ws_def)
  have "hd (split_on LF (show_nat pid @ y)) = show_nat pid"
    using y(2) no_LF by (cases y) (simp_all add: split_by_none split_by_append_sep)
  with y(1) assms show ?thesis by (simp add: parse_pid_def parse_show_nat)
qed

section \<open>The single instance on Windows\<close>

text \<open>The processes that have a handle to the mutex, and the PID file.\<close>

record win_instances =
  wn_holders :: "nat list"
  wn_file :: "string option"

datatype win_instance_error = WinHeldBySelf | WinHeldByOther | PidNotWritten

text \<open>\<open>creatable\<close> says if \<open>CreateMutexA\<close> gives a handle; a second handle is closed again.\<close>

definition try_create :: "bool \<Rightarrow> nat \<Rightarrow> win_instances \<Rightarrow> bool \<times> win_instances" where
  "try_create creatable pid w =
     (if \<not> creatable then (False, w)
      else if wn_holders w \<noteq> [] then (False, w)
      else (True, w\<lparr>wn_holders := pid # wn_holders w\<rparr>))"

definition write_pid_file :: "bool \<Rightarrow> nat \<Rightarrow> string option \<Rightarrow> win_instances \<Rightarrow> bool \<times> win_instances" where
  "write_pid_file writable pid start_time w =
     (if writable then (True, w\<lparr>wn_file := Some (pid_content pid start_time)\<rparr>) else (False, w))"

text \<open>The guard is dropped, and its handle closed, when the PID file cannot be written.\<close>

definition drop_mutex :: "nat \<Rightarrow> win_instances \<Rightarrow> win_instances" where
  "drop_mutex pid w = w\<lparr>wn_holders := filter (\<lambda>p. p \<noteq> pid) (wn_holders w)\<rparr>"

definition win_acquire ::
    "bool \<Rightarrow> bool \<Rightarrow> string option \<Rightarrow> nat \<Rightarrow> win_instances \<Rightarrow> (win_instance_error, unit) outcome \<times> win_instances" where
  "win_acquire creatable writable start_time pid w =
     (if pid \<in> set (wn_holders w) then (Err WinHeldBySelf, w)
      else
        (case try_create creatable pid w of
           (False, w1) \<Rightarrow> (Err WinHeldByOther, w1)
         | (True, w1) \<Rightarrow>
             (case write_pid_file writable pid start_time w1 of
                (True, w2) \<Rightarrow> (Ok (), w2)
              | (False, w2) \<Rightarrow> (Err PidNotWritten, drop_mutex pid w2))))"

definition win_release :: "nat \<Rightarrow> win_instances \<Rightarrow> win_instances" where
  "win_release pid w = (drop_mutex pid w)\<lparr>wn_file := None\<rparr>"

definition win_read_pid :: "win_instances \<Rightarrow> nat option \<times> win_instances" where
  "win_read_pid w =
     (case wn_file w of
        None \<Rightarrow> (None, w)
      | Some content \<Rightarrow>
          if \<not> valid_utf8 content then (None, w)
          else
            (case parse_pid content of
               Some pid \<Rightarrow> (Some pid, w)
             | None \<Rightarrow> (None, w\<lparr>wn_file := None\<rparr>)))"

definition win_status :: "(nat \<Rightarrow> bool) \<Rightarrow> win_instances \<Rightarrow> nat option \<times> win_instances" where
  "win_status opens w =
     (case win_read_pid w of
        (Some pid, w1) \<Rightarrow>
          if win_is_process_alive opens pid then (Some pid, w1) else (None, w1\<lparr>wn_file := None\<rparr>)
      | (None, w1) \<Rightarrow> (None, w1))"

text \<open>A process that dies has its handles closed; anything may happen to the file.\<close>

datatype win_op =
    WinStart bool bool "string option" nat | WinStop nat | WinDie nat | WinStatus | WinStopOrder
  | FileChanged "string option"

fun win_step :: "(nat \<Rightarrow> bool) \<Rightarrow> win_op \<Rightarrow> win_instances \<Rightarrow> win_instances" where
  "win_step opens (WinStart creatable writable start_time pid) w = snd (win_acquire creatable writable start_time pid w)"
| "win_step opens (WinStop pid) w = (if pid \<in> set (wn_holders w) then win_release pid w else w)"
| "win_step opens (WinDie pid) w = drop_mutex pid w"
| "win_step opens WinStatus w = snd (win_status opens w)"
| "win_step opens WinStopOrder w = snd (win_read_pid w)"
| "win_step opens (FileChanged content) w = w\<lparr>wn_file := content\<rparr>"

section \<open>Mutual exclusion\<close>

lemma win_queries_holders [simp]:
  "wn_holders (snd (win_read_pid w)) = wn_holders w" "wn_holders (snd (win_status opens w)) = wn_holders w"
  by (auto simp: win_read_pid_def win_status_def split: option.splits prod.splits)

lemma win_step_holders:
  "length (wn_holders w) \<le> 1 \<Longrightarrow> length (wn_holders (win_step opens op w)) \<le> 1"
proof (cases op)
  case (WinStart creatable writable start_time pid)
  assume "length (wn_holders w) \<le> 1"
  then show ?thesis
    by (auto simp: WinStart win_acquire_def try_create_def write_pid_file_def drop_mutex_def
        intro: le_trans [OF length_filter_le])
qed (auto simp: win_release_def drop_mutex_def intro: le_trans [OF length_filter_le])

lemma win_run_holders:
  "length (wn_holders w) \<le> 1 \<Longrightarrow> length (wn_holders (fold (win_step opens) ops w)) \<le> 1"
proof (induction ops arbitrary: w)
  case (Cons op ops)
  from Cons.IH [OF win_step_holders [OF Cons.prems]] show ?case by simp
qed simp

text \<open>
  Property C28.
  Windows has the mutual exclusion that Unix loses: whatever starts, ends, dies, asks for the status,
  orders a stop or changes the PID file, at most one process has the instance at a time; and as soon as
  nobody has it, a start gets it and writes a file from which its number is read back, whatever file
  was left behind.
\<close>

theorem windows_one_instance:
  assumes "w = fold (win_step opens) ops \<lparr>wn_holders = [], wn_file = content\<rparr>"
  shows "length (wn_holders w) \<le> 1
     \<and> (\<forall>p start_time. wn_holders w = [] \<and> p < 2 ^ 32 \<longrightarrow>
          (case win_acquire True True start_time p w of
             (r, w') \<Rightarrow> r = Ok () \<and> wn_holders w' = [p] \<and> (\<exists>file. wn_file w' = Some file \<and> parse_pid file = Some p)))"
  using win_run_holders [of "\<lparr>wn_holders = [], wn_file = content\<rparr>" opens ops]
  by (simp add: assms win_acquire_def try_create_def write_pid_file_def parse_pid_content)

theorem windows_one_instance_witness:
  "let w = fold (win_step (\<lambda>_. True)) [WinStart True True None 7, WinStart True True None 8, WinStatus, WinStart True True None 9]
             \<lparr>wn_holders = [], wn_file = Some ''x''\<rparr>
   in wn_holders w = [7] \<and> length (wn_holders w) \<le> 1"
proof -
  let ?ops = "[WinStart True True None 7, WinStart True True None 8, WinStatus, WinStart True True None 9]"
  let ?w = "fold (win_step (\<lambda>_. True)) ?ops \<lparr>wn_holders = [], wn_file = Some ''x''\<rparr>"
  have "wn_holders ?w = [7]"
    by (simp add: win_acquire_def try_create_def write_pid_file_def)
  moreover have "length (wn_holders ?w) \<le> 1" using windows_one_instance [OF refl, of "\<lambda>_. True" ?ops "Some ''x''"] by blast
  ultimately show ?thesis unfolding Let_def by blast
qed

section \<open>Stale numbers\<close>

text \<open>
  After a crash the PID file still has the number, and \<open>stop\<close> does not ask whose it is now: the
  signal goes to whatever process has got the number since.
\<close>

theorem stop_after_crash:
  assumes "pid < 2 ^ 32" and "w = fold (instance_step alive) [Start True pid, Die pid] no_instance"
  shows "\<not> holds pid w \<and> fst (stop_command w) = Ok (Some pid)"
proof -
  have "parse_pid (show_nat pid @ [LF]) = Some pid"
    using parse_pid_content [OF assms(1), of None] by (simp add: pid_content_def)
  moreover have "valid_utf8 (show_nat pid @ [LF])"
    using show_nat_ascii [of pid] by (intro valid_utf8_ascii) auto
  ultimately show ?thesis
    by (simp add: assms(2) no_instance_def acquire_single_instance_def try_lock_def create_file_def holds_def
        process_ends_def stop_command_def read_pid_file_def)
qed

theorem stop_after_crash_witness:
  "fst (stop_command (fold (instance_step (\<lambda>_. True)) [Start True 7, Die 7] no_instance)) = Ok (Some 7)"
  using stop_after_crash [of 7 _ "\<lambda>_. True", OF _ refl] by simp

text \<open>A number that is not a positive \<open>i32\<close> stands for a group of processes: -1 for all of them.\<close>

theorem alive_asks_for_groups:
  "is_process_alive kill (2 ^ 32 - 1) \<longleftrightarrow> kill (- 1) 0 = 0"
  by (simp add: is_process_alive_def)

text \<open>A space in the name of the program moves the fields: the start time is not the one that is read.\<close>

theorem start_time_moves:
  "get_process_start_time (\<lambda>_. Some (''7 (web hub) S 4 5 6 7 8 9 10 11 12 13 14 15 16 17 18 19 20 21 22 23'')) 7 = Some ''21''
   \<and> get_process_start_time (\<lambda>_. Some (''7 (webhub) S 4 5 6 7 8 9 10 11 12 13 14 15 16 17 18 19 20 21 22 23'')) 7 = Some ''22''"
  by (simp add: get_process_start_time_def Let_def split_whitespace_def is_ws_def)

end
