(* ===== verification/Tls_Settings.thy ===== *)
theory Tls_Settings
  imports Tls_Origin
begin

text \<open>
  What the two connectors are built from (\<open>TlsOrigin::new\<close> of \<open>src/mitm/tls_origin.rs\<close>, \<open>SniSpoofConnector::new\<close>
  and \<open>NoCertVerifier\<close> of \<open>src/mitm/sni_spoof.rs\<close>): the two configurations of rustls, of which one checks
  certificates against the built-in roots and the other takes any, and the time limit. What rustls
  does in a handshake is given by what it asks its verifier.
\<close>

section \<open>The verifier that takes everything\<close>

datatype verified = ServerCertVerified | HandshakeSignatureValid

datatype signature_scheme =
    RSA_PKCS1_SHA256 | RSA_PKCS1_SHA384 | RSA_PKCS1_SHA512
  | ECDSA_NISTP256_SHA256 | ECDSA_NISTP384_SHA384 | ECDSA_NISTP521_SHA512
  | RSA_PSS_SHA256 | RSA_PSS_SHA384 | RSA_PSS_SHA512

definition no_verify_server_cert :: "string \<Rightarrow> string list \<Rightarrow> string \<Rightarrow> string \<Rightarrow> nat \<Rightarrow> (unit, verified) outcome" where
  "no_verify_server_cert end_entity intermediates server_name ocsp_response now = Ok ServerCertVerified"

definition no_verify_tls12_signature :: "string \<Rightarrow> string \<Rightarrow> string \<Rightarrow> (unit, verified) outcome" where
  "no_verify_tls12_signature message cert dss = Ok HandshakeSignatureValid"

definition no_verify_tls13_signature :: "string \<Rightarrow> string \<Rightarrow> string \<Rightarrow> (unit, verified) outcome" where
  "no_verify_tls13_signature message cert dss = Ok HandshakeSignatureValid"

definition supported_verify_schemes :: "signature_scheme list" where
  "supported_verify_schemes =
     [RSA_PKCS1_SHA256, RSA_PKCS1_SHA384, RSA_PKCS1_SHA512, ECDSA_NISTP256_SHA256, ECDSA_NISTP384_SHA384,
      ECDSA_NISTP521_SHA512, RSA_PSS_SHA256, RSA_PSS_SHA384, RSA_PSS_SHA512]"

section \<open>The configurations\<close>

text \<open>
  A verifier says if it takes a server's certificate chain for a name and the signature of the
  handshake; \<open>webpki roots\<close> is that of rustls with a list of roots. A verifier of one's own needs the
  builder's \<open>dangerous()\<close>.
\<close>

record verifier =
  vf_cert :: "string \<Rightarrow> string list \<Rightarrow> string \<Rightarrow> string \<Rightarrow> nat \<Rightarrow> (unit, verified) outcome"
  vf_tls12 :: "string \<Rightarrow> string \<Rightarrow> string \<Rightarrow> (unit, verified) outcome"
  vf_tls13 :: "string \<Rightarrow> string \<Rightarrow> string \<Rightarrow> (unit, verified) outcome"

record client_config =
  tc_verifier :: verifier
  tc_dangerous :: bool
  tc_alpn :: "string list"
  tc_sessions :: "nat option"

definition no_cert_verifier :: verifier where
  "no_cert_verifier =
     \<lparr>vf_cert = no_verify_server_cert, vf_tls12 = no_verify_tls12_signature, vf_tls13 = no_verify_tls13_signature\<rparr>"

definition build_shared_tls_config :: "(string list \<Rightarrow> verifier) \<Rightarrow> string list \<Rightarrow> client_config" where
  "build_shared_tls_config webpki tls_server_roots =
     \<lparr>tc_verifier = webpki tls_server_roots, tc_dangerous = False, tc_alpn = [''http/1.1''], tc_sessions = Some 256\<rparr>"

definition build_insecure_config :: client_config where
  "build_insecure_config =
     \<lparr>tc_verifier = no_cert_verifier, tc_dangerous = True, tc_alpn = [''http/1.1''], tc_sessions = None\<rparr>"

section \<open>The connectors\<close>

record sni_spoof_connector =
  sc_insecure_config :: client_config
  sc_connect_timeout :: nat

record tls_origin =
  to_connect_timeout :: nat
  to_tls_config :: client_config
  to_sni_spoof_connector :: sni_spoof_connector

definition spoof_connector_new :: "nat \<Rightarrow> sni_spoof_connector" where
  "spoof_connector_new connect_timeout_secs =
     \<lparr>sc_insecure_config = build_insecure_config, sc_connect_timeout = secs connect_timeout_secs\<rparr>"

definition tls_origin_new :: "(string list \<Rightarrow> verifier) \<Rightarrow> string list \<Rightarrow> string \<Rightarrow> string \<Rightarrow> nat \<Rightarrow> tls_origin" where
  "tls_origin_new webpki tls_server_roots browser version connect_timeout_secs =
     \<lparr>to_connect_timeout = secs connect_timeout_secs, to_tls_config = build_shared_tls_config webpki tls_server_roots,
      to_sni_spoof_connector = spoof_connector_new connect_timeout_secs\<rparr>"

definition connect_timeout :: "tls_origin \<Rightarrow> nat" where
  "connect_timeout origin = to_connect_timeout origin div secs 1"

text \<open>A single address with a fake name, without a time limit; nothing calls this.\<close>

definition connect_to_ip :: "(string \<Rightarrow> bool) \<Rightarrow> ip_addr \<Rightarrow> string \<Rightarrow> nat \<Rightarrow> dial \<Rightarrow> connect_error + upstream" where
  "connect_to_ip valid_name ip fake_sni port d =
     (if di_tcp d \<noteq> Done then Inl TcpFailed
      else if \<not> valid_name fake_sni then Inl BadServerName
      else if di_tls d \<noteq> Done then Inl TlsFailed
      else Inr \<lparr>up_ip = ip, up_port = port, up_name = fake_sni, up_verified = \<not> tc_dangerous build_insecure_config\<rparr>)"

section \<open>What is checked\<close>

text \<open>Whether a handshake with a server that has a certificate and signs with it goes on.\<close>

definition takes_server :: "client_config \<Rightarrow> string \<Rightarrow> string list \<Rightarrow> string \<Rightarrow> string \<Rightarrow> string \<Rightarrow> nat \<Rightarrow> bool" where
  "takes_server config end_entity intermediates server_name message dss now \<longleftrightarrow>
     is_ok (vf_cert (tc_verifier config) end_entity intermediates server_name [] now)
     \<and> is_ok (vf_tls13 (tc_verifier config) message end_entity dss)"

text \<open>
  Anybody can answer a spoofed connection: its configuration takes every certificate for every name,
  whatever signature comes with it, where that of the other connections takes what the roots vouch for;
  and this is what the flag of a connection says in \<open>Connection_Race\<close>.
\<close>

theorem spoofed_takes_anybody:
  "takes_server (sc_insecure_config (spoof_connector_new s)) cert chain name message dss now
   \<and> (takes_server (to_tls_config (tls_origin_new webpki roots browser version s)) cert chain name message dss now
        \<longleftrightarrow> is_ok (vf_cert (webpki roots) cert chain name [] now) \<and> is_ok (vf_tls13 (webpki roots) message cert dss))
   \<and> do_tls_connect valid_name name ip d
        = tls_connect valid_name (\<not> tc_dangerous (to_tls_config (tls_origin_new webpki roots browser version s))) name ip d
   \<and> do_sni_connect valid_name name ip d
        = tls_connect valid_name (\<not> tc_dangerous (sc_insecure_config (spoof_connector_new s))) name ip d"
  by (simp add: takes_server_def spoof_connector_new_def build_insecure_config_def no_cert_verifier_def
      no_verify_server_cert_def no_verify_tls13_signature_def tls_origin_new_def build_shared_tls_config_def
      do_tls_connect_def do_sni_connect_def)

lemma timeout_roundtrip: "connect_timeout (tls_origin_new webpki roots browser version s) = s"
  by (simp add: connect_timeout_def tls_origin_new_def)

end
