(* ===== verification/Proxy_Reading.thy ===== *)
theory Proxy_Reading
  imports System_Proxy
begin

text \<open>
  Reading the proxy settings of the three systems (\<open>src/system/linux.rs\<close>, \<open>src/system/macos.rs\<close>,
  \<open>src/system/windows.rs\<close>). The outputs of \<open>gsettings\<close> and \<open>networksetup\<close>, the environment and the
  registry are parameters. The program does not call these functions; they show what a user of the
  library would be told.
\<close>

section \<open>Linux\<close>

definition quote :: char where "quote = CHR 0x27"

definition trim_quotes :: "string \<Rightarrow> string" where
  "trim_quotes s = rev (dropWhile (\<lambda>c. c = quote) (rev (dropWhile (\<lambda>c. c = quote) s)))"

text \<open>A command that could be started gives its success and its output.\<close>

definition linux_proxy_server :: "(string list \<Rightarrow> (bool \<times> string) option) \<Rightarrow> string option" where
  "linux_proxy_server gsettings =
     (case (gsettings [''get'', ''org.gnome.system.proxy.http'', ''host''],
            gsettings [''get'', ''org.gnome.system.proxy.http'', ''port'']) of
        (Some (True, h), Some (True, p)) \<Rightarrow>
          (let host = trim_quotes (trim (utf8_lossy h)); port = trim (utf8_lossy p)
           in if host \<noteq> [] \<and> host \<noteq> [quote, quote] then Some (host @ '':'' @ port) else None)
      | _ \<Rightarrow> None)"

definition linux_read_proxy_settings ::
    "(string list \<Rightarrow> (bool \<times> string) option) \<Rightarrow> (string \<Rightarrow> string option) \<Rightarrow> system_proxy_settings" where
  "linux_read_proxy_settings gsettings env_var =
     (case gsettings [''get'', ''org.gnome.system.proxy'', ''mode''] of
        Some (True, out) \<Rightarrow>
          (let mode = utf8_lossy out;
               enabled = contains_sub mode (quote # ''manual'' @ [quote]) \<or> contains_sub mode (quote # ''auto'' @ [quote])
           in \<lparr>sp_proxy_enabled = enabled, sp_proxy_server = (if enabled then linux_proxy_server gsettings else None),
               sp_proxy_override = None\<rparr>)
      | _ \<Rightarrow>
          (let server = (case env_var ''http_proxy'' of Some v \<Rightarrow> Some v | None \<Rightarrow> env_var ''HTTP_PROXY'')
           in \<lparr>sp_proxy_enabled = (server \<noteq> None), sp_proxy_server = server, sp_proxy_override = None\<rparr>))"

section \<open>macOS\<close>

text \<open>The second part of the first line that starts with a label, between its colons.\<close>

definition labelled :: "string \<Rightarrow> string list \<Rightarrow> string option" where
  "labelled label lines =
     (case find (\<lambda>l. starts_with l label) lines of
        None \<Rightarrow> None
      | Some l \<Rightarrow> (let parts = split_on CHR '':'' l in if 1 < length parts then Some (trim (parts ! 1)) else None))"

text \<open>\<open>networksetup\<close> gives its output, whether it succeeded or not, unless it cannot be started.\<close>

definition mac_read_proxy_settings ::
    "string option \<Rightarrow> (string list \<Rightarrow> string option) \<Rightarrow> (proxy_error, system_proxy_settings) outcome" where
  "mac_read_proxy_settings listing networksetup =
     (let service = (case get_network_services listing of [] \<Rightarrow> ''Wi-Fi'' | s # _ \<Rightarrow> s)
      in case networksetup [''-getwebproxy'', service] of
           None \<Rightarrow> Err ProxyFailed
         | Some out \<Rightarrow>
             (let stdout = utf8_lossy out; enabled = contains_sub stdout ''Enabled: Yes'';
                  lines = str_lines stdout
              in Ok \<lparr>sp_proxy_enabled = enabled,
                     sp_proxy_server =
                       (if enabled then
                          (case (labelled ''Server:'' lines, labelled ''Port:'' lines) of
                             (Some s, Some p) \<Rightarrow> Some (s @ '':'' @ p)
                           | _ \<Rightarrow> None)
                        else None),
                     sp_proxy_override = None\<rparr>))"

section \<open>Windows\<close>

definition win_read_proxy_settings :: "'r reg_ops \<Rightarrow> 'r \<Rightarrow> (proxy_error, system_proxy_settings) outcome" where
  "win_read_proxy_settings ops r =
     (if \<not> ro_readable ops r then Err ProxyFailed
      else Ok \<lparr>sp_proxy_enabled = (reg_dword ops enable_key r \<noteq> 0), sp_proxy_server = reg_text ops server_key r,
              sp_proxy_override = reg_text ops override_key r\<rparr>)"

section \<open>What they tell\<close>

text \<open>
  On Windows the settings that are read are those that \<open>set_proxy\<close> puts in its backup file.
\<close>

theorem win_read_is_backup:
  "win_read_proxy_settings ops r =
     (case read_current_state ops r of
        Ok saved \<Rightarrow> Ok \<lparr>sp_proxy_enabled = (sa_proxy_enable saved \<noteq> 0), sp_proxy_server = sa_proxy_server saved,
                       sp_proxy_override = sa_proxy_override saved\<rparr>
      | Err e \<Rightarrow> Err e
      | Panic \<Rightarrow> Panic)"
  by (simp add: win_read_proxy_settings_def read_current_state_def)

text \<open>On macOS the address of an IPv6 proxy is cut off at its first colon.\<close>

theorem mac_cuts_ipv6:
  "labelled ''Server:'' [''Enabled: Yes'', ''Server: fd00::1'', ''Port: 8080''] = Some ''fd00''
   \<and> labelled ''Server:'' [''Enabled: Yes'', ''Server: 10.0.0.1'', ''Port: 8080''] = Some ''10.0.0.1''"
  by code_simp

text \<open>
  On Linux a host in quotes with its line end and a port are put together; a proxy script counts as an
  enabled proxy, with the host that is set for manual mode.
\<close>

lemma trim_quotes_quoted:
  assumes "quote \<notin> set host" and "host \<noteq> []"
  shows "trim_quotes (quote # host @ [quote]) = host"
proof -
  have "dropWhile (\<lambda>c. c = quote) (host @ [quote]) = host @ [quote]"
    using assms by (cases host) auto
  moreover have "dropWhile (\<lambda>c. c = quote) (rev host) = rev host"
    using assms by (intro dropWhile_hd disjI2) (metis hd_rev last_in_set)
  ultimately show ?thesis by (simp add: trim_quotes_def)
qed

theorem linux_reads_host:
  assumes "gsettings [''get'', ''org.gnome.system.proxy'', ''mode''] = Some (True, quote # mode @ [quote, LF])"
    and "mode = ''manual'' \<or> mode = ''auto''"
    and "gsettings [''get'', ''org.gnome.system.proxy.http'', ''host''] = Some (True, quote # host @ [quote, LF])"
    and "gsettings [''get'', ''org.gnome.system.proxy.http'', ''port''] = Some (True, show_nat port @ [LF])"
    and "ascii host" and "\<forall>c \<in> set host. \<not> is_ws c" and "quote \<notin> set host" and "host \<noteq> []"
  shows "linux_read_proxy_settings gsettings env_var =
     \<lparr>sp_proxy_enabled = True, sp_proxy_server = Some (host @ '':'' @ show_nat port), sp_proxy_override = None\<rparr>"
proof -
  let ?out = "quote # host @ [quote, LF]" and ?mode = "quote # mode @ [quote, LF]"
  have plain: "ascii ?out" "ascii ?mode" "ascii (show_nat port @ [LF])"
    using assms(2,5) show_nat_ascii [of port] by (auto simp: quote_def)
  have "trim (quote # host @ [quote]) = quote # host @ [quote]"
    using assms(6) by (intro trim_no_ws) (auto simp: quote_def is_ws_def)
  from trim_output [OF this] have host: "trim ?out = quote # host @ [quote]" by simp
  have port: "trim (show_nat port @ [LF]) = show_nat port"
    by (intro trim_output trim_no_ws show_nat_no_ws)
  have "contains_sub ?mode (quote # mode @ [quote])"
    unfolding contains_sub_iff by (intro exI [of _ "[]"] exI [of _ "[LF]"]) simp
  moreover have "host \<noteq> [quote, quote]" using assms(7) by auto
  ultimately show ?thesis
    using assms(2,7,8) host port
    by (auto simp: linux_read_proxy_settings_def linux_proxy_server_def assms(1,3,4) utf8_lossy_ascii plain Let_def
        trim_quotes_quoted)
qed

end
