(* ===== verification/Logging.thy ===== *)
theory Logging
  imports Terminal Single_Instance
begin

text \<open>
  The set-up of the log (\<open>src/utils/logging.rs\<close>) and the directories it needs (\<open>src/utils/paths.rs\<close>): which
  layers are installed under which filter, and what can fail. The filters of tracing are a parameter:
  how a text becomes one, how a directive is added and which events pass. The calls that write to
  the log are not modelled anywhere; the program never reads it.
\<close>

section \<open>Directories\<close>

text \<open>The directories that exist; \<open>creatable\<close> says which can be made.\<close>

definition ensure_dir :: "(string \<Rightarrow> bool) \<Rightarrow> string \<Rightarrow> string list \<Rightarrow> bool \<times> string list" where
  "ensure_dir creatable dir dirs =
     (if dir \<in> set dirs then (True, dirs) else if creatable dir then (True, dir # dirs) else (False, dirs))"

definition ensure_data_dir :: "(string \<Rightarrow> bool) \<Rightarrow> string \<Rightarrow> string list \<Rightarrow> bool \<times> string list" where
  "ensure_data_dir creatable dir dirs = ensure_dir creatable dir dirs"

fun ensure_each :: "(string \<Rightarrow> bool) \<Rightarrow> string list \<Rightarrow> string list \<Rightarrow> bool \<times> string list" where
  "ensure_each creatable [] dirs = (True, dirs)"
| "ensure_each creatable (d # ds) dirs =
     (case ensure_dir creatable d dirs of
        (True, dirs1) \<Rightarrow> ensure_each creatable ds dirs1
      | (False, dirs1) \<Rightarrow> (False, dirs1))"

definition ensure_all_dirs :: "(string \<Rightarrow> bool) \<Rightarrow> string \<Rightarrow> string list \<Rightarrow> bool \<times> string list" where
  "ensure_all_dirs creatable dir dirs =
     (case ensure_data_dir creatable dir dirs of
        (False, dirs1) \<Rightarrow> (False, dirs1)
      | (True, dirs1) \<Rightarrow> ensure_each creatable [cert_cache_dir dir, log_dir dir, cache_dir dir] dirs1)"

section \<open>The layers\<close>

text \<open>The time of day of an entry, if the local time is known.\<close>

definition format_time :: "(nat \<times> nat \<times> nat) option \<Rightarrow> string option" where
  "format_time now_local =
     map_option (\<lambda>(h, m, s). pad2 h @ '':'' @ pad2 m @ '':'' @ pad2 s) now_local"

record ('f, 'e) filter_ops =
  ef_env :: "'f option"
  ef_new :: "string \<Rightarrow> 'f"
  ef_add :: "string \<Rightarrow> 'f \<Rightarrow> 'f"
  ef_passes :: "'f \<Rightarrow> 'e \<Rightarrow> bool"

record file_layer =
  fl_dir :: string
  fl_prefix :: string
  fl_suffix :: string
  fl_daily :: bool
  fl_max_files :: nat
  fl_ansi :: bool
  fl_target :: bool

record console_layer =
  cn_target :: bool
  cn_thread_ids :: bool
  cn_file :: bool
  cn_line_number :: bool

text \<open>The subscriber: one filter for all its layers.\<close>

record 'f subscriber =
  sb_filter :: 'f
  sb_file :: file_layer
  sb_console :: "console_layer option"

datatype log_error = NoDirectories | NoAppender | AlreadySet

definition file_layer_of :: "string \<Rightarrow> nat \<Rightarrow> file_layer" where
  "file_layer_of dir retention_days =
     \<lparr>fl_dir = log_dir dir, fl_prefix = ''hakimi-hub'', fl_suffix = ''log'', fl_daily = True,
      fl_max_files = retention_days, fl_ansi = False, fl_target = True\<rparr>"

definition console_layer_new :: console_layer where
  "console_layer_new = \<lparr>cn_target = False, cn_thread_ids = False, cn_file = False, cn_line_number = False\<rparr>"

definition console_filter :: "('f, 'e) filter_ops \<Rightarrow> string \<Rightarrow> 'f" where
  "console_filter ops level =
     ef_add ops ''rustls=warn'' (case ef_env ops of Some f \<Rightarrow> f | None \<Rightarrow> ef_new ops level)"

text \<open>
  \<open>appender\<close> says if the file can be opened, \<open>installed\<close> is the subscriber that the process has already.
\<close>

definition logging_init ::
    "('f, 'e) filter_ops \<Rightarrow> (string \<Rightarrow> bool) \<Rightarrow> bool \<Rightarrow> string \<Rightarrow> string \<Rightarrow> nat \<Rightarrow> bool
     \<Rightarrow> string list \<times> 'f subscriber option \<Rightarrow> (log_error, unit) outcome \<times> string list \<times> 'f subscriber option" where
  "logging_init ops creatable appender dir level retention_days enable_console st =
     (case st of
        (dirs, installed) \<Rightarrow>
          (case ensure_all_dirs creatable dir dirs of
             (False, dirs1) \<Rightarrow> (Err NoDirectories, dirs1, installed)
           | (True, dirs1) \<Rightarrow>
               if \<not> appender then (Err NoAppender, dirs1, installed)
               else if installed \<noteq> None then (Err AlreadySet, dirs1, installed)
               else
                 (Ok (), dirs1,
                  Some (if enable_console then
                          \<lparr>sb_filter = console_filter ops level, sb_file = file_layer_of dir retention_days,
                           sb_console = Some console_layer_new\<rparr>
                        else
                          \<lparr>sb_filter = ef_add ops ''rustls=warn'' (ef_new ops ''trace''),
                           sb_file = file_layer_of dir retention_days, sb_console = None\<rparr>))))"

section \<open>What reaches the file\<close>

definition reaches_file :: "('f, 'e) filter_ops \<Rightarrow> 'f subscriber \<Rightarrow> 'e \<Rightarrow> bool" where
  "reaches_file ops s event \<longleftrightarrow> ef_passes ops (sb_filter s) event"

lemma ensure_dir_keeps: "ensure_dir creatable d dirs = (ok, dirs') \<Longrightarrow> set dirs \<subseteq> set dirs' \<and> (ok \<longrightarrow> d \<in> set dirs')"
  by (auto simp: ensure_dir_def split: if_splits)

lemma ensure_each_all:
  "ensure_each creatable ds dirs = (ok, dirs') \<Longrightarrow> set dirs \<subseteq> set dirs' \<and> (ok \<longrightarrow> set ds \<subseteq> set dirs')"
proof (induction creatable ds dirs rule: ensure_each.induct)
  case (2 creatable d ds dirs)
  obtain ok1 dirs1 where e: "ensure_dir creatable d dirs = (ok1, dirs1)" by (cases "ensure_dir creatable d dirs")
  with 2 ensure_dir_keeps [OF e] show ?case by (cases ok1) auto
qed simp

text \<open>
  A log that could be set up has all its directories, and its file gets what the one filter passes: with
  the console on that is the level of the user or of the environment, not every event.
\<close>

theorem file_log_follows_console:
  assumes "logging_init ops creatable appender dir level retention_days enable_console (dirs, installed)
      = (Ok (), dirs', s)"
  shows "{dir, cert_cache_dir dir, log_dir dir, cache_dir dir} \<subseteq> set dirs'
     \<and> (\<exists>sub. s = Some sub \<and> fl_dir (sb_file sub) = log_dir dir \<and> (sb_console sub \<noteq> None \<longleftrightarrow> enable_console)
          \<and> (\<forall>event. reaches_file ops sub event \<longleftrightarrow>
               (if enable_console then ef_passes ops (console_filter ops level) event
                else ef_passes ops (ef_add ops ''rustls=warn'' (ef_new ops ''trace'')) event)))"
proof -
  obtain ok1 dirs1 where d1: "ensure_dir creatable dir dirs = (ok1, dirs1)" by (cases "ensure_dir creatable dir dirs")
  obtain ok2 dirs2 where d2: "ensure_each creatable [cert_cache_dir dir, log_dir dir, cache_dir dir] dirs1 = (ok2, dirs2)"
    by (cases "ensure_each creatable [cert_cache_dir dir, log_dir dir, cache_dir dir] dirs1")
  have all: "ensure_all_dirs creatable dir dirs = (if ok1 then (ok2, dirs2) else (False, dirs1))"
    by (simp add: ensure_all_dirs_def ensure_data_dir_def d1 d2 del: ensure_each.simps)
  from assms have ok: "ok1" "ok2" "dirs' = dirs2" "appender" "installed = None"
    unfolding logging_init_def prod.case all by (auto split: if_splits bool.splits prod.splits)
  have "{dir, cert_cache_dir dir, log_dir dir, cache_dir dir} \<subseteq> set dirs'"
    using ensure_dir_keeps [OF d1] ensure_each_all [OF d2] ok by auto
  moreover have "s = Some (if enable_console then
                          \<lparr>sb_filter = console_filter ops level, sb_file = file_layer_of dir retention_days,
                           sb_console = Some console_layer_new\<rparr>
                        else
                          \<lparr>sb_filter = ef_add ops ''rustls=warn'' (ef_new ops ''trace''),
                           sb_file = file_layer_of dir retention_days, sb_console = None\<rparr>)"
    using assms unfolding logging_init_def prod.case all by (simp add: ok)
  ultimately show ?thesis by (simp add: reaches_file_def file_layer_of_def)
qed

end
