(* ===== verification/Shared_State.thy ===== *)
theory Shared_State
  imports Proxy_Server
begin

text \<open>
  The state that all connections share, seen from its own side: \<open>Arc<ResourceCache>\<close>,
  \<open>Arc<MirrorHealthTracker>\<close>, \<open>Arc<ProxyMetrics>\<close> and the tasks that were spawned and have not run
  yet (\<open>HandlerContext\<close> of \<open>src/proxy/handler.rs\<close>). Its operations are the calls that the program
  makes on these objects. Each handler is shown to be a sequence of such calls, so what every call
  keeps, every interleaving of handlers, background tasks and connection counters keeps, also one in
  which the calls of two handlers alternate.
\<close>

section \<open>The calls\<close>

datatype shared_op =
    Lookup "64 word" string
  | Store "64 word" write_result string cached_resource
  | MirrorUp string rat
  | MirrorDown nat string
  | CountSent "64 word"
  | CountReceived "64 word"
  | ConnOpened
  | ConnClosed
  | Ran nat write_result

text \<open>A task that \<open>tokio::spawn\<close> took runs later; the tasks run in any order.\<close>

fun perform :: "(string \<Rightarrow> string) \<Rightarrow> shared_op \<Rightarrow> proxy_state \<Rightarrow> proxy_state" where
  "perform hash (Lookup now url) st =
     st\<lparr>ps_tasks := ps_tasks st @ snd (rc_get hash now url (ps_cache st))\<rparr>"
| "perform hash (Store now w url r) st =
     (case rc_put hash now w url r (ps_cache st) of
        (result, cache) \<Rightarrow>
          st\<lparr>ps_cache := cache, ps_tasks := ps_tasks st @ (case result of Ok ts \<Rightarrow> ts | _ \<Rightarrow> [])\<rparr>)"
| "perform hash (MirrorUp m t) st = st\<lparr>ps_mirrors := mirror_success m t (ps_mirrors st)\<rparr>"
| "perform hash (MirrorDown now m) st = st\<lparr>ps_mirrors := mirror_failure now m (ps_mirrors st)\<rparr>"
| "perform hash (CountSent n) st = st\<lparr>ps_metrics := add_bytes_sent n (ps_metrics st)\<rparr>"
| "perform hash (CountReceived n) st = st\<lparr>ps_metrics := add_bytes_received n (ps_metrics st)\<rparr>"
| "perform hash ConnOpened st = st\<lparr>ps_metrics := inc_active (ps_metrics st)\<rparr>"
| "perform hash ConnClosed st = st\<lparr>ps_metrics := dec_active (ps_metrics st)\<rparr>"
| "perform hash (Ran k w) st =
     (if k < length (ps_tasks st)
      then st\<lparr>ps_cache := run_task w (ps_tasks st ! k) (ps_cache st),
              ps_tasks := take k (ps_tasks st) @ drop (Suc k) (ps_tasks st)\<rparr>
      else st)"

text \<open>What a connection that meets the environment \<open>env\<close> may call.\<close>

fun asked_by :: "conn_env \<Rightarrow> shared_op \<Rightarrow> bool" where
  "asked_by env (Lookup now url) \<longleftrightarrow> now = ce_get_time env \<and> is_cacheable_url url"
| "asked_by env (Store now w url r) \<longleftrightarrow>
     now = ce_put_time env \<and> w = ce_put_write env \<and> is_cacheable_url url
     \<and> cr_etag r = None \<and> cr_last_modified r = None"
| "asked_by env (MirrorUp m t) \<longleftrightarrow> t = ce_response_time env"
| "asked_by env (MirrorDown now m) \<longleftrightarrow> now = ce_failed_at env"
| "asked_by env (CountSent n) \<longleftrightarrow> True"
| "asked_by env (CountReceived n) \<longleftrightarrow> True"
| "asked_by env _ \<longleftrightarrow> False"

section \<open>A handler is a sequence of calls\<close>

definition performs :: "(string \<Rightarrow> string) \<Rightarrow> conn_env \<Rightarrow> proxy_state \<Rightarrow> proxy_state \<Rightarrow> bool" where
  "performs hash env st st' \<longleftrightarrow> (\<exists>ops. list_all (asked_by env) ops \<and> st' = fold (perform hash) ops st)"

named_theorems calls \<open>operations of the handler that only call what \<open>asked_by\<close> allows\<close>

lemma performs_refl [calls]: "performs hash env st st"
  unfolding performs_def by (rule exI [of _ "[]"]) simp

lemma performs_snoc:
  assumes "performs hash env st st1" and "asked_by env op" and "st2 = perform hash op st1"
  shows "performs hash env st st2"
proof -
  from assms(1) obtain ops where "list_all (asked_by env) ops" "st1 = fold (perform hash) ops st"
    by (auto simp: performs_def)
  with assms(2,3) have "list_all (asked_by env) (ops @ [op]) \<and> st2 = fold (perform hash) (ops @ [op]) st" by simp
  then show ?thesis unfolding performs_def by blast
qed

lemma calls_metrics [calls]:
  "performs hash env st (ss_state ss) \<Longrightarrow> performs hash env st (ss_state (on_metrics (add_bytes_received n) ss))"
  "performs hash env st (ss_state ss) \<Longrightarrow> performs hash env st (ss_state (on_metrics (add_bytes_sent n) ss))"
  by (erule performs_snoc [where op = "CountReceived n"], simp, simp add: on_metrics_def)
    (erule performs_snoc [where op = "CountSent n"], simp, simp add: on_metrics_def)

lemma calls_mirrors [calls]:
  "performs hash env st (ss_state ss) \<Longrightarrow>
     performs hash env st (ss_state (on_mirrors (mirror_success m (ce_response_time env)) ss))"
  "performs hash env st (ss_state ss) \<Longrightarrow>
     performs hash env st (ss_state (on_mirrors (mirror_failure (ce_failed_at env) m) ss))"
  by (erule performs_snoc [where op = "MirrorUp m (ce_response_time env)"], simp, simp add: on_mirrors_def)
    (erule performs_snoc [where op = "MirrorDown (ce_failed_at env) m"], simp, simp add: on_mirrors_def)

lemma send_client_state: "send_client s ss = (ok, ss') \<Longrightarrow> ss_state ss' = ss_state ss"
  using send_client_parts by simp

lemma reply_calls [calls]:
  "performs hash env st (ss_state ss) \<Longrightarrow> performs hash env st (ss_state (snd (reply s ss)))"
  by (cases "send_client s ss") (simp add: reply_def send_client_state)

lemma relay_calls [calls]:
  "performs hash env st (ss_state ss) \<Longrightarrow> performs hash env st (ss_state (snd (relay_uncounted env q server ss)))"
  "performs hash env st (ss_state ss) \<Longrightarrow> performs hash env st (ss_state (count_relayed r ss))"
  by (simp add: relay_uncounted_def split_beta session_simps)
    (cases r; simp add: count_relayed_def calls)

lemma relay_counted_calls [calls]:
  "performs hash env st (ss_state ss) \<Longrightarrow> performs hash env st (ss_state (snd (relay_counted env q server ss)))"
  by (simp add: relay_counted_def split_beta session_simps calls)

lemma copy_counted_calls [calls]:
  assumes "performs hash env st (ss_state ss)"
  shows "performs hash env st (ss_state (snd (copy_counted env q server ss)))"
proof -
  obtain r client1 server1 mx where c:
    "copy_with_metrics (ce_schedule env) 0 0 0 (ss_client ss) server (ps_metrics (ss_state ss)) = (r, client1, server1, mx)"
    by (metis prod_cases4)
  then obtain n k where mx: "mx = add_bytes_sent n (add_bytes_received k (ps_metrics (ss_state ss)))"
    using copy_result by blast
  let ?ss = "on_metrics (add_bytes_sent n) (on_metrics (add_bytes_received k) ss)"
  have "ss_state (snd (copy_counted env q server ss)) = ss_state ?ss"
    by (simp add: copy_counted_def c mx on_metrics_def)
  then show ?thesis using calls_metrics [of hash env st] assms by simp
qed

lemma serve_cached_calls [calls]:
  "performs hash env st (ss_state ss) \<Longrightarrow> performs hash env st (ss_state (snd (serve_cached cached ss)))"
  by (cases "send_client (build_response_from_cache cached) ss")
    (auto simp: serve_cached_def send_client_state intro!: calls)

lemma resource_lookup_calls [calls]:
  assumes "performs (hc_hash ctx) env st (ss_state ss)"
  shows "performs (hc_hash ctx) env st (ss_state (snd (resource_lookup env ctx url ss)))"
proof (cases "is_cacheable_url url")
  case True
  show ?thesis
    by (rule performs_snoc [OF assms, where op = "Lookup (ce_get_time env) url"])
      (use True in \<open>simp_all add: resource_lookup_def spawn_tasks_def split_beta\<close>)
qed (simp add: resource_lookup_def assms)

lemma store_body_calls [calls]:
  assumes "performs (hc_hash ctx) env st (ss_state ss)" and "is_cacheable_url url"
  shows "performs (hc_hash ctx) env st (ss_state (store_body env ctx url ct body ss))"
proof -
  let ?r = "\<lparr>cr_content_type = ct, cr_data = body, cr_etag = None, cr_last_modified = None\<rparr>"
  obtain res cache where put: "rc_put (hc_hash ctx) (ce_put_time env) (ce_put_write env) url ?r (ps_cache (ss_state ss))
      = (res, cache)" by (cases "rc_put (hc_hash ctx) (ce_put_time env) (ce_put_write env) url ?r (ps_cache (ss_state ss))")
  show ?thesis
    by (rule performs_snoc [OF assms(1), where op = "Store (ce_put_time env) (ce_put_write env) url ?r"])
      (use assms(2) in \<open>simp_all add: store_body_def put spawn_tasks_def set_cache_def split: outcome.split\<close>)
qed

lemma add_bytes_received_zero: "add_bytes_received 0 mx = mx"
  by (simp add: add_bytes_received_def)

lemma forward_body_received:
  "forward_body n body client server mx = (ok, body', client', server', mx')
     \<Longrightarrow> \<exists>k. mx' = add_bytes_received k mx"
proof (induction n body client server mx rule: forward_body.induct)
  case (1 n body client server mx)
  have none: "\<exists>k. mx = add_bytes_received k mx"
    using add_bytes_received_zero [of mx] by metis
  from 1(2) none show ?case
    by (subst (asm) forward_body.simps)
      (auto simp: add_bytes_received_add dest!: 1(1) split: if_splits prod.splits wire_result.splits bool.splits)
qed

lemma cache_response_calls [calls]:
  assumes "performs (hc_hash ctx) env st (ss_state ss)" and url: "is_cacheable_url url"
  shows "performs (hc_hash ctx) env st (ss_state (snd (cache_response env ctx url header_end buf q server ss)))"
proof -
  obtain ok ss1 where send: "send_client buf ss = (ok, ss1)" by (cases "send_client buf ss")
  let ?ss2 = "on_metrics (add_bytes_received (of_nat (length buf))) ss1"
  have two: "performs (hc_hash ctx) env st (ss_state ?ss2)"
    using assms(1) send_client_state [OF send] by (intro calls) simp
  have three: "performs (hc_hash ctx) env st (ss_state (on_metrics (\<lambda>_. mx) (?ss2\<lparr>ss_client := c\<rparr>)))"
    if "forward_body n body (ss_client ?ss2) server (ps_metrics (ss_state ?ss2)) = (fok, body1, c, server1, mx)"
    for n body fok body1 c server1 mx
  proof -
    from forward_body_received [OF that] obtain k where "mx = add_bytes_received k (ps_metrics (ss_state ?ss2))" by blast
    then have "ss_state (on_metrics (\<lambda>_. mx) (?ss2\<lparr>ss_client := c\<rparr>)) = ss_state (on_metrics (add_bytes_received k) ?ss2)"
      by (simp add: on_metrics_def)
    then show ?thesis using calls_metrics(1) [OF two] by simp
  qed
  have relayed: "performs (hc_hash ctx) env st (ss_state (snd (relay_uncounted env q server ?ss2)))"
    by (rule relay_calls(1) [OF two])
  show ?thesis
  proof (cases "\<exists>ct n. ok \<and> parse_response_headers buf = (Some ct, Some n) \<and> is_cacheable url ct")
    case False
    then show ?thesis
      using relayed assms(1) send_client_state [OF send]
      by (cases ok; cases "parse_response_headers buf")
        (auto simp: cache_response_def send Let_def split: option.split)
  next
    case True
    then obtain ct n where h: "ok" "parse_response_headers buf = (Some ct, Some n)" "is_cacheable url ct" by blast
    let ?body = "case header_end of Some pos \<Rightarrow> drop (pos + 4) buf | None \<Rightarrow> []"
    obtain fok body1 c server1 mx where fwd:
      "forward_body n ?body (ss_client ?ss2) server (ps_metrics (ss_state ?ss2)) = (fok, body1, c, server1, mx)"
      by (metis prod_cases5)
    note st3 = three [OF fwd]
    show ?thesis
      using two st3 relay_calls(1) [OF st3, of q server1]
        relay_calls(1) [OF store_body_calls [OF st3 url, of ct body1], of q server1]
      unfolding cache_response_def send Let_def
      by (simp add: h fwd)
  qed
qed

lemma direct_cached_calls [calls]:
  assumes "performs (hc_hash ctx) env st (ss_state ss)" and "is_cacheable_url url"
  shows "performs (hc_hash ctx) env st (ss_state (snd (direct_cached env ctx url q server ss)))"
  using assms by (auto simp: direct_cached_def intro!: calls split: prod.split header_stop.split)

lemma spoof_cached_calls [calls]:
  assumes "performs (hc_hash ctx) env st (ss_state ss)" and "is_cacheable_url url"
  shows "performs (hc_hash ctx) env st (ss_state (snd (spoof_cached env ctx url q server ss)))"
  using assms
  by (auto simp: spoof_cached_def dest!: send_client_state intro!: calls
      split: prod.split header_stop.split bool.split)

lemma spoof_assets_calls [calls]:
  assumes "performs hash env st (ss_state ss)"
  shows "performs hash env st (ss_state (snd (spoof_assets env q server ss)))"
  using assms unfolding spoof_assets_def Let_def
  by (auto dest!: send_client_state intro!: calls split: prod.split header_stop.split bool.split if_splits)

lemma mirror_session_calls [calls]:
  assumes "performs hash env st (ss_state ss)"
  shows "performs hash env st (ss_state (snd (mirror_session env mirror rewritten q server ss)))"
  using calls_mirrors(1) [OF assms, of mirror] unfolding mirror_session_def Let_def
  by (auto intro!: relay_counted_calls split: prod.split bool.split)

lemma mitm_mirror_calls [calls]:
  assumes "performs hash env st (ss_state ss)"
  shows "performs hash env st (ss_state (snd (mitm_mirror env host mirror rewritten ss)))"
  using assms calls_mirrors(2) [OF assms, of mirror] unfolding mitm_mirror_def Let_def
  by (auto intro!: mirror_session_calls split: outcome.split)

lemma lookup_calls:
  "resource_lookup env ctx url ss = (hit, ss') \<Longrightarrow> performs (hc_hash ctx) env st (ss_state ss)
     \<Longrightarrow> performs (hc_hash ctx) env st (ss_state ss')"
  using resource_lookup_calls [of ctx env st ss url] by simp

lemma mitm_direct_calls [calls]:
  assumes "performs (hc_hash ctx) env st (ss_state ss)"
  shows "performs (hc_hash ctx) env st (ss_state (snd (mitm_direct env ctx host path req ss)))"
proof -
  obtain hit ss1 where look: "resource_lookup env ctx (resource_url host path) ss = (hit, ss1)"
    by (cases "resource_lookup env ctx (resource_url host path) ss")
  note ss1 = lookup_calls [OF look assms]
  show ?thesis unfolding mitm_direct_def Let_def look
    by (auto simp: ss1 intro!: serve_cached_calls direct_cached_calls relay_counted_calls
        split: option.split outcome.split prod.split bool.split)
qed

lemma mitm_spoof_calls [calls]:
  assumes "performs (hc_hash ctx) env st (ss_state ss)"
  shows "performs (hc_hash ctx) env st (ss_state (snd (mitm_spoof env ctx real_host fake_sni path req ss)))"
proof -
  obtain hit ss1 where look: "resource_lookup env ctx (resource_url real_host path) ss = (hit, ss1)"
    by (cases "resource_lookup env ctx (resource_url real_host path) ss")
  note ss1 = lookup_calls [OF look assms]
  show ?thesis unfolding mitm_spoof_def Let_def look
    by (auto simp: ss1 intro!: serve_cached_calls spoof_cached_calls spoof_assets_calls copy_counted_calls
        split: option.split outcome.split prod.split bool.split)
qed

lemma perform_mitm_calls [calls]:
  assumes "performs (hc_hash ctx) env st (ss_state ss)"
  shows "performs (hc_hash ctx) env st (ss_state (snd (perform_mitm env ctx host ss)))"
  using assms unfolding perform_mitm_def Let_def
  by (auto intro!: reply_calls mitm_mirror_calls mitm_spoof_calls mitm_direct_calls
      split: option.split prod.split wire_result.split upstream_decision.split)

lemma establish_tunnel_calls [calls]:
  assumes "performs hash env st (ss_state ss)"
  shows "performs hash env st (ss_state (snd (establish_tunnel env host port use_doh ss)))"
  using assms unfolding establish_tunnel_def Let_def
  by (auto intro!: relay_counted_calls split: outcome.split)

lemma connect_to_calls [calls]:
  assumes "performs (hc_hash ctx) env st (ss_state ss)"
  shows "performs (hc_hash ctx) env st (ss_state (snd (connect_to env ctx host port ss)))"
proof -
  obtain ok ss1 where send: "send_client established ss = (ok, ss1)" by (cases "send_client established ss")
  have ss1: "performs (hc_hash ctx) env st (ss_state ss1)" using assms send_client_state [OF send] by simp
  show ?thesis unfolding connect_to_def send
    by (auto simp: assms ss1 swallow_error intro!: reply_calls establish_tunnel_calls perform_mitm_calls
        split: option.split bool.split proxy_action.split)
qed

lemma forward_http_calls [calls]:
  assumes "performs hash env st (ss_state ss)"
  shows "performs hash env st (ss_state (snd (forward_http env req host port ss)))"
proof -
  have "performs hash env st (ss_state ss1)" if "relay env q server ss = (r, ss1)" for q server r ss1
    using that relay_parts(1) [of env q server ss] assms by simp
  then show ?thesis using assms unfolding forward_http_def Let_def
    by (auto intro!: relay_calls split: outcome.split prod.split bool.split relay_result.split)
qed

lemma forward_http_calls':
  "forward_http env req host port ss = (r, ss') \<Longrightarrow> performs hash env (ss_state ss) (ss_state ss')"
  using forward_http_calls [of hash env "ss_state ss" ss req host port] performs_refl by simp

lemma handle_connection_calls:
  "performs (hc_hash ctx) env (ss_state ss) (ss_state (snd (handle_connection env ctx ss)))"
proof -
  note start = performs_refl [of "hc_hash ctx" env "ss_state ss"]
  have "performs (hc_hash ctx) env (ss_state ss) (ss_state (snd (handle_connect env ctx ss)))"
    unfolding handle_connect_def Let_def
    by (auto intro!: start reply_calls connect_to_calls split: prod.split header_stop.split option.split)
  moreover have "performs (hc_hash ctx) env (ss_state ss) (ss_state (snd (handle_http env ctx ss)))"
    unfolding handle_http_def Let_def
    by (auto intro!: start reply_calls dest!: forward_http_calls' [of env _ _ _ _ _ _ "hc_hash ctx"]
        split: prod.split header_stop.split option.split domain_action.split outcome.split)
  ultimately show ?thesis
    using start unfolding handle_connection_def by (simp split: wire_result.split)
qed

end
