(* ===== verification/State_Types.thy ===== *)
theory State_Types
  imports Shared_State
begin

text \<open>
  The types of the shared state beyond what Rust checks: when a table of the cache, the health of the
  mirrors and the spawned tasks are well-formed, and that every call of \<open>Shared_State\<close> keeps them so.
\<close>

section \<open>Well-formed states\<close>

text \<open>
  The invariants that the Rust types do not express. An entry of the cache is filed under the hash of
  its URL, its file has the place that belongs to the hash, its URL and type are of the kind that is
  cached, and it is within the limit for one file.
\<close>

definition file_limit :: "cache_config \<Rightarrow> 64 word" where
  "file_limit cfg = of_nat (xc_max_file_size_mb cfg) * 1024 * 1024"

definition entry_wf :: "(string \<Rightarrow> string) \<Rightarrow> cache_config \<Rightarrow> string \<Rightarrow> cache_metadata \<Rightarrow> bool" where
  "entry_wf hash cfg key m \<longleftrightarrow>
     key = hash (cm_url m) \<and> cm_file_path m = get_file_path key
     \<and> is_cacheable (cm_url m) (cm_content_type m) \<and> cm_file_size m \<le> file_limit cfg"

definition table_wf :: "(string \<Rightarrow> string) \<Rightarrow> cache_config \<Rightarrow> (string, cache_metadata) assoc \<Rightarrow> bool" where
  "table_wf hash cfg table \<longleftrightarrow>
     distinct (map fst table) \<and> list_all (\<lambda>(key, m). entry_wf hash cfg key m) table"

definition cache_wf :: "(string \<Rightarrow> string) \<Rightarrow> cache_config \<Rightarrow> res_cache \<Rightarrow> bool" where
  "cache_wf hash cfg c \<longleftrightarrow>
     rc_config c = cfg \<and> table_wf hash cfg (rc_metadata c) \<and> distinct (map fst (rc_files c))
     \<and> (case rc_saved c of None \<Rightarrow> True | Some table \<Rightarrow> table_wf hash cfg table)"

text \<open>
  A mirror that failed often enough in a row is switched off; the statistics count one response time
  for each success.
\<close>

definition health_wf :: "32 word \<Rightarrow> mirror_health \<Rightarrow> bool" where
  "health_wf threshold h \<longleftrightarrow>
     (threshold \<le> mh_consecutive_failures h \<longrightarrow> mh_disabled_at h \<noteq> None)
     \<and> mh_response_time_count h = mh_total_successes h
     \<and> (mh_last_response_time h = None \<longrightarrow> mh_total_successes h = 0 \<and> mh_avg_response_time h = 0)"

definition tracker_wf :: "mirror_tracker \<Rightarrow> bool" where
  "tracker_wf t \<longleftrightarrow>
     0 < mt_failure_threshold t \<and> distinct (map fst (mt_health t))
     \<and> list_all (\<lambda>(m, h). health_wf (mt_failure_threshold t) h) (mt_health t)"

text \<open>A task that removes an entry was spawned for a URL.\<close>

definition task_wf :: "(string \<Rightarrow> string) \<Rightarrow> cache_task \<Rightarrow> bool" where
  "task_wf hash t \<longleftrightarrow> (case t of RemoveTask key \<Rightarrow> key \<in> range hash | EvictTask \<Rightarrow> True)"

definition state_wf :: "(string \<Rightarrow> string) \<Rightarrow> cache_config \<Rightarrow> proxy_state \<Rightarrow> bool" where
  "state_wf hash cfg st \<longleftrightarrow>
     cache_wf hash cfg (ps_cache st) \<and> tracker_wf (ps_mirrors st) \<and> list_all (task_wf hash) (ps_tasks st)"

section \<open>Every call keeps them\<close>

lemma distinct_keys_assoc [simp]:
  "distinct (map fst (AList.delete k xs))" if "distinct (map fst xs)"
  using that by (rule AList.distinct_delete)

lemma list_all_delete: "list_all P xs \<Longrightarrow> list_all P (AList.delete k xs)"
  by (induction xs) auto

lemma list_all_update: "list_all P xs \<Longrightarrow> P (k, v) \<Longrightarrow> list_all P (AList.update k v xs)"
  by (induction xs) auto

lemma table_wf_delete [simp]: "table_wf hash cfg table \<Longrightarrow> table_wf hash cfg (AList.delete k table)"
  by (simp add: table_wf_def list_all_delete)

lemma table_wf_update:
  "table_wf hash cfg table \<Longrightarrow> entry_wf hash cfg k m \<Longrightarrow> table_wf hash cfg (AList.update k m table)"
  by (simp add: table_wf_def list_all_update AList.distinct_update)

lemma cache_wf_drop:
  "cache_wf hash cfg c \<Longrightarrow>
     cache_wf hash cfg ((snd (remove_file path c))\<lparr>rc_metadata := AList.delete key (rc_metadata c)\<rparr>)"
  by (simp add: cache_wf_def remove_file_def)

lemma remove_async_wf: "cache_wf hash cfg c \<Longrightarrow> cache_wf hash cfg (remove_async_static key c)"
  by (simp add: remove_async_static_def Let_def cache_wf_drop)

lemma save_metadata_wf: "cache_wf hash cfg c \<Longrightarrow> cache_wf hash cfg (snd (save_metadata w c))"
  by (cases w) (simp_all add: save_metadata_def cache_wf_def)

lemma evict_entries_wf: "cache_wf hash cfg c \<Longrightarrow> cache_wf hash cfg (snd (evict_entries es target freed n c))"
proof (induction es target freed n c rule: evict_entries.induct)
  case (2 key sz entries target freed cnt c)
  obtain removed c1 where rm: "remove_file (get_file_path key) c = (removed, c1)"
    by (cases "remove_file (get_file_path key) c")
  have "cache_wf hash cfg (c1\<lparr>rc_metadata := AList.delete key (rc_metadata c1)\<rparr>)"
    using cache_wf_drop [OF "2.prems", where path = "get_file_path key" and key = key] remove_file_parts(1) [of "get_file_path key" c] rm
    by simp
  with 2 rm show ?case by (cases "target \<le> freed"; cases removed) (auto simp: Let_def)
qed simp

lemma evict_wf: "cache_wf hash cfg c \<Longrightarrow> cache_wf hash cfg (snd (evict_if_needed_static w c))"
  unfolding evict_if_needed_static_def Let_def by (simp add: split_beta evict_entries_wf save_metadata_wf)

lemma run_task_wf: "cache_wf hash cfg c \<Longrightarrow> cache_wf hash cfg (run_task w t c)"
  by (cases t) (simp_all add: run_task_def remove_async_wf evict_wf)

lemma rc_put_wf: "cache_wf hash cfg c \<Longrightarrow> cache_wf hash cfg (snd (rc_put hash now w url r c))"
proof (cases "accepts (rc_config c) url r")
  case True
  assume wf: "cache_wf hash cfg c"
  from True wf have "entry_wf hash cfg (hash url)
      \<lparr>cm_url = url, cm_content_type = cr_content_type r, cm_etag = cr_etag r,
       cm_last_modified = cr_last_modified r, cm_created_at = now, cm_last_accessed = now,
       cm_file_size = of_nat (length (cr_data r)), cm_file_path = get_file_path (hash url)\<rparr>"
    by (simp add: entry_wf_def accepts_def file_limit_def cache_wf_def)
  with wf True show ?thesis
    by (cases w) (simp_all add: rc_put_unfold Let_def cache_wf_def table_wf_update write_file_def
        AList.distinct_update)
qed (simp add: rc_put_unfold)

lemma rc_put_tasks_wf: "fst (rc_put hash now w url r c) = Ok ts \<Longrightarrow> list_all (task_wf hash) ts"
  by (auto simp: rc_put_unfold Let_def task_wf_def split: if_splits)

lemma rc_get_tasks_wf: "list_all (task_wf hash) (snd (rc_get hash now url c))"
  by (auto simp: rc_get_def Let_def task_wf_def split: option.split)

lemma health_of_wf: "tracker_wf t \<Longrightarrow> health_wf (mt_failure_threshold t) (health_of m t)"
  by (auto simp: tracker_wf_def health_of_def health_wf_def default_health_def list_all_iff
      dest: map_of_SomeD split: option.split)

lemma set_health_wf:
  "tracker_wf t \<Longrightarrow> health_wf (mt_failure_threshold t) h \<Longrightarrow> tracker_wf (set_health m h t)"
  by (simp add: tracker_wf_def set_health_def list_all_update AList.distinct_update)

lemma mirror_success_wf: "tracker_wf t \<Longrightarrow> tracker_wf (mirror_success m rt t)"
proof -
  assume wf: "tracker_wf t"
  then have "0 < mt_failure_threshold t" by (simp add: tracker_wf_def)
  then show ?thesis
    using health_of_wf [OF wf, of m]
    by (auto simp: mirror_success_def Let_def health_wf_def intro!: set_health_wf wf)
qed

lemma mirror_failure_wf: "tracker_wf t \<Longrightarrow> tracker_wf (mirror_failure now m t)"
  using health_of_wf [of t m]
  by (auto simp: mirror_failure_def Let_def health_wf_def intro!: set_health_wf)

lemma perform_wf: "state_wf hash cfg st \<Longrightarrow> state_wf hash cfg (perform hash op st)"
proof (cases op)
  case (Lookup now url)
  then show "state_wf hash cfg st \<Longrightarrow> ?thesis" by (simp add: state_wf_def rc_get_tasks_wf)
next
  case (Store now w url r)
  assume wf: "state_wf hash cfg st"
  obtain res c where put: "rc_put hash now w url r (ps_cache st) = (res, c)"
    by (cases "rc_put hash now w url r (ps_cache st)")
  then have "cache_wf hash cfg c" "res = Ok ts \<Longrightarrow> list_all (task_wf hash) ts" for ts
    using wf rc_put_wf [of hash cfg "ps_cache st" now w url r] rc_put_tasks_wf [of hash now w url r "ps_cache st" ts]
    by (simp_all add: state_wf_def)
  with wf show ?thesis by (cases res) (simp_all add: Store put state_wf_def)
next
  case (Ran k w)
  assume wf: "state_wf hash cfg st"
  then have "list_all (task_wf hash) (take k (ps_tasks st) @ drop (Suc k) (ps_tasks st))"
    by (auto simp: state_wf_def list_all_iff dest: in_set_takeD in_set_dropD)
  with wf show ?thesis by (simp add: Ran state_wf_def run_task_wf)
qed (simp_all add: state_wf_def mirror_success_wf mirror_failure_wf)

lemma performs_wf: "state_wf hash cfg st \<Longrightarrow> state_wf hash cfg (fold (perform hash) ops st)"
  by (induction ops arbitrary: st) (simp_all add: perform_wf)

end
