(* ===== verification/Program.thy ===== *)
theory Program
  imports Hub State_Types
begin

text \<open>
  The program while it runs: the server of \<open>Proxy_Server\<close> with the handler of \<open>Proxy_Handler\<close> on the
  state that \<open>Hub\<close> builds from the configuration, and beside the connections the background tasks
  of the resource cache. What holds in every state of every such run, and what the next start of
  the program finds.
\<close>

section \<open>The program as a whole\<close>

text \<open>
  An event is one of the server or a background task, which runs at any time after it was spawned and
  saves the table with the outcome \<open>w\<close>. The handlers of several connections may be waiting, running
  and ending in any order.
\<close>

datatype program_event = AtServer server_event | TaskRun nat write_result

inductive program_step :: "handler_ctx \<Rightarrow> server_conf \<Rightarrow> program_event \<Rightarrow> server_conf \<Rightarrow> bool" for ctx where
  at_server: "server_step (\<lambda>env. handle_connection env ctx) c e c' \<Longrightarrow> program_step ctx c (AtServer e) c'"
| task_run: "k < length (ps_tasks (sv_state s)) \<Longrightarrow>
    program_step ctx (Up s) (TaskRun k w) (Up (s\<lparr>sv_state := perform (hc_hash ctx) (Ran k w) (sv_state s)\<rparr>))"

inductive program_run :: "handler_ctx \<Rightarrow> server_conf \<Rightarrow> program_event list \<Rightarrow> server_conf \<Rightarrow> bool" for ctx where
  run_none: "program_run ctx c [] c"
| run_more: "program_run ctx c es c' \<Longrightarrow> program_step ctx c' e c'' \<Longrightarrow> program_run ctx c (es @ [e]) c''"

text \<open>The calls that the events account for.\<close>

definition caused_by :: "program_event list \<Rightarrow> shared_op \<Rightarrow> bool" where
  "caused_by evs op \<longleftrightarrow>
     (case op of
        ConnOpened \<Rightarrow> \<exists>i. AtServer (PermitTaken i) \<in> set evs
      | ConnClosed \<Rightarrow> \<exists>i env client. AtServer (Served i env client) \<in> set evs
      | Ran k w \<Rightarrow> TaskRun k w \<in> set evs
      | _ \<Rightarrow> \<exists>i env client. AtServer (Served i env client) \<in> set evs \<and> asked_by env op)"

lemma caused_by_mono: "caused_by evs op \<Longrightarrow> set evs \<subseteq> set evs' \<Longrightarrow> caused_by evs' op"
  unfolding caused_by_def by (cases op) (simp, blast)+

lemma asked_caused:
  "asked_by env op \<Longrightarrow> caused_by [AtServer (Served i env client)] op"
  unfolding caused_by_def by (cases op) auto

text \<open>One event is a sequence of calls; an error of the handler keeps those it made.\<close>

lemma end_connection_calls:
  assumes "end_connection (\<lambda>env. handle_connection env ctx) i env client s = Up s'"
  shows "\<exists>ops. list_all (asked_by env) ops
     \<and> sv_state s' = fold (perform (hc_hash ctx)) (ops @ [ConnClosed]) (sv_state s)"
proof -
  obtain r ss where h: "handle_connection env ctx (new_session client (sv_state s)) = (r, ss)"
    by (cases "handle_connection env ctx (new_session client (sv_state s))")
  with handle_connection_calls [of ctx env "new_session client (sv_state s)"] obtain ops where
    ops: "list_all (asked_by env) ops" "ss_state ss = fold (perform (hc_hash ctx)) ops (sv_state s)"
    by (auto simp: performs_def new_session_def)
  from assms h have "sv_state s' = perform (hc_hash ctx) ConnClosed (ss_state ss)"
    by (auto simp: end_connection_def split: outcome.splits)
  with ops show ?thesis by (intro exI [of _ ops]) simp
qed

lemma program_step_calls:
  assumes "program_step ctx (Up s) e (Up s')"
  shows "\<exists>ops. list_all (caused_by [e]) ops \<and> sv_state s' = fold (perform (hc_hash ctx)) ops (sv_state s)"
  using assms
proof (cases rule: program_step.cases)
  case (task_run k w)
  then show ?thesis by (intro exI [of _ "[Ran k w]"]) (simp add: caused_by_def)
next
  case (at_server e')
  from at_server(2) show ?thesis
  proof (cases rule: server_step.cases)
    case (permit i)
    then show ?thesis
      by (intro exI [of _ "[ConnOpened]"]) (simp add: caused_by_def at_server begin_connection_def)
  next
    case (serve i env client)
    then have "end_connection (\<lambda>env. handle_connection env ctx) i env client s = Up s'" by simp
    from end_connection_calls [OF this] obtain ops where ops: "list_all (asked_by env) ops"
        "sv_state s' = fold (perform (hc_hash ctx)) (ops @ [ConnClosed]) (sv_state s)"
      by blast
    have "list_all (caused_by [e]) (ops @ [ConnClosed])"
      using ops(1) asked_caused [of env _ i client] unfolding at_server(1) serve
      by (auto simp: list_all_iff caused_by_def [of _ ConnClosed])
    with ops(2) show ?thesis by blast
  qed (auto intro: exI [of _ "[]"])
qed

lemma program_from_Up: "program_run ctx (Up s) evs c \<Longrightarrow> c \<noteq> Aborted \<Longrightarrow> \<exists>s'. c = Up s'"
  by (cases c) auto

lemma program_step_Aborted [simp]: "\<not> program_step ctx Aborted e c"
  by (auto elim: program_step.cases)

lemma program_run_calls:
  assumes "program_run ctx (Up s) evs (Up s')"
  shows "\<exists>ops. list_all (caused_by evs) ops \<and> sv_state s' = fold (perform (hc_hash ctx)) ops (sv_state s)"
  using assms
proof (induction "Up s" evs "Up s'" arbitrary: s' rule: program_run.induct)
  case run_none
  then show ?case by (intro exI [of _ "[]"]) simp
next
  case (run_more es c' e)
  then obtain t where t: "c' = Up t" by (cases c') auto
  from run_more(2) [OF t] obtain ops where
    ops: "list_all (caused_by es) ops" "sv_state t = fold (perform (hc_hash ctx)) ops (sv_state s)" by blast
  from program_step_calls [OF run_more(3) [unfolded t]] obtain ops' where
    ops': "list_all (caused_by [e]) ops'" "sv_state s' = fold (perform (hc_hash ctx)) ops' (sv_state t)" by blast
  have "list_all (caused_by (es @ [e])) (ops @ ops')"
    using ops(1) ops'(1) caused_by_mono [of es _ "es @ [e]"] caused_by_mono [of "[e]" _ "es @ [e]"]
    by (auto simp: list_all_iff)
  with ops(2) ops'(2) show ?case by (intro exI [of _ "ops @ ops'"]) simp
qed

section \<open>What every run keeps\<close>

lemma hub_state_wf:
  assumes "distinct (map fst files)"
    and "case saved of None \<Rightarrow> True | Some table \<Rightarrow> table_wf hash (ac_cache config) table"
  shows "state_wf hash (ac_cache config) (hub_state now files saved config)"
  using assms
  by (auto simp: state_wf_def hub_state_def rc_new_def cache_wf_def table_wf_def default_tracker_def
      tracker_new_def tracker_wf_def split: option.split)

lemma hub_context_hash [simp]: "hc_hash (hub_context hash config) = hash"
  by (simp add: hub_context_def)

text \<open>
  Property C3.
  The state of the program is well-typed beyond what Rust checks: when the table that was saved last
  is well-formed, every state of every run, whatever the connections do and whenever the background
  tasks run, has a cache in which each entry is filed under the hash of its URL, with the right file,
  a cacheable type and a permitted size, mirrors that are switched off once they failed often enough,
  and tasks that are about entries of the cache; and what is on disk then is again a well-formed start.
\<close>

theorem program_state_typed:
  assumes "server_start max_permits bound (ac_proxy config) (hub_state now files saved config) = Ok s0"
    and "program_run (hub_context hash config) (Up s0) evs (Up s)"
    and "distinct (map fst files)"
    and "case saved of None \<Rightarrow> True | Some table \<Rightarrow> table_wf hash (ac_cache config) table"
    and "c = ps_cache (sv_state s)"
  shows "state_wf hash (ac_cache config) (sv_state s)
     \<and> state_wf hash (ac_cache config) (hub_state now' (rc_files c) (rc_saved c) config)"
proof -
  obtain ops where "sv_state s = fold (perform hash) ops (hub_state now files saved config)"
    using program_run_calls [OF assms(2)] server_start_Ok [OF assms(1)] by auto
  then have wf: "state_wf hash (ac_cache config) (sv_state s)"
    using performs_wf [OF hub_state_wf [OF assms(3,4)]] by simp
  then have "cache_wf hash (ac_cache config) c" by (simp add: state_wf_def assms(5))
  then have "state_wf hash (ac_cache config) (hub_state now' (rc_files c) (rc_saved c) config)"
    by (intro hub_state_wf) (simp_all add: cache_wf_def)
  with wf show ?thesis by blast
qed

section \<open>What the cache answers\<close>

text \<open>The calls of the cache among the calls of a run.\<close>

fun cache_calls :: "(string \<Rightarrow> string) \<Rightarrow> shared_op list \<Rightarrow> proxy_state \<Rightarrow> Resource_Cache.cache_op list" where
  "cache_calls hash [] st = []"
| "cache_calls hash (op # ops) st =
     (case op of
        Store now w url r \<Rightarrow> [OpPut now w url r]
      | Ran k w \<Rightarrow> if k < length (ps_tasks st) then [OpTask (ps_tasks st ! k) w] else []
      | _ \<Rightarrow> []) @ cache_calls hash ops (perform hash op st)"

fun stores :: "shared_op list \<Rightarrow> Resource_Cache.cache_op list" where
  "stores [] = []"
| "stores (Store now w url r # ops) = OpPut now w url r # stores ops"
| "stores (_ # ops) = stores ops"

lemma cache_calls_run: "ps_cache (fold (perform hash) ops st) = fold (run_op hash) (cache_calls hash ops st) (ps_cache st)"
proof (induction ops arbitrary: st)
  case (Cons op ops)
  then show ?case by (cases op) (simp_all add: split_beta)
qed simp

lemma cache_calls_puts: "OpPut now w url r \<in> set (cache_calls hash ops st) \<longleftrightarrow> Store now w url r \<in> set ops"
proof (induction ops arbitrary: st)
  case (Cons op ops)
  then show ?case by (cases op) auto
qed simp

lemma latest_put_calls: "latest_put cfg url (cache_calls hash ops st) = latest_put cfg url (stores ops)"
proof -
  let ?step = "\<lambda>op acc. case stored cfg op of None \<Rightarrow> acc | Some (u, r) \<Rightarrow> if u = url then Some r else acc"
  have "fold ?step (cache_calls hash ops st) acc = fold ?step (stores ops) acc" for acc
  proof (induction ops arbitrary: st acc)
    case (Cons op ops)
    then show ?case by (cases op) simp_all
  qed simp
  then show ?thesis by (simp add: latest_put_def)
qed

lemma latest_put_in: "latest_put cfg url (stores ops) = Some r \<Longrightarrow> \<exists>now. Store now Written url r \<in> set ops"
proof (induction ops rule: rev_induct)
  case Nil
  then show ?case by (simp add: latest_put_def)
next
  case (snoc op ops)
  have "stores (ops @ [op]) = stores ops @ stores [op]" by (induction ops rule: stores.induct) simp_all
  with snoc show ?case
    by (cases op) (auto simp: latest_put_snoc split: if_splits option.splits)
qed

text \<open>No other URL that was put has the hash of this one.\<close>

definition hash_apart :: "(string \<Rightarrow> string) \<Rightarrow> string \<Rightarrow> shared_op list \<Rightarrow> bool" where
  "hash_apart hash url ops \<longleftrightarrow> (\<forall>now w u r. Store now w u r \<in> set ops \<and> hash u = hash url \<longrightarrow> u = url)"

lemma calls_hit:
  assumes "\<And>u. length (hash u) = 64" and "\<And>now part u r. Store now (Torn part) u r \<notin> set ops"
    and "hash_apart hash url ops" and "ps_cache st = rc_new files None cfg"
    and "rc_get hash t url (ps_cache (fold (perform hash) ops st)) = (Some r, ts)"
  shows "latest_put cfg url (stores ops) = Some r"
proof -
  have "entry_of hash url None (ps_cache st)" by (simp add: assms(4) entry_of_def rc_new_def)
  moreover have "\<forall>op\<in>set (cache_calls hash ops st). \<not> torn op"
    using assms(2) by (auto simp: torn_def cache_calls_puts)
  moreover have "u = url" if "OpPut now w u r \<in> set (cache_calls hash ops st)" "hash u = hash url" for now w u r
    using assms(3) that by (auto simp: hash_apart_def cache_calls_puts)
  ultimately have "entry_of hash url (latest_put cfg url (cache_calls hash ops st)) (ps_cache (fold (perform hash) ops st))"
    using entry_of_run [OF assms(1), where ops = "cache_calls hash ops st" and url = url and c = "ps_cache st"]
    by (simp add: cache_calls_run assms(4) rc_new_def)
  from rc_get_entry [OF this assms(5)] show ?thesis by (simp add: latest_put_calls)
qed


section \<open>What the next start finds\<close>

text \<open>
  Whenever a background task ran, the table was within the limit of the cache.
\<close>

definition within_limit_at_tasks :: "handler_ctx \<Rightarrow> server \<Rightarrow> program_event list \<Rightarrow> 64 word \<Rightarrow> bool" where
  "within_limit_at_tasks ctx s0 evs limit \<longleftrightarrow>
     (\<forall>es k w es' s. evs = es @ TaskRun k w # es' \<and> program_run ctx (Up s0) es (Up s) \<longrightarrow>
        total_size (rc_metadata (ps_cache (sv_state s))) \<le> limit)"

lemma rc_put_saved [simp]: "rc_saved (snd (rc_put hash now w url r c)) = rc_saved c"
  by (simp add: rc_put_unfold Let_def)

lemma perform_saved: "(\<And>k w. op \<noteq> Ran k w) \<Longrightarrow> rc_saved (ps_cache (perform hash op st)) = rc_saved (ps_cache st)"
  by (cases op) (auto simp: split_beta)

lemma calls_saved:
  "list_all (asked_by env) ops \<Longrightarrow> rc_saved (ps_cache (fold (perform hash) ops st)) = rc_saved (ps_cache st)"
proof (induction ops arbitrary: st)
  case (Cons op ops)
  then have "rc_saved (ps_cache (perform hash op st)) = rc_saved (ps_cache st)"
    by (intro perform_saved) auto
  with Cons show ?case by simp
qed simp

lemma run_task_saved:
  "total_size (rc_metadata c) \<le> cache_limit (rc_config c) \<Longrightarrow> rc_saved (run_task w t c) = rc_saved c"
  by (cases t) (simp_all add: run_task_def remove_async_static_def remove_file_def Let_def
      evict_if_needed_static_def cache_limit_def)

lemma program_step_saved:
  assumes "program_step ctx (Up s) e (Up s')"
    and "\<And>k w. e = TaskRun k w \<Longrightarrow> total_size (rc_metadata (ps_cache (sv_state s))) \<le> cache_limit (rc_config (ps_cache (sv_state s)))"
  shows "rc_saved (ps_cache (sv_state s')) = rc_saved (ps_cache (sv_state s))"
  using assms(1)
proof (cases rule: program_step.cases)
  case (task_run k w)
  with assms(2) show ?thesis by (simp add: run_task_saved)
next
  case (at_server e')
  from at_server(2) show ?thesis
  proof (cases rule: server_step.cases)
    case (serve i env client)
    then have "end_connection (\<lambda>env. handle_connection env ctx) i env client s = Up s'" by simp
    from end_connection_calls [OF this] show ?thesis by (auto simp: calls_saved)
  qed (auto simp: begin_connection_def)
qed

lemma perform_config: "rc_config (ps_cache (perform hash op st)) = rc_config (ps_cache st)"
  using run_op_config [of hash "OpTask t w" c for t w c]
  by (cases op) (simp_all add: split_beta rc_put_unfold Let_def)

lemma performs_config: "rc_config (ps_cache (fold (perform hash) ops st)) = rc_config (ps_cache st)"
  by (induction ops arbitrary: st) (simp_all add: perform_config)

lemma program_run_saved:
  assumes "program_run ctx (Up s0) evs (Up s)"
    and "within_limit_at_tasks ctx s0 evs (cache_limit (rc_config (ps_cache (sv_state s0))))"
  shows "rc_saved (ps_cache (sv_state s)) = rc_saved (ps_cache (sv_state s0))"
  using assms
proof (induction "Up s0" evs "Up s" arbitrary: s rule: program_run.induct)
  case (run_more es c' e)
  then obtain t where t: "c' = Up t" by (cases c') auto
  have "within_limit_at_tasks ctx s0 es (cache_limit (rc_config (ps_cache (sv_state s0))))"
    using run_more(4) unfolding within_limit_at_tasks_def by (metis append_Cons append_assoc)
  from run_more(2) [OF t this] have IH: "rc_saved (ps_cache (sv_state t)) = rc_saved (ps_cache (sv_state s0))" .
  have run: "program_run ctx (Up s0) es (Up t)" using run_more(1) t by simp
  have cfg: "rc_config (ps_cache (sv_state t)) = rc_config (ps_cache (sv_state s0))"
    using program_run_calls [OF run] performs_config by auto
  have "rc_saved (ps_cache (sv_state s)) = rc_saved (ps_cache (sv_state t))"
  proof (rule program_step_saved)
    show "program_step ctx (Up t) e (Up s)" using run_more(3) t by simp
    show "total_size (rc_metadata (ps_cache (sv_state t))) \<le> cache_limit (rc_config (ps_cache (sv_state t)))"
      if "e = TaskRun k w" for k w
      using run_more(4) run that unfolding within_limit_at_tasks_def cfg by blast
  qed
  with IH show ?case by simp
qed simp


section \<open>Where the connections of the program go\<close>

definition proxied_host :: "string \<Rightarrow> bool" where
  "proxied_host host \<longleftrightarrow>
     (\<exists>zone \<in> set default_zones. subdomain_of (to_lowercase host) zone) \<or> to_lowercase host = ''steamserver.net''"

definition first_rule :: "intercept_rule list \<Rightarrow> string \<Rightarrow> string \<Rightarrow> intercept_action option" where
  "first_rule rules host path =
     map_option ir_action
       (case first_of_class 0 rules host path of
          Some r \<Rightarrow> Some r
        | None \<Rightarrow> (case first_of_class 1 rules host path of
                     Some r \<Rightarrow> Some r
                   | None \<Rightarrow> first_of_class 2 rules host path))"

text \<open>The upstreams that the configuration allows for a host, a port and a path.\<close>

definition configured_routes :: "app_config \<Rightarrow> string \<Rightarrow> nat \<Rightarrow> string \<Rightarrow> connect_request set" where
  "configured_routes config host port path =
     (let rules = ic_rules (ac_intercepts config)
      in if (\<exists>b. first_rule rules host ''/'' = Some (Abort b)) then {}
         else if \<not> proxied_host host then {BySystem host port}
         else if \<not> pc_mitm_enabled (ac_proxy config) then {Resolved host port}
         else (case first_rule rules host path of
                 None \<Rightarrow> {Verified host}
               | Some (Proxy mirror) \<Rightarrow> {Verified mirror, Verified host}
               | Some (SniSpoof sni real_host) \<Rightarrow>
                   (let real = (if CHR ''*'' \<in> set real_host then host else real_host)
                    in {Spoofed real sni, Verified real})
               | Some _ \<Rightarrow> {}))"

lemma hub_context_match:
  "match_domain (hc_intercept_matcher (hub_context hash config)) host path
     = first_rule (ic_rules (ac_intercepts config)) host path"
  by (simp add: hub_context_def first_rule_def match_domain_scan)

lemma hub_context_classify:
  "classify (hc_domain_rules (hub_context hash config)) host = (if proxied_host host then ActProxy else ActDirect)"
  by (simp add: hub_context_def default_routing proxied_host_def)

lemma hub_context_aborted:
  "is_aborted (hub_context hash config) host \<longleftrightarrow>
     (\<exists>b. first_rule (ic_rules (ac_intercepts config)) host ''/'' = Some (Abort b))"
  unfolding is_aborted_def hub_context_match
  by (auto split: option.split intercept_action.split)

lemma hub_context_upstreams:
  "connect_upstreams env (hub_context hash config) host port
     = configured_routes config host port (request_path (first_request env))"
  unfolding connect_upstreams_def configured_routes_def hub_context_aborted hub_context_classify
    allowed_upstreams_def hub_context_match resolve_real_host_def Let_def
  by (simp add: hub_context_def split: option.split intercept_action.split)


section \<open>A run\<close>

text \<open>
  A client asks for an image through an intercepted connection, the server answers with one, the client
  is gone; the configuration is the default one without intercept rules.
\<close>

definition quiet_config :: app_config where
  "quiet_config = default_app\<lparr>ac_intercepts := \<lparr>ic_rules = []\<rparr>\<rparr>"

definition sample_hash :: "string \<Rightarrow> string" where
  "sample_hash u = replicate 64 (if u = avatar_url then CHR ''a'' else CHR ''b'')"

abbreviation sample_hub :: handler_ctx where
  "sample_hub \<equiv> hub_context sample_hash quiet_config"

abbreviation image_env :: conn_env where
  "image_env \<equiv> sample_conn image_request [Arrived image_404]"

definition image_events :: "program_event list" where
  "image_events =
     [AtServer (Accepted 1), AtServer (PermitTaken 1),
      AtServer (Served 1 image_env (peer [Arrived connect_github]))]"

definition first_server :: server where
  "first_server = \<lparr>sv_limit = None, sv_listening = True, sv_waiting = [],
     sv_running = [], sv_state = hub_state 0 [] None quiet_config\<rparr>"

lemma quiet_parts [simp]:
  "ac_proxy quiet_config = default_proxy" "ac_cache quiet_config = default_cache"
  "ic_rules (ac_intercepts quiet_config) = []"
  by (simp_all add: quiet_config_def default_app_def)

lemma sample_hash_parts: "length (sample_hash u) = 64" "sample_hash u = sample_hash avatar_url \<longleftrightarrow> u = avatar_url"
  by (auto simp: sample_hash_def)

lemma sample_hub_intercepts: "intercepts_github sample_hub"
  by (simp add: intercepts_github_def hub_context_def default_proxy_def)

lemma first_server_start: "server_start 10000 True (ac_proxy quiet_config) (hub_state 0 [] None quiet_config) = Ok first_server"
  by (simp add: server_start_def first_server_def default_proxy_def)

lemma hub_state_cache: "ps_cache (hub_state 0 [] None quiet_config) = rc_new [] None default_cache"
  by (simp add: hub_state_def)

lemma image_not_huge: "\<not> huge_length image_404"
  using parse_answer [OF sample_plain(1,2), of 1 "''x''"] by (simp add: huge_length_def image_404_def)

lemma image_404_end: "find_header_end image_404
    = Some (length (join crlf (answer_lines ''HTTP/1.1 404 Not Found'' ''image/png'' (length ''x''))))"
  unfolding image_404_def by (rule answer_head_end [OF sample_plain(1,2)])

lemma image_direct_ok:
  assumes "ep_reads server = [Arrived image_404]"
  shows "fst (direct_cached env ctx url q server ss) \<noteq> Panic"
proof
  assume "fst (direct_cached env ctx url q server ss) = Panic"
  obtain stop buf server1 where head: "read_head False 8192 65536 [] server = (stop, buf, server1)"
    by (metis prod_cases3)
  with \<open>fst _ = Panic\<close> have huge: "huge_length buf"
    by (auto simp: direct_cached_def split: header_stop.splits dest: cache_response_panic)
  have ne: "image_404 \<noteq> []" by (simp add: image_404_def answer_def header_sep_def)
  have "read_some False 8192 server = (Got image_404, server\<lparr>ep_reads := []\<rparr>)"
    using assms image_404_short by (simp add: read_some_def image_404_def)
  then have "buf = image_404"
    using head image_404_end
    by (subst (asm) read_head.simps)
      (simp only: ne append_Nil option.case if_False prod.case wire_result.case prod.inject)
  with huge image_not_huge show False by simp
qed

lemma image_env_parts:
  "ce_put_time image_env = 10" "ce_put_write image_env = Written"
  by (simp_all add: sample_conn_def)

lemma image_served:
  assumes ctx: "intercepts_github ctx" and cache: "ps_cache st = rc_new [] None default_cache"
  shows "\<exists>ss e. handle_connection image_env ctx (new_session (peer [Arrived connect_github]) st) = (Ok (), ss)
     \<and> ss_server ss = Some (Verified ''github.com'', e)
     \<and> ps_cache (ss_state ss) = snd (rc_put (hc_hash ctx) 10 Written avatar_url image_x (ps_cache st))"
proof -
  let ?start = "new_session (peer [Arrived connect_github]) st"
  let ?ss = "?start\<lparr>ss_client := peer []\<rparr>"
  have "ep_room (ss_client ?ss) = None" by (simp add: peer_def)
  from connect_to_github [OF ctx this, of image_env] obtain ss1 where
    ss1: "ss_state ss1 = st"
      "fst (connect_to image_env ctx ''github.com'' 443 ?ss)
         = (case fst (perform_mitm image_env ctx ''github.com'' ss1) of Panic \<Rightarrow> Panic | _ \<Rightarrow> Ok ())"
      "snd (connect_to image_env ctx ''github.com'' 443 ?ss) = snd (perform_mitm image_env ctx ''github.com'' ss1)"
    by (auto simp: new_session_def)
  from sample_mitm [OF ctx, of "[Arrived image_404]" ss1] ss1(1) cache obtain ss2 server1 where
    d: "ep_reads server1 = [Arrived image_404]" "ep_room (ss_client ss2) = None" "ss_state ss2 = st"
    "perform_mitm image_env ctx ''github.com'' ss1
       = direct_cached image_env ctx avatar_url (Verified ''github.com'') server1 ss2"
    by auto
  let ?run = "direct_cached image_env ctx avatar_url (Verified ''github.com'') server1 ss2"
  have "handle_connection image_env ctx ?start = connect_to image_env ctx ''github.com'' 443 ?ss"
    by (rule handle_connect_github) (simp add: new_session_def)
  with ss1(2,3) d(4) image_direct_ok [OF d(1), of image_env ctx avatar_url "Verified ''github.com''" ss2]
  have run: "handle_connection image_env ctx ?start = (Ok (), snd ?run)"
    by (cases "fst ?run") (simp_all add: prod_eq_iff)
  have "ep_reads server1 = [Arrived (answer ''HTTP/1.1 404 Not Found'' ''image/png'' (length ''x'') ''x'')]"
    using d(1) by (simp only: image_404_def)
  from direct_cached_answer [OF sample_plain avatar_cacheable(2) image_404_short d(2) this,
      of image_env ctx "Verified ''github.com''"]
  have "ps_cache (ss_state (snd ?run)) = snd (rc_put (hc_hash ctx) 10 Written avatar_url image_x (ps_cache st))"
    by (simp add: d(3) sample_conn_def)
  with run direct_cached_server [of image_env ctx avatar_url "Verified ''github.com''" server1 ss2] show ?thesis by auto
qed

lemma image_run:
  "\<exists>s. program_run sample_hub (Up first_server) image_events (Up s)
     \<and> ps_cache (sv_state s) = snd (rc_put sample_hash 10 Written avatar_url image_x (rc_new [] None default_cache))"
proof -
  let ?client = "peer [Arrived connect_github]"
  let ?s1 = "first_server\<lparr>sv_waiting := [1]\<rparr>" and ?s2 = "begin_connection 1 (first_server\<lparr>sv_waiting := [1]\<rparr>)"
  have cache: "ps_cache (sv_state ?s2) = rc_new [] None default_cache"
    by (simp add: begin_connection_def first_server_def hub_state_cache)
  from image_served [OF sample_hub_intercepts cache] obtain ss e where
    ss: "handle_connection image_env sample_hub (new_session ?client (sv_state ?s2)) = (Ok (), ss)"
      "ps_cache (ss_state ss) = snd (rc_put sample_hash 10 Written avatar_url image_x (ps_cache (sv_state ?s2)))"
    by auto
  let ?s3 = "?s2\<lparr>sv_running := remove1 1 (sv_running ?s2),
      sv_state := (ss_state ss)\<lparr>ps_metrics := dec_active (ps_metrics (ss_state ss))\<rparr>\<rparr>"
  have "server_step (\<lambda>env. handle_connection env sample_hub) (Up first_server) (Accepted 1) (Up ?s1)"
    using server_step.accept [of first_server _ 1] by (simp add: first_server_def)
  moreover have "server_step (\<lambda>env. handle_connection env sample_hub) (Up ?s1) (PermitTaken 1) (Up ?s2)"
    by (rule server_step.permit) (simp_all add: permit_free_def first_server_def)
  moreover have "server_step (\<lambda>env. handle_connection env sample_hub) (Up ?s2) (Served 1 image_env ?client) (Up ?s3)"
  proof -
    have "end_connection (\<lambda>env. handle_connection env sample_hub) 1 image_env ?client ?s2 = Up ?s3"
      unfolding end_connection_def ss(1) by simp
    moreover have "1 \<in> set (sv_running ?s2)" by (simp add: begin_connection_def)
    ultimately show ?thesis
      using server_step.serve [of 1 ?s2 "\<lambda>env. handle_connection env sample_hub" image_env ?client] by simp
  qed
  ultimately have "program_run sample_hub (Up first_server)
      ((([] @ [AtServer (Accepted 1)]) @ [AtServer (PermitTaken 1)]) @ [AtServer (Served 1 image_env ?client)]) (Up ?s3)"
    by (blast intro: run_more [OF _ at_server] run_none)
  with ss(2) cache show ?thesis by (intro exI [of _ ?s3]) (simp add: image_events_def)
qed

lemma image_hit:
  "rc_get sample_hash 11 avatar_url (snd (rc_put sample_hash 10 Written avatar_url image_x (rc_new [] None default_cache)))
     = (Some image_x, [])"
  by (rule rc_put_get)
    (use sample_accepts [of "CHR ''x''"] in \<open>simp_all add: rc_new_def ttl_seconds_def default_cache_def\<close>)

theorem program_state_typed_witness:
  "\<exists>s. program_run sample_hub (Up first_server) image_events (Up s)
     \<and> rc_metadata (ps_cache (sv_state s)) \<noteq> []
     \<and> state_wf sample_hash default_cache (sv_state s)"
proof -
  obtain s where s: "program_run sample_hub (Up first_server) image_events (Up s)"
    "ps_cache (sv_state s) = snd (rc_put sample_hash 10 Written avatar_url image_x (rc_new [] None default_cache))"
    using image_run by blast
  have "rc_metadata (ps_cache (sv_state s)) \<noteq> []"
    using image_hit by (auto simp: s(2) rc_get_def Let_def split: if_splits)
  with program_state_typed [OF first_server_start s(1) _ _ refl] s(1) show ?thesis by auto
qed




end
